(* ===== verification/JsPrelude.thy ===== *)
theory JsPrelude
  imports Main "HOL-Library.Multiset" "HOL-Library.AList"
begin

text \<open>
  The part of the JavaScript standard library that the frontend's own code uses, as
  HOL functions, with the lemmas every component shares.

  Strings are char lists: a JavaScript string is modelled by its UTF-8 encoding, so the
  dash and the ellipsis of the user interface are three chars each. The string operations
  below agree with JavaScript's on every well formed string, with one bound:
  \<open>to_lower\<close> changes ASCII letters only, and lengths and slices count chars, which
  are JavaScript's code units on ASCII text.

  \<open>null\<close> and \<open>undefined\<close> are both \<open>None\<close> where the code does not tell them
  apart; values of type \<open>unknown\<close> are in the theory JsValue.
\<close>

named_theorems js_returns \<open>rules that show that a computation does not throw\<close>

section \<open>Strings\<close>

definition DASH :: string where
  "DASH = [CHR 0xE2, CHR 0x80, CHR 0x94]"

definition ELLIPSIS :: string where
  "ELLIPSIS = [CHR 0xE2, CHR 0x80, CHR 0xA6]"

definition MIDDOT :: string where
  "MIDDOT = [CHR 0xC2, CHR 0xB7]"

fun starts_with :: "string \<Rightarrow> string \<Rightarrow> bool" where
  "starts_with s [] = True"
| "starts_with [] (t # ts) = False"
| "starts_with (c # cs) (t # ts) = (c = t \<and> starts_with cs ts)"

definition ends_with :: "string \<Rightarrow> string \<Rightarrow> bool" where
  "ends_with s t = starts_with (rev s) (rev t)"

fun str_includes :: "string \<Rightarrow> string \<Rightarrow> bool" where
  "str_includes [] t = (t = [])"
| "str_includes (c # cs) t = (starts_with (c # cs) t \<or> str_includes cs t)"

fun index_of :: "string \<Rightarrow> string \<Rightarrow> nat option" where
  "index_of [] t = (if t = [] then Some 0 else None)"
| "index_of (c # cs) t =
     (if starts_with (c # cs) t then Some 0 else map_option Suc (index_of cs t))"

fun split_char :: "char \<Rightarrow> string \<Rightarrow> string list" where
  "split_char d [] = [[]]"
| "split_char d (c # cs) =
     (if c = d then [] # split_char d cs
      else (case split_char d cs of [] \<Rightarrow> [[c]] | w # ws \<Rightarrow> (c # w) # ws))"

fun join :: "string \<Rightarrow> string list \<Rightarrow> string" where
  "join sep [] = []"
| "join sep [x] = x"
| "join sep (x # y # zs) = x @ sep @ join sep (y # zs)"

definition replace_char :: "char \<Rightarrow> char \<Rightarrow> string \<Rightarrow> string" where
  "replace_char c d = map (\<lambda>x. if x = c then d else x)"

text \<open>\<open>value.replace(/\<dots>+$/, "")\<close> for a one-character class: all trailing occurrences go.\<close>

definition strip_trailing :: "char \<Rightarrow> string \<Rightarrow> string" where
  "strip_trailing c s = rev (dropWhile (\<lambda>x. x = c) (rev s))"

definition char_code :: "char \<Rightarrow> nat" where
  "char_code c = of_char c"

definition lower_char :: "char \<Rightarrow> char" where
  "lower_char c = (if 65 \<le> char_code c \<and> char_code c \<le> 90 then char_of (char_code c + 32) else c)"

definition to_lower :: "string \<Rightarrow> string" where
  "to_lower = map lower_char"

definition upper_char :: "char \<Rightarrow> char" where
  "upper_char c = (if 97 \<le> char_code c \<and> char_code c \<le> 122 then char_of (char_code c - 32) else c)"

definition to_upper :: "string \<Rightarrow> string" where
  "to_upper = map upper_char"

definition is_digit :: "char \<Rightarrow> bool" where
  "is_digit c \<longleftrightarrow> 48 \<le> char_code c \<and> char_code c \<le> 57"

definition is_alnum :: "char \<Rightarrow> bool" where
  "is_alnum c \<longleftrightarrow> is_digit c \<or> 65 \<le> char_code c \<and> char_code c \<le> 90
     \<or> 97 \<le> char_code c \<and> char_code c \<le> 122"

lemma starts_with_append [simp]: "starts_with (t @ s) t"
  by (induction t) auto

lemma starts_with_iff: "starts_with s t \<longleftrightarrow> (\<exists>r. s = t @ r)"
  by (induction s t rule: starts_with.induct) auto

lemma starts_with_take: "starts_with s t \<longleftrightarrow> take (length t) s = t"
  by (induction s t rule: starts_with.induct) auto

lemma starts_with_length: "starts_with s t \<Longrightarrow> length t \<le> length s"
  by (auto simp: starts_with_iff)

lemma starts_with_trans: "starts_with s t \<Longrightarrow> starts_with t u \<Longrightarrow> starts_with s u"
  by (auto simp: starts_with_iff)

lemma starts_with_incomparable:
  "starts_with s t \<Longrightarrow> \<not> starts_with t u \<Longrightarrow> \<not> starts_with u t \<Longrightarrow> \<not> starts_with s u"
  by (auto simp: starts_with_iff append_eq_append_conv2)

lemma ends_with_iff: "ends_with s t \<longleftrightarrow> (\<exists>r. s = r @ t)"
proof
  assume "ends_with s t"
  then obtain r where "rev s = rev t @ r" by (auto simp: ends_with_def starts_with_iff)
  then have "s = rev r @ t" by (metis rev_append rev_rev_ident)
  then show "\<exists>r. s = r @ t" ..
next
  assume "\<exists>r. s = r @ t"
  then show "ends_with s t" by (auto simp: ends_with_def)
qed

lemma includes_iff: "str_includes s t \<longleftrightarrow> (\<exists>a b. s = a @ t @ b)"
proof (induction s)
  case Nil
  then show ?case by auto
next
  case (Cons c cs)
  have "(\<exists>a b. c # cs = a @ t @ b) \<longleftrightarrow> starts_with (c # cs) t \<or> (\<exists>a b. cs = a @ t @ b)"
    by (auto simp: starts_with_iff Cons_eq_append_conv)
  with Cons.IH show ?case by simp
qed

lemma split_char_nonempty [simp]: "split_char d s \<noteq> []"
  by (cases s) (auto split: list.splits)

lemma split_char_no_sep: "w \<in> set (split_char d s) \<Longrightarrow> d \<notin> set w"
  by (induction s arbitrary: w) (auto split: list.splits if_splits)

lemma join_split_char: "join [d] (split_char d s) = s"
proof (induction s)
  case Nil
  then show ?case by simp
next
  case (Cons c cs)
  obtain w ws where w: "split_char d cs = w # ws"
    using split_char_nonempty by (meson neq_Nil_conv)
  with Cons.IH show ?case by (cases ws) auto
qed

lemma split_char_id: "d \<notin> set s \<Longrightarrow> split_char d s = [s]"
  by (induction s) auto

section \<open>Whitespace and trim\<close>

text \<open>The white space and line terminators of ECMAScript, in UTF-8.\<close>

definition js_whitespace :: "string list" where
  "js_whitespace =
     [[CHR 0x20], [CHR 0x0A], [CHR 0x0D], [CHR 0x09], [CHR 0x0B], [CHR 0x0C],
      [CHR 0xC2, CHR 0xA0], [CHR 0xE1, CHR 0x9A, CHR 0x80],
      [CHR 0xE2, CHR 0x80, CHR 0x80], [CHR 0xE2, CHR 0x80, CHR 0x81],
      [CHR 0xE2, CHR 0x80, CHR 0x82], [CHR 0xE2, CHR 0x80, CHR 0x83],
      [CHR 0xE2, CHR 0x80, CHR 0x84], [CHR 0xE2, CHR 0x80, CHR 0x85],
      [CHR 0xE2, CHR 0x80, CHR 0x86], [CHR 0xE2, CHR 0x80, CHR 0x87],
      [CHR 0xE2, CHR 0x80, CHR 0x88], [CHR 0xE2, CHR 0x80, CHR 0x89],
      [CHR 0xE2, CHR 0x80, CHR 0x8A], [CHR 0xE2, CHR 0x80, CHR 0xA8],
      [CHR 0xE2, CHR 0x80, CHR 0xA9], [CHR 0xE2, CHR 0x80, CHR 0xAF],
      [CHR 0xE2, CHR 0x81, CHR 0x9F], [CHR 0xE3, CHR 0x80, CHR 0x80],
      [CHR 0xEF, CHR 0xBB, CHR 0xBF]]"

fun drop_token :: "string list \<Rightarrow> string \<Rightarrow> string option" where
  "drop_token [] s = None"
| "drop_token (t # ts) s =
     (if starts_with s t then Some (drop (length t) s) else drop_token ts s)"

function strip :: "string list \<Rightarrow> string \<Rightarrow> string" where
  "strip ts s =
     (case drop_token ts s of
        None \<Rightarrow> s
      | Some s' \<Rightarrow> if length s' < length s then strip ts s' else s)"
  by pat_completeness auto
termination
  by (relation "measure (\<lambda>(ts, s). length s)") auto

declare strip.simps [simp del]

definition trim_start :: "string \<Rightarrow> string" where
  "trim_start s = strip js_whitespace s"

definition trim_end :: "string \<Rightarrow> string" where
  "trim_end s = rev (strip (map rev js_whitespace) (rev s))"

definition trim :: "string \<Rightarrow> string" where
  "trim s = trim_end (trim_start s)"

text \<open>
  \<open>str.strip\<close> of Python, for the parts of the backend: its white space (which is also \<open>\s\<close> of
  its regular expressions) has the separators 1C to 1F and U+0085 in addition, but not U+FEFF.
\<close>

definition py_whitespace :: "string list" where
  "py_whitespace =
     [[CHR 0x1C], [CHR 0x1D], [CHR 0x1E], [CHR 0x1F], [CHR 0xC2, CHR 0x85]]
     @ filter (\<lambda>c. c \<noteq> [CHR 0xEF, CHR 0xBB, CHR 0xBF]) js_whitespace"

definition py_strip :: "string \<Rightarrow> string" where
  "py_strip s = rev (strip (map rev py_whitespace) (rev (strip py_whitespace s)))"

lemma drop_token_None: "drop_token ts s = None \<longleftrightarrow> (\<forall>t \<in> set ts. \<not> starts_with s t)"
  by (induction ts) auto

lemma drop_token_Some: "drop_token ts s = Some s' \<Longrightarrow> \<exists>t \<in> set ts. s = t @ s'"
  by (induction ts) (auto simp: starts_with_iff split: if_splits)

lemma strip_stable: "[] \<notin> set ts \<Longrightarrow> drop_token ts (strip ts s) = None"
proof (induction ts s rule: strip.induct)
  case (1 ts s)
  show ?case
  proof (cases "drop_token ts s")
    case None
    then show ?thesis by (simp add: strip.simps)
  next
    case (Some s')
    then obtain t where t: "t \<in> set ts" "s = t @ s'" using drop_token_Some by blast
    with "1.prems" have "length s' < length s" by (cases t) auto
    with Some 1 show ?thesis by (simp add: strip.simps [of ts s])
  qed
qed

lemma strip_id: "drop_token ts s = None \<Longrightarrow> strip ts s = s"
  by (simp add: strip.simps)

lemma strip_suffix: "\<exists>p. s = p @ strip ts s"
proof (induction ts s rule: strip.induct)
  case (1 ts s)
  show ?case
  proof (cases "drop_token ts s")
    case None
    then show ?thesis by (simp add: strip.simps)
  next
    case (Some s')
    then obtain t where t: "s = t @ s'" using drop_token_Some by blast
    show ?thesis
    proof (cases "length s' < length s")
      case True
      with 1 Some obtain p where "s' = p @ strip ts s'" by blast
      moreover have "strip ts s = strip ts s'" using True Some by (simp add: strip.simps [of ts s])
      ultimately have "s = (t @ p) @ strip ts s" using t by simp
      then show ?thesis ..
    next
      case False
      with Some show ?thesis by (simp add: strip.simps [of ts s])
    qed
  qed
qed

lemma ws_nonempty [simp]: "[] \<notin> set js_whitespace" "[] \<notin> set (map rev js_whitespace)"
  by (simp_all add: js_whitespace_def)

lemma trim_start_idem [simp]: "trim_start (trim_start s) = trim_start s"
  unfolding trim_start_def by (rule strip_id) (rule strip_stable, rule ws_nonempty)

lemma trim_end_prefix: "\<exists>r. s = trim_end s @ r"
proof -
  obtain p where "rev s = p @ strip (map rev js_whitespace) (rev s)" using strip_suffix by blast
  then have "s = trim_end s @ rev p" unfolding trim_end_def by (metis rev_append rev_rev_ident)
  then show ?thesis ..
qed

lemma trim_end_idem [simp]: "trim_end (trim_end s) = trim_end s"
  unfolding trim_end_def by (simp add: strip_id [OF strip_stable [OF ws_nonempty(2)]])

lemma trim_start_prefix_stable:
  assumes "drop_token js_whitespace (p @ r) = None"
  shows "drop_token js_whitespace p = None"
  using assms by (auto simp: drop_token_None starts_with_iff)

lemma trim_start_trim [simp]: "trim_start (trim s) = trim s"
proof -
  have "drop_token js_whitespace (trim_start s) = None"
    unfolding trim_start_def by (rule strip_stable) simp
  moreover obtain r where "trim_start s = trim s @ r"
    using trim_end_prefix [of "trim_start s"] by (auto simp: trim_def)
  ultimately have "drop_token js_whitespace (trim s) = None"
    by (metis trim_start_prefix_stable)
  then show ?thesis by (simp add: trim_start_def strip_id)
qed

lemma trim_idem [simp]: "trim (trim s) = trim s"
  by (simp add: trim_def [of "trim s"]) (simp add: trim_def)

lemma trim_Nil [simp]: "trim [] = []"
  by (simp add: trim_def trim_start_def trim_end_def strip.simps js_whitespace_def)

lemma length_trim: "length (trim s) \<le> length s"
proof -
  obtain p where "s = p @ trim_start s" using strip_suffix by (auto simp: trim_start_def)
  moreover obtain r where "trim_start s = trim s @ r"
    using trim_end_prefix [of "trim_start s"] by (auto simp: trim_def)
  ultimately have "length s = length p + length (trim s) + length r"
    by (metis append.assoc length_append)
  then show ?thesis by simp
qed

text \<open>A string that starts and ends with a printable ASCII character is already trimmed.\<close>

definition plain_char :: "char \<Rightarrow> bool" where
  "plain_char c \<longleftrightarrow> 0x21 \<le> char_code c \<and> char_code c \<le> 0x7E"

lemma ws_not_plain:
  "list_all (\<lambda>t. t \<noteq> [] \<and> \<not> plain_char (hd t)) js_whitespace"
  "list_all (\<lambda>t. t \<noteq> [] \<and> \<not> plain_char (hd t)) (map rev js_whitespace)"
  by code_simp+

lemma drop_token_hd:
  assumes "\<And>t. t \<in> set ts \<Longrightarrow> t \<noteq> [] \<and> hd t \<noteq> c"
  shows "drop_token ts (c # cs) = None"
  unfolding drop_token_None
proof
  fix t
  assume "t \<in> set ts"
  with assms have "t \<noteq> []" and "hd t \<noteq> c" by blast+
  then show "\<not> starts_with (c # cs) t" by (cases t) auto
qed

lemma plain_char_not_ws:
  assumes "plain_char c"
  shows "drop_token js_whitespace (c # cs) = None"
    and "drop_token (map rev js_whitespace) (c # cs) = None"
  using assms ws_not_plain by (auto intro!: drop_token_hd simp: list_all_iff)

lemma trim_start_plain: "plain_char c \<Longrightarrow> trim_start (c # cs) = c # cs"
  by (simp add: trim_start_def strip_id plain_char_not_ws)

lemma trim_plain:
  assumes "s \<noteq> []" and "plain_char (hd s)" and "plain_char (last s)"
  shows "trim s = s"
proof -
  from assms have "trim_start s = s" by (cases s) (auto simp: trim_start_plain)
  moreover have "trim_end s = s"
  proof -
    from assms(1) have "rev s = last s # rev (butlast s)"
      by (metis append_butlast_last_id rev_eq_Cons_iff rev_rev_ident)
    with assms(3) have "strip (map rev js_whitespace) (rev s) = rev s"
      by (metis plain_char_not_ws(2) strip_id)
    then show ?thesis by (simp add: trim_end_def)
  qed
  ultimately show ?thesis by (simp add: trim_def)
qed

lemma trim_plain_Cons:
  "plain_char c \<Longrightarrow> plain_char (last (c # cs)) \<Longrightarrow> trim (c # cs) = c # cs"
  by (rule trim_plain) auto

end
