(* ===== verification/JsCollections.thy ===== *)
theory JsCollections
  imports JsPrelude
begin

text \<open>
  JavaScript arrays, \<open>Map\<close>s and \<open>Set\<close>s as the frontend uses them: the stable
  \<open>Array.prototype.sort\<close> with a comparator, \<open>find\<close> and \<open>findIndex\<close>,
  insertion-ordered sets and maps, and the "replace the row with this id or put it in
  front" update that every live collection of the board page performs.

  Two interfaces are locales: \<open>consistent_comparator\<close> is what \<open>sort\<close> needs of the
  comparator it is given, \<open>keyed_rows\<close> what the row update needs of the functions
  that build the new row. Their interpretations are in the theories of the components.
\<close>

section \<open>Nullish values\<close>

text \<open>\<open>a ?? b\<close> with a value on the right, and with an optional one.\<close>

fun coalesce :: "'a option \<Rightarrow> 'a \<Rightarrow> 'a" where
  "coalesce None b = b"
| "coalesce (Some a) b = a"

fun or_else :: "'a option \<Rightarrow> 'a option \<Rightarrow> 'a option" where
  "or_else None b = b"
| "or_else (Some a) b = Some a"

lemma or_else_None_iff [simp]: "or_else a b = None \<longleftrightarrow> a = None \<and> b = None"
  by (cases a) auto

lemma coalesce_or_else: "coalesce (or_else a b) c = coalesce a (coalesce b c)"
  by (cases a) auto

text \<open>A string as a condition: the empty string is falsy. \<open>s || null\<close> is \<open>truthy_str s\<close>.\<close>

definition truthy_str :: "string \<Rightarrow> string option" where
  "truthy_str s = (if s = [] then None else Some s)"

text \<open>\<open>value?.trim() || null\<close>\<close>

definition trim_or_null :: "string option \<Rightarrow> string option" where
  "trim_or_null v = (case v of None \<Rightarrow> None | Some s \<Rightarrow> truthy_str (trim s))"

lemma truthy_str_Some [simp]: "truthy_str s = Some t \<longleftrightarrow> s = t \<and> s \<noteq> []"
  by (auto simp: truthy_str_def)

lemma truthy_str_None [simp]: "truthy_str s = None \<longleftrightarrow> s = []"
  by (auto simp: truthy_str_def)

lemma trim_or_null_Some: "trim_or_null v = Some t \<longleftrightarrow> (\<exists>s. v = Some s \<and> t = trim s \<and> t \<noteq> [])"
  by (auto simp: trim_or_null_def split: option.splits)

lemma trim_or_null_trimmed: "trim_or_null v = Some t \<Longrightarrow> trim t = t \<and> t \<noteq> []"
  by (auto simp: trim_or_null_Some)

section \<open>Array.prototype.sort\<close>

fun insert_by :: "('a \<Rightarrow> 'a \<Rightarrow> int) \<Rightarrow> 'a \<Rightarrow> 'a list \<Rightarrow> 'a list" where
  "insert_by cmp x [] = [x]"
| "insert_by cmp x (y # ys) = (if cmp x y \<le> 0 then x # y # ys else y # insert_by cmp x ys)"

definition js_sort :: "('a \<Rightarrow> 'a \<Rightarrow> int) \<Rightarrow> 'a list \<Rightarrow> 'a list" where
  "js_sort cmp xs = foldr (insert_by cmp) xs []"

text \<open>The comparator \<open>c1(a, b) || c2(a, b)\<close>.\<close>

definition cmp_then :: "('a \<Rightarrow> 'a \<Rightarrow> int) \<Rightarrow> ('a \<Rightarrow> 'a \<Rightarrow> int) \<Rightarrow> 'a \<Rightarrow> 'a \<Rightarrow> int" where
  "cmp_then c1 c2 a b = (if c1 a b \<noteq> 0 then c1 a b else c2 a b)"

definition cmp_on :: "('b \<Rightarrow> 'b \<Rightarrow> int) \<Rightarrow> ('a \<Rightarrow> 'b) \<Rightarrow> 'a \<Rightarrow> 'a \<Rightarrow> int" where
  "cmp_on cmp f a b = cmp (f a) (f b)"

definition ascending :: "('a \<Rightarrow> int) \<Rightarrow> 'a \<Rightarrow> 'a \<Rightarrow> int" where
  "ascending key a b = key a - key b"

definition descending :: "('a \<Rightarrow> int) \<Rightarrow> 'a \<Rightarrow> 'a \<Rightarrow> int" where
  "descending key a b = key b - key a"

lemma js_sort_simps [simp]:
  "js_sort cmp [] = []"
  "js_sort cmp (x # xs) = insert_by cmp x (js_sort cmp xs)"
  by (simp_all add: js_sort_def)

lemma mset_insert_by: "mset (insert_by cmp x ys) = add_mset x (mset ys)"
  by (induction ys) auto

lemma mset_js_sort [simp]: "mset (js_sort cmp xs) = mset xs"
  by (induction xs) (auto simp: mset_insert_by)

lemma set_js_sort [simp]: "set (js_sort cmp xs) = set xs"
  by (metis mset_js_sort set_mset_mset)

lemma length_js_sort [simp]: "length (js_sort cmp xs) = length xs"
  by (metis mset_js_sort size_mset)

lemma js_sort_Nil_iff [simp]: "js_sort cmp xs = [] \<longleftrightarrow> xs = []"
  by (metis length_0_conv length_js_sort)

lemma distinct_map_js_sort [simp]: "distinct (map f (js_sort cmp xs)) = distinct (map f xs)"
  by (metis mset_js_sort mset_map mset_eq_imp_distinct_iff)

locale consistent_comparator =
  fixes cmp :: "'a \<Rightarrow> 'a \<Rightarrow> int"
  assumes cmp_sym: "sgn (cmp x y) = - sgn (cmp y x)"
    and cmp_trans: "cmp x y \<le> 0 \<Longrightarrow> cmp y z \<le> 0 \<Longrightarrow> cmp x z \<le> 0"
begin

lemma cmp_total: "cmp x y \<le> 0 \<or> cmp y x \<le> 0"
  using cmp_sym [of x y] by (auto simp: sgn_if split: if_splits)

lemma cmp_refl: "cmp x x = 0"
  using cmp_sym [of x x] by (auto simp: sgn_if split: if_splits)

lemma cmp_pos_neg: "0 < cmp x y \<longleftrightarrow> cmp y x < 0"
  using cmp_sym [of x y] by (auto simp: sgn_if split: if_splits)

lemma cmp_zero_sym: "cmp x y = 0 \<longleftrightarrow> cmp y x = 0"
  using cmp_sym [of x y] by (auto simp: sgn_if split: if_splits)

lemma cmp_not_le: "\<not> cmp x y \<le> 0 \<Longrightarrow> cmp y x \<le> 0"
  using cmp_total by blast

lemma sorted_insert_by:
  "sorted_wrt (\<lambda>a b. cmp a b \<le> 0) ys \<Longrightarrow> sorted_wrt (\<lambda>a b. cmp a b \<le> 0) (insert_by cmp x ys)"
proof (induction ys)
  case Nil
  then show ?case by simp
next
  case (Cons y ys)
  have set: "set (insert_by cmp x ys) = insert x (set ys)"
    using mset_insert_by by (metis set_mset_add_mset_insert set_mset_mset)
  from Cons show ?case
    by (auto simp: set intro: cmp_trans dest: cmp_not_le)
qed

lemma sorted_js_sort: "sorted_wrt (\<lambda>a b. cmp a b \<le> 0) (js_sort cmp xs)"
  by (induction xs) (auto intro: sorted_insert_by)

lemma js_sort_hd_least: "js_sort cmp xs = y # ys \<Longrightarrow> x \<in> set xs \<Longrightarrow> cmp y x \<le> 0"
proof -
  assume eq: "js_sort cmp xs = y # ys" and "x \<in> set xs"
  then have "x \<in> set (y # ys)" by (metis set_js_sort)
  moreover from sorted_js_sort [of xs] eq have "\<forall>z \<in> set ys. cmp y z \<le> 0" by simp
  ultimately show "cmp y x \<le> 0" by (auto simp: cmp_refl)
qed

lemma insert_by_least: "\<forall>y \<in> set ys. cmp x y \<le> 0 \<Longrightarrow> insert_by cmp x ys = x # ys"
  by (cases ys) auto

lemma js_sort_sorted: "sorted_wrt (\<lambda>a b. cmp a b \<le> 0) xs \<Longrightarrow> js_sort cmp xs = xs"
  by (induction xs) (auto intro: insert_by_least)

lemma filter_insert_by:
  "filter (\<lambda>z. cmp k z = 0) (insert_by cmp x ys) =
     (if cmp k x = 0 then x # filter (\<lambda>z. cmp k z = 0) ys else filter (\<lambda>z. cmp k z = 0) ys)"
proof (induction ys)
  case Nil
  then show ?case by simp
next
  case (Cons y ys)
  have "cmp k y \<noteq> 0" if "cmp k x = 0" "\<not> cmp x y \<le> 0"
  proof
    assume "cmp k y = 0"
    moreover from that(1) have "cmp x k \<le> 0" by (simp add: cmp_zero_sym [of k x])
    ultimately show False using cmp_trans [of x k y] that(2) by simp
  qed
  with Cons show ?case by auto
qed

text \<open>Rows the comparator does not order keep their relative order.\<close>

lemma js_sort_stable: "filter (\<lambda>z. cmp k z = 0) (js_sort cmp xs) = filter (\<lambda>z. cmp k z = 0) xs"
  by (induction xs) (auto simp: filter_insert_by)

end

locale two_comparators =
  c1: consistent_comparator c1 + c2: consistent_comparator c2
  for c1 c2 :: "'a \<Rightarrow> 'a \<Rightarrow> int"
begin

lemma cmp_then_sym: "sgn (cmp_then c1 c2 x y) = - sgn (cmp_then c1 c2 y x)"
  using c1.cmp_sym [of x y] c2.cmp_sym [of x y] c1.cmp_zero_sym [of x y]
  by (simp add: cmp_then_def)

lemma cmp_then_le: "cmp_then c1 c2 x y \<le> 0 \<longleftrightarrow> c1 x y < 0 \<or> c1 x y = 0 \<and> c2 x y \<le> 0"
  by (auto simp: cmp_then_def)

lemma cmp_then_trans:
  assumes "cmp_then c1 c2 x y \<le> 0" and "cmp_then c1 c2 y z \<le> 0"
  shows "cmp_then c1 c2 x z \<le> 0"
proof -
  from assms have le: "c1 x y \<le> 0" "c1 y z \<le> 0" by (auto simp: cmp_then_le)
  then have xz: "c1 x z \<le> 0" by (rule c1.cmp_trans)
  show ?thesis
  proof (cases "c1 x z = 0")
    case True
    then have "c1 z x \<le> 0" by (simp add: c1.cmp_zero_sym [of x z])
    with le have "c1 y x \<le> 0" "c1 z y \<le> 0" by (blast intro: c1.cmp_trans)+
    with le have "c1 x y = 0" "c1 y z = 0"
      using c1.cmp_pos_neg [of y x] c1.cmp_pos_neg [of z y] by linarith+
    with assms True show ?thesis by (auto simp: cmp_then_le intro: c2.cmp_trans)
  next
    case False
    with xz show ?thesis by (simp add: cmp_then_le)
  qed
qed

end

sublocale two_comparators \<subseteq> consistent_comparator "cmp_then c1 c2"
  by unfold_locales (rule cmp_then_sym, rule cmp_then_trans)

lemma consistent_cmp_on: "consistent_comparator cmp \<Longrightarrow> consistent_comparator (cmp_on cmp f)"
  unfolding consistent_comparator_def cmp_on_def by blast

lemma consistent_cmp_then:
  "consistent_comparator c1 \<Longrightarrow> consistent_comparator c2 \<Longrightarrow> consistent_comparator (cmp_then c1 c2)"
proof -
  assume "consistent_comparator c1" and "consistent_comparator c2"
  then have two: "two_comparators c1 c2" by (simp add: two_comparators_def)
  show ?thesis
    by unfold_locales
      (rule two_comparators.cmp_then_sym [OF two], rule two_comparators.cmp_then_trans [OF two])
qed

interpretation by_key_asc: consistent_comparator "ascending key" for key :: "'a \<Rightarrow> int"
  by unfold_locales (auto simp: ascending_def sgn_if)

interpretation by_key_desc: consistent_comparator "descending key" for key :: "'a \<Rightarrow> int"
  by unfold_locales (auto simp: descending_def sgn_if)

interpretation two_keys: two_comparators "descending key1" "descending key2"
  for key1 key2 :: "'a \<Rightarrow> int"
  by unfold_locales

section \<open>Insertion-ordered sets and maps\<close>

definition set_add :: "'a \<Rightarrow> 'a list \<Rightarrow> 'a list" where
  "set_add x xs = (if x \<in> set xs then xs else xs @ [x])"

text \<open>\<open>new Set(xs)\<close>, by adding each element in turn.\<close>

definition set_add_all :: "'a list \<Rightarrow> 'a list \<Rightarrow> 'a list" where
  "set_add_all ys xs = foldl (\<lambda>acc y. set_add y acc) xs ys"

lemma set_set_add [simp]: "set (set_add x xs) = insert x (set xs)"
  by (auto simp: set_add_def)

lemma distinct_set_add [simp]: "distinct (set_add x xs) = distinct xs"
  by (auto simp: set_add_def)

lemma set_add_all_simps [simp]:
  "set_add_all [] xs = xs"
  "set_add_all (y # ys) xs = set_add_all ys (set_add y xs)"
  by (simp_all add: set_add_all_def)

lemma set_set_add_all [simp]: "set (set_add_all ys xs) = set xs \<union> set ys"
  by (induction ys arbitrary: xs) auto

lemma distinct_set_add_all [simp]: "distinct (set_add_all ys xs) = distinct xs"
  by (induction ys arbitrary: xs) auto

text \<open>\<open>map.set(k, v)\<close> keeps the position of a key that is present: \<open>AList.update\<close>.\<close>

definition map_set :: "'k \<Rightarrow> 'v \<Rightarrow> ('k \<times> 'v) list \<Rightarrow> ('k \<times> 'v) list" where
  "map_set = AList.update"

lemma map_of_map_set [simp]: "map_of (map_set k v m) = (map_of m)(k \<mapsto> v)"
  by (simp add: map_set_def update_conv')

lemma keys_map_set: "set (map fst (map_set k v m)) = insert k (set (map fst m))"
  by (induction m) (auto simp: map_set_def)

lemma distinct_map_set: "distinct (map fst m) \<Longrightarrow> distinct (map fst (map_set k v m))"
  by (simp add: map_set_def distinct_update)

section \<open>find and findIndex\<close>

definition js_first :: "'a list \<Rightarrow> 'a option" where
  "js_first xs = (case xs of [] \<Rightarrow> None | x # _ \<Rightarrow> Some x)"

lemma js_first_simps [simp]: "js_first [] = None" "js_first (x # xs) = Some x"
  by (simp_all add: js_first_def)

lemma js_first_None [simp]: "js_first xs = None \<longleftrightarrow> xs = []"
  by (cases xs) auto

lemma js_first_Some_iff: "js_first xs = Some x \<longleftrightarrow> (\<exists>ys. xs = x # ys)"
  by (cases xs) auto

fun find_index :: "('a \<Rightarrow> bool) \<Rightarrow> 'a list \<Rightarrow> nat option" where
  "find_index p [] = None"
| "find_index p (x # xs) = (if p x then Some 0 else map_option Suc (find_index p xs))"

lemma find_index_None: "find_index p xs = None \<longleftrightarrow> (\<forall>x \<in> set xs. \<not> p x)"
  by (induction xs) auto

lemma find_index_Some:
  "find_index p xs = Some i \<Longrightarrow> i < length xs \<and> p (xs ! i) \<and> (\<forall>j < i. \<not> p (xs ! j))"
proof (induction xs arbitrary: i)
  case Nil
  then show ?case by simp
next
  case (Cons x xs)
  show ?case
  proof (cases "p x")
    case True
    with Cons.prems show ?thesis by simp
  next
    case False
    with Cons.prems obtain k where k: "find_index p xs = Some k" "i = Suc k" by auto
    from Cons.IH [OF k(1)] False k(2) show ?thesis by (auto simp: less_Suc_eq_0_disj)
  qed
qed

section \<open>Replace the row with this key, or put a new one in front\<close>

text \<open>
  \<open>setRows(prev => { const index = prev.findIndex(r => r.id === x.id); if (index === -1)
  return [create(x), ...prev]; const next = [...prev]; next[index] = merge(next[index], x);
  return next; })\<close>
\<close>

definition upsert ::
  "('b \<Rightarrow> 'k) \<Rightarrow> ('a \<Rightarrow> 'k) \<Rightarrow> ('b \<Rightarrow> 'a) \<Rightarrow> ('a \<Rightarrow> 'b \<Rightarrow> 'a) \<Rightarrow> 'b \<Rightarrow> 'a list \<Rightarrow> 'a list" where
  "upsert in_key key create merge x rows =
     (case find_index (\<lambda>r. key r = in_key x) rows of
        None \<Rightarrow> create x # rows
      | Some i \<Rightarrow> rows[i := merge (rows ! i) x])"

locale keyed_rows =
  fixes in_key :: "'b \<Rightarrow> 'k" and key :: "'a \<Rightarrow> 'k"
    and create :: "'b \<Rightarrow> 'a" and merge :: "'a \<Rightarrow> 'b \<Rightarrow> 'a"
  assumes key_create: "key (create x) = in_key x"
    and key_merge: "key r = in_key x \<Longrightarrow> key (merge r x) = in_key x"
begin

abbreviation ups :: "'b \<Rightarrow> 'a list \<Rightarrow> 'a list" where
  "ups \<equiv> upsert in_key key create merge"

lemma keys_upsert:
  "map key (ups x rows) = (if in_key x \<in> key ` set rows then map key rows else in_key x # map key rows)"
proof (cases "find_index (\<lambda>r. key r = in_key x) rows")
  case None
  then have "in_key x \<notin> key ` set rows" by (auto simp: find_index_None)
  with None show ?thesis by (simp add: upsert_def key_create)
next
  case (Some i)
  from find_index_Some [OF Some] have i: "i < length rows" "key (rows ! i) = in_key x" by auto
  then have "in_key x \<in> key ` set rows" by (metis image_eqI nth_mem)
  moreover have "map key (rows[i := merge (rows ! i) x]) = map key rows"
    using i by (metis key_merge list_update_id map_update nth_map)
  ultimately show ?thesis using Some by (simp add: upsert_def)
qed

lemma distinct_upsert: "distinct (map key rows) \<Longrightarrow> distinct (map key (ups x rows))"
  by (auto simp: keys_upsert)

lemma length_upsert:
  "length (ups x rows) = (if in_key x \<in> key ` set rows then length rows else Suc (length rows))"
  using keys_upsert [of x rows] by (metis length_Cons length_map)

lemma upsert_new: "in_key x \<notin> key ` set rows \<Longrightarrow> ups x rows = create x # rows"
proof -
  assume "in_key x \<notin> key ` set rows"
  then have "find_index (\<lambda>r. key r = in_key x) rows = None"
    by (simp add: find_index_None image_iff) metis
  then show ?thesis by (simp add: upsert_def)
qed

lemma upsert_old:
  assumes "distinct (map key rows)" and "in_key x \<in> key ` set rows"
  shows "ups x rows = map (\<lambda>r. if key r = in_key x then merge r x else r) rows"
proof -
  from assms(2) have "\<exists>r \<in> set rows. key r = in_key x" by (auto simp: image_iff)
  then have "find_index (\<lambda>r. key r = in_key x) rows \<noteq> None" by (auto simp: find_index_None)
  then obtain i where i: "find_index (\<lambda>r. key r = in_key x) rows = Some i" by auto
  from find_index_Some [OF i] have lt: "i < length rows" and k: "key (rows ! i) = in_key x" by auto
  have "rows[i := merge (rows ! i) x] = map (\<lambda>r. if key r = in_key x then merge r x else r) rows"
  proof (rule nth_equalityI)
    show "length (rows[i := merge (rows ! i) x])
        = length (map (\<lambda>r. if key r = in_key x then merge r x else r) rows)" by simp
    fix j
    assume "j < length (rows[i := merge (rows ! i) x])"
    then have j: "j < length rows" by simp
    have "key (rows ! j) = in_key x \<longleftrightarrow> j = i"
      using assms(1) j lt k by (metis length_map nth_eq_iff_index_eq nth_map)
    with j lt show "rows[i := merge (rows ! i) x] ! j
        = map (\<lambda>r. if key r = in_key x then merge r x else r) rows ! j"
      by auto
  qed
  with i show ?thesis by (simp add: upsert_def)
qed

text \<open>Rows with another key keep their values and their order.\<close>

lemma upsert_others:
  assumes "distinct (map key rows)" and "k \<noteq> in_key x"
  shows "filter (\<lambda>r. key r = k) (ups x rows) = filter (\<lambda>r. key r = k) rows"
proof (cases "in_key x \<in> key ` set rows")
  case True
  have "filter (\<lambda>r. key r = k) (map (\<lambda>r. if key r = in_key x then merge r x else r) rows)
      = filter (\<lambda>r. key r = k) rows"
    using assms(2) by (induction rows) (auto simp: key_merge)
  with True assms(1) show ?thesis by (simp add: upsert_old)
next
  case False
  with assms(2) show ?thesis by (simp add: upsert_new key_create)
qed

end

section \<open>Numbers as text\<close>

definition digit_char :: "nat \<Rightarrow> char" where
  "digit_char d = char_of (48 + d)"

fun show_nat :: "nat \<Rightarrow> string" where
  "show_nat n = (if n < 10 then [digit_char n] else show_nat (n div 10) @ [digit_char (n mod 10)])"

declare show_nat.simps [simp del]

definition show_int :: "int \<Rightarrow> string" where
  "show_int i = (if i < 0 then ''-'' @ show_nat (nat (- i)) else show_nat (nat i))"

definition digit_value :: "char \<Rightarrow> nat" where
  "digit_value c = char_code c - 48"

definition read_nat :: "string \<Rightarrow> nat" where
  "read_nat s = foldl (\<lambda>a c. 10 * a + digit_value c) 0 s"

lemma digit_char_value: "d < 10 \<Longrightarrow> digit_value (digit_char d) = d"
  by (simp add: digit_value_def digit_char_def char_code_def)

lemma digit_char_is_digit: "d < 10 \<Longrightarrow> is_digit (digit_char d)"
  by (simp add: is_digit_def digit_char_def char_code_def)

lemma read_show_nat [simp]: "read_nat (show_nat n) = n"
proof (induction n rule: show_nat.induct)
  case (1 n)
  show ?case
  proof (cases "n < 10")
    case True
    then show ?thesis by (simp add: show_nat.simps [of n] read_nat_def digit_char_value)
  next
    case False
    with 1 have "read_nat (show_nat (n div 10)) = n div 10" by simp
    with False show ?thesis
      by (simp add: show_nat.simps [of n] read_nat_def digit_char_value)
  qed
qed

lemma show_nat_digits: "c \<in> set (show_nat n) \<Longrightarrow> is_digit c"
proof (induction n rule: show_nat.induct)
  case (1 n)
  then show ?case
    by (cases "n < 10") (auto simp: show_nat.simps [of n] digit_char_is_digit)
qed

lemma show_nat_nonempty [simp]: "show_nat n \<noteq> []"
  by (subst show_nat.simps) simp

lemma show_nat_inj [simp]: "show_nat m = show_nat n \<longleftrightarrow> m = n"
  by (metis read_show_nat)

end
