(* ===== verification/Silos.thy ===== *)
theory Silos
  imports JsCollections
begin

text \<open>
  The silo data model (\<open>src/lib/silos.ts\<close>) and the counters and change detection of
  the silo detail page (\<open>src/lib/silo-detail.ts\<close>). Records carry the fields of the
  TypeScript types, prefixed by the record; the nested object types of \<open>SiloDetail\<close>
  are records of their own. Counts are JSON integers, modelled as \<open>int\<close>.
\<close>

section \<open>Types of silos.ts\<close>

datatype silo_status = Draft | Provisioning | Active | Paused | Archived

record SiloSummary =
  ss_slug :: string
  ss_name :: string
  ss_blueprint_slug :: string
  ss_blueprint_version :: string
  ss_status :: silo_status
  ss_enable_symphony :: bool
  ss_enable_telemetry :: bool
  ss_role_count :: int
  ss_active_run_count :: int
  ss_blocked_run_count :: int
  ss_failed_run_count :: int
  ss_last_activity_at :: "string option"

record SiloSecretBinding =
  sb_name :: string
  sb_vault_path :: string
  sb_vault_key :: string
  sb_env_var :: string
  sb_required :: bool

datatype runtime_kind = Gateway | Symphony

record SiloRole =
  sr_slug :: string
  sr_display_name :: string
  sr_role_type :: string
  sr_runtime_kind :: runtime_kind
  sr_host_kind :: string
  sr_default_model :: "string option"
  sr_fallback_model :: "string option"
  sr_channel_name :: "string option"
  sr_gateway_id :: "string option"
  sr_gateway_name :: "string option"
  sr_workspace_root :: "string option"
  sr_secret_bindings :: "SiloSecretBinding list"

record validation_result =
  vr_valid :: bool
  vr_restart_required :: bool

record RuntimeOperationResult =
  ro_role_slug :: string
  ro_runtime_kind :: runtime_kind
  ro_gateway_name :: "string option"
  ro_supports_picoclaw_bundle_apply :: bool
  ro_validated :: "validation_result option"
  ro_applied :: "validation_result option"
  ro_warnings :: "string list"

datatype run_status = Queued | Dispatching | Running | Succeeded | Failed | Cancelled | RunBlocked

record SiloWorkloadRun =
  wr_id :: string
  wr_board_id :: string
  wr_task_id :: string
  wr_task_title :: string
  wr_task_status :: "string option"
  wr_task_priority :: "string option"
  wr_role_slug :: string
  wr_status :: run_status
  wr_summary :: "string option"
  wr_completion_kind :: "string option"
  wr_failure_reason :: "string option"
  wr_block_reason :: "string option"
  wr_cancel_reason :: "string option"
  wr_stall_reason :: "string option"
  wr_created_at :: string
  wr_updated_at :: string
  wr_started_at :: "string option"
  wr_completed_at :: "string option"

datatype tone = Success | Warning | Danger | Neutral

record operational_summary =
  os_health_label :: string
  os_health_tone :: tone
  os_health_guidance :: string
  os_runtime_posture :: string
  os_workload_guidance :: string

record desired_state =
  ds_slug :: string
  ds_name :: string
  ds_blueprint_slug :: string
  ds_blueprint_version :: string
  ds_enable_symphony :: bool
  ds_enable_telemetry :: bool
  ds_roles :: "SiloRole list"
  ds_shared_secret_bindings :: "SiloSecretBinding list"
  ds_warnings :: "string list"

record provision_target =
  pt_role_slug :: string
  pt_runtime_kind :: runtime_kind
  pt_gateway_name :: "string option"
  pt_workspace_root :: "string option"
  pt_supports_picoclaw_bundle_apply :: bool
  pt_warnings :: "string list"

record provision_plan =
  pp_preview_slug :: string
  pp_targets :: "provision_target list"
  pp_warnings :: "string list"

datatype runtime_mode = Validate | Apply

record runtime_operation =
  rop_mode :: runtime_mode
  rop_created_at :: string
  rop_results :: "RuntimeOperationResult list"
  rop_warnings :: "string list"

record workload_summary =
  ws_active_run_count :: int
  ws_queued_run_count :: int
  ws_running_run_count :: int
  ws_blocked_run_count :: int
  ws_failed_run_count :: int
  ws_recent_runs :: "SiloWorkloadRun list"
  ws_last_activity_at :: "string option"

record SiloDetail =
  sd_silo :: SiloSummary
  sd_operational_summary :: "operational_summary option"
  sd_desired_state :: desired_state
  sd_roles :: "SiloRole list"
  sd_provision_plan :: "provision_plan option"
  sd_latest_runtime_operation :: "runtime_operation option"
  sd_workload_summary :: "workload_summary option"

section \<open>silo-detail.ts\<close>

definition UNASSIGNED_GATEWAY :: string where
  "UNASSIGNED_GATEWAY = ''__unassigned__''"

definition normalizeWarning :: "string \<Rightarrow> string" where
  "normalizeWarning value = trim value"

text \<open>\<open>Boolean(role.gateway_id)\<close>: neither null nor the empty string.\<close>

definition has_gateway :: "SiloRole \<Rightarrow> bool" where
  "has_gateway role = (case sr_gateway_id role of None \<Rightarrow> False | Some g \<Rightarrow> g \<noteq> [])"

definition getAssignedGatewayRoleCount :: "SiloDetail \<Rightarrow> nat" where
  "getAssignedGatewayRoleCount detail =
     length (filter (\<lambda>role. sr_runtime_kind role = Gateway \<and> has_gateway role) (sd_roles detail))"

definition plan_targets :: "SiloDetail \<Rightarrow> provision_target list" where
  "plan_targets detail = (case sd_provision_plan detail of None \<Rightarrow> [] | Some p \<Rightarrow> pp_targets p)"

definition getReadyProvisionTargetCount :: "SiloDetail \<Rightarrow> nat" where
  "getReadyProvisionTargetCount detail =
     (case sd_provision_plan detail of
        None \<Rightarrow> 0
      | Some plan \<Rightarrow> length (filter pt_supports_picoclaw_bundle_apply (pp_targets plan)))"

definition getBlockedProvisionTargetCount :: "SiloDetail \<Rightarrow> nat" where
  "getBlockedProvisionTargetCount detail =
     (case sd_provision_plan detail of
        None \<Rightarrow> 0
      | Some plan \<Rightarrow> length (filter (\<lambda>t. \<not> pt_supports_picoclaw_bundle_apply t) (pp_targets plan)))"

definition getLatestRuntimeAttemptedCount :: "SiloDetail \<Rightarrow> nat" where
  "getLatestRuntimeAttemptedCount detail =
     (case sd_latest_runtime_operation detail of
        None \<Rightarrow> 0
      | Some op \<Rightarrow> length (filter ro_supports_picoclaw_bundle_apply (rop_results op)))"

definition getLatestRuntimeBlockedCount :: "SiloDetail \<Rightarrow> nat" where
  "getLatestRuntimeBlockedCount detail =
     (case sd_latest_runtime_operation detail of
        None \<Rightarrow> 0
      | Some op \<Rightarrow> length (filter (\<lambda>r. \<not> ro_supports_picoclaw_bundle_apply r) (rop_results op)))"

text \<open>
  One \<open>forEach\<close> of \<open>collectSiloWarnings\<close>: blank warnings are skipped, the others are
  added to the set after trimming.
\<close>

definition add_warnings :: "string list \<Rightarrow> string list \<Rightarrow> string list" where
  "add_warnings ws acc =
     foldl (\<lambda>a w. let normalized = normalizeWarning w
                  in if normalized \<noteq> [] then set_add normalized a else a) acc ws"

definition collectSiloWarnings :: "SiloDetail \<Rightarrow> string list" where
  "collectSiloWarnings detail =
     (let w0 = add_warnings (ds_warnings (sd_desired_state detail)) [];
          w1 = (case sd_provision_plan detail of None \<Rightarrow> w0 | Some p \<Rightarrow> add_warnings (pp_warnings p) w0);
          w2 = (case sd_provision_plan detail of
                  None \<Rightarrow> w1
                | Some p \<Rightarrow> foldl (\<lambda>a t. add_warnings (pt_warnings t) a) w1 (pp_targets p));
          w3 = (case sd_latest_runtime_operation detail of
                  None \<Rightarrow> w2 | Some r \<Rightarrow> add_warnings (rop_warnings r) w2);
          w4 = (case sd_latest_runtime_operation detail of
                  None \<Rightarrow> w3
                | Some r \<Rightarrow> foldl (\<lambda>a t. add_warnings (ro_warnings t) a) w3 (rop_results r))
      in w4)"

definition hasActionableProvisionTargets :: "SiloDetail \<Rightarrow> bool" where
  "hasActionableProvisionTargets detail \<longleftrightarrow> getReadyProvisionTargetCount detail > 0"

definition normalized_draft :: "string \<Rightarrow> string option" where
  "normalized_draft draftValue =
     (if draftValue = UNASSIGNED_GATEWAY then None else truthy_str draftValue)"

definition hasSiloConfigChanges ::
  "SiloDetail \<Rightarrow> (string \<rightharpoonup> string) \<Rightarrow> bool option \<Rightarrow> bool option \<Rightarrow> bool" where
  "hasSiloConfigChanges detail assignmentDrafts enableSymphonyDraft enableTelemetryDraft =
     (let addOnChanged =
            (enableSymphonyDraft \<noteq> None
               \<and> enableSymphonyDraft \<noteq> Some (ss_enable_symphony (sd_silo detail))
             \<or> enableTelemetryDraft \<noteq> None
               \<and> enableTelemetryDraft \<noteq> Some (ss_enable_telemetry (sd_silo detail)))
      in if addOnChanged then True
         else list_ex (\<lambda>role.
                if sr_runtime_kind role \<noteq> Gateway then False
                else case assignmentDrafts (sr_slug role) of
                       None \<Rightarrow> False
                     | Some draftValue \<Rightarrow> normalized_draft draftValue \<noteq> sr_gateway_id role)
              (sd_roles detail))"

definition getGatewayRuntimeRoleCount :: "SiloDetail \<Rightarrow> nat" where
  "getGatewayRuntimeRoleCount detail =
     length (filter (\<lambda>role. sr_runtime_kind role = Gateway) (sd_roles detail))"

section \<open>Lemmas\<close>

text \<open>Every warning source of a silo, in the order the code visits them.\<close>

definition all_warnings :: "SiloDetail \<Rightarrow> string list" where
  "all_warnings detail =
     ds_warnings (sd_desired_state detail)
     @ (case sd_provision_plan detail of
          None \<Rightarrow> [] | Some p \<Rightarrow> pp_warnings p @ concat (map pt_warnings (pp_targets p)))
     @ (case sd_latest_runtime_operation detail of
          None \<Rightarrow> [] | Some r \<Rightarrow> rop_warnings r @ concat (map ro_warnings (rop_results r)))"

lemma add_warnings_append: "add_warnings (xs @ ys) acc = add_warnings ys (add_warnings xs acc)"
  by (simp add: add_warnings_def)

lemma add_warnings_Nil [simp]: "add_warnings [] acc = acc"
  by (simp add: add_warnings_def)

lemma foldl_add_warnings:
  "foldl (\<lambda>a t. add_warnings (f t) a) acc ts = add_warnings (concat (map f ts)) acc"
  by (induction ts arbitrary: acc) (auto simp: add_warnings_append)

lemma set_add_warnings: "set (add_warnings ws acc) = set acc \<union> (normalizeWarning ` set ws - {[]})"
  by (induction ws arbitrary: acc) (auto simp: add_warnings_def Let_def)

lemma distinct_add_warnings: "distinct acc \<Longrightarrow> distinct (add_warnings ws acc)"
  by (induction ws arbitrary: acc) (auto simp: add_warnings_def Let_def)

text \<open>The five loops are one pass over all warnings.\<close>

lemma collectSiloWarnings_eq: "collectSiloWarnings detail = add_warnings (all_warnings detail) []"
  by (simp add: collectSiloWarnings_def all_warnings_def Let_def foldl_add_warnings
      add_warnings_append split: option.split)

lemma assigned_le_gateway_roles:
  "getAssignedGatewayRoleCount detail \<le> getGatewayRuntimeRoleCount detail"
proof -
  have "filter (\<lambda>r. sr_runtime_kind r = Gateway \<and> has_gateway r) (sd_roles detail)
      = filter has_gateway (filter (\<lambda>r. sr_runtime_kind r = Gateway) (sd_roles detail))"
    by (simp add: conj_commute)
  then show ?thesis
    unfolding getAssignedGatewayRoleCount_def getGatewayRuntimeRoleCount_def
    by (metis length_filter_le)
qed

lemma normalized_draft_Some: "normalized_draft d = Some g \<longleftrightarrow> d = g \<and> g \<noteq> [] \<and> g \<noteq> UNASSIGNED_GATEWAY"
  by (auto simp: normalized_draft_def)


section \<open>Properties\<close>

text \<open>the warnings of a silo are collected without repetition: exactly the trimmed,
  non-blank warnings of the desired state, the plan, its targets, the latest runtime
  operation and its results.\<close>

theorem collected_warnings:
  "distinct (collectSiloWarnings detail)
   \<and> set (collectSiloWarnings detail) = trim ` set (all_warnings detail) - {[]}"
  by (simp add: collectSiloWarnings_eq distinct_add_warnings set_add_warnings normalizeWarning_def)

text \<open>
  What the configuration form of a silo would store: the two add-on flags and, per role,
  the gateway after the drafts are applied.
\<close>

definition current_config :: "SiloDetail \<Rightarrow> bool \<times> bool \<times> string option list" where
  "current_config detail =
     (ss_enable_symphony (sd_silo detail), ss_enable_telemetry (sd_silo detail),
      map sr_gateway_id (sd_roles detail))"

definition drafted_config ::
  "SiloDetail \<Rightarrow> (string \<rightharpoonup> string) \<Rightarrow> bool option \<Rightarrow> bool option \<Rightarrow> bool \<times> bool \<times> string option list" where
  "drafted_config detail drafts symphony telemetry =
     (coalesce symphony (ss_enable_symphony (sd_silo detail)),
      coalesce telemetry (ss_enable_telemetry (sd_silo detail)),
      map (\<lambda>role. if sr_runtime_kind role = Gateway
                  then (case drafts (sr_slug role) of None \<Rightarrow> sr_gateway_id role
                        | Some d \<Rightarrow> normalized_draft d)
                  else sr_gateway_id role) (sd_roles detail))"

lemma list_ex_map_neq:
  "list_ex (\<lambda>x. f x \<noteq> g x) xs \<longleftrightarrow> map f xs \<noteq> map g xs"
  by (induction xs) auto

text \<open>the save button is offered exactly when applying the drafts would change the silo's
  configuration: the form has no change to report when, and only when, the drafted
  configuration equals the current one.\<close>

theorem config_change_iff:
  "hasSiloConfigChanges detail drafts symphony telemetry
     \<longleftrightarrow> drafted_config detail drafts symphony telemetry \<noteq> current_config detail"
proof -
  let ?f = "\<lambda>role. if sr_runtime_kind role = Gateway
                  then (case drafts (sr_slug role) of None \<Rightarrow> sr_gateway_id role
                        | Some d \<Rightarrow> normalized_draft d)
                  else sr_gateway_id role"
  have eq: "(\<lambda>role. if sr_runtime_kind role \<noteq> Gateway then False
                else case drafts (sr_slug role) of
                       None \<Rightarrow> False
                     | Some draftValue \<Rightarrow> normalized_draft draftValue \<noteq> sr_gateway_id role)
      = (\<lambda>role. ?f role \<noteq> sr_gateway_id role)"
    by (intro ext) (auto split: option.split)
  have ex: "list_ex (\<lambda>role. if sr_runtime_kind role \<noteq> Gateway then False
                else case drafts (sr_slug role) of
                       None \<Rightarrow> False
                     | Some draftValue \<Rightarrow> normalized_draft draftValue \<noteq> sr_gateway_id role) (sd_roles detail)
      \<longleftrightarrow> map ?f (sd_roles detail) \<noteq> map sr_gateway_id (sd_roles detail)"
    unfolding eq by (rule list_ex_map_neq)
  show ?thesis
    unfolding hasSiloConfigChanges_def Let_def ex drafted_config_def current_config_def
    by (cases symphony; cases telemetry) simp_all
qed

end
