(* ===== verification/SiloOps.thy ===== *)
theory SiloOps
  imports Silos
begin

text \<open>
  The operator policy of \<open>src/lib/silo-ops\<close>: the health taxonomy (\<open>health.ts\<close>),
  the demand profile of a task (\<open>demand.ts\<close>), the dispatch candidate and its score
  (\<open>dispatch.ts\<close>) and the badge classes (\<open>presentation.ts\<close>).
\<close>

section \<open>health.ts\<close>

datatype SiloHealthKey = Healthy | Busy | Degraded | Blocked | NeedsSetup

record SiloHealthModel =
  hm_key :: SiloHealthKey
  hm_label :: string
  hm_tone :: tone
  hm_guidance :: string

record SiloHealthSummary =
  totalCount :: int
  healthyCount :: int
  busyCount :: int
  blockedCount :: int
  degradedCount :: int
  needsSetupCount :: int

definition buildSiloHealthModel :: "SiloSummary \<Rightarrow> SiloHealthModel" where
  "buildSiloHealthModel silo =
     (if ss_status silo \<noteq> Active then
        \<lparr>hm_key = NeedsSetup, hm_label = ''Needs setup'', hm_tone = Warning, hm_guidance =
          ''This silo is not yet in a steady operating state. Finish setup before trusting it with more work.''\<rparr>
      else if ss_blocked_run_count silo > 0 then
        \<lparr>hm_key = Blocked, hm_label = ''Blocked'', hm_tone = Danger, hm_guidance =
          ''Blocked runtime work is present. Clear the blockage before dispatching more load here.''\<rparr>
      else if ss_failed_run_count silo > 0 then
        \<lparr>hm_key = Degraded, hm_label = ''Degraded'', hm_tone = Warning, hm_guidance =
          ''Recent runtime failures suggest this silo needs investigation before taking sensitive work.''\<rparr>
      else if ss_active_run_count silo > 0 then
        \<lparr>hm_key = Busy, hm_label = ''Busy'', hm_tone = Neutral, hm_guidance =
          ''This silo is healthy, but it is already carrying active runtime work.''\<rparr>
      else
        \<lparr>hm_key = Healthy, hm_label = ''Healthy'', hm_tone = Success, hm_guidance =
          ''Healthy, idle, and ready to accept more runtime work.''\<rparr>)"

definition empty_summary :: SiloHealthSummary where
  "empty_summary = \<lparr>totalCount = 0, healthyCount = 0, busyCount = 0, blockedCount = 0,
     degradedCount = 0, needsSetupCount = 0\<rparr>"

definition count_silo :: "SiloHealthSummary \<Rightarrow> SiloSummary \<Rightarrow> SiloHealthSummary" where
  "count_silo acc0 silo =
     (let acc = acc0\<lparr>totalCount := totalCount acc0 + 1\<rparr>;
          k = hm_key (buildSiloHealthModel silo)
      in if k = Healthy then acc\<lparr>healthyCount := healthyCount acc + 1\<rparr>
         else if k = Busy then acc\<lparr>busyCount := busyCount acc + 1\<rparr>
         else if k = Blocked then acc\<lparr>blockedCount := blockedCount acc + 1\<rparr>
         else if k = Degraded then acc\<lparr>degradedCount := degradedCount acc + 1\<rparr>
         else acc\<lparr>needsSetupCount := needsSetupCount acc + 1\<rparr>)"

definition summarizeSiloHealth :: "SiloSummary list \<Rightarrow> SiloHealthSummary" where
  "summarizeSiloHealth silos = foldl count_silo empty_summary silos"

section \<open>demand.ts\<close>

record DispatchReason =
  dr_label :: string
  dr_tone :: tone

abbreviation reason :: "string \<Rightarrow> tone \<Rightarrow> DispatchReason" where
  "reason l t \<equiv> \<lparr>dr_label = l, dr_tone = t\<rparr>"

record task_demand =
  td_status :: string
  td_priority :: string
  td_is_blocked :: "bool option"
  td_approvals_pending_count :: "int option"

type_synonym TaskDemandInput = "task_demand option"

record TaskDemandProfile =
  dp_label :: string
  dp_tone :: tone
  dp_guidance :: string
  dp_reasons :: "DispatchReason list"

fun dispatchReasonClass :: "tone \<Rightarrow> string" where
  "dispatchReasonClass Success = ''bg-emerald-50 text-emerald-700''"
| "dispatchReasonClass Warning = ''bg-amber-50 text-amber-700''"
| "dispatchReasonClass Danger = ''bg-rose-50 text-rose-700''"
| "dispatchReasonClass Neutral = ''bg-slate-100 text-slate-700''"

definition buildTaskDemandProfile :: "TaskDemandInput \<Rightarrow> TaskDemandProfile option" where
  "buildTaskDemandProfile input =
     (case input of
        None \<Rightarrow> None
      | Some task \<Rightarrow> Some (
          if coalesce (td_approvals_pending_count task) 0 > 0 then
            \<lparr>dp_label = ''Approval pressure'', dp_tone = Warning, dp_guidance =
               ''This task is waiting on an approval decision. Prefer a healthy silo that can resume quickly once the gate clears.'',
             dp_reasons =
               [reason (show_int (coalesce (td_approvals_pending_count task) 0) @ '' approvals pending'') Warning,
                reason ''Needs quick operator follow-up'' Warning]\<rparr>
          else if td_is_blocked task = Some True then
            \<lparr>dp_label = ''Blocked dependencies'', dp_tone = Warning, dp_guidance =
               ''The task has unresolved dependencies. Avoid assigning a busy or degraded silo until the block is cleared.'',
             dp_reasons = [reason ''Dependency blocked'' Warning, reason ''Avoid degraded silos'' Warning]\<rparr>
          else if td_priority task = ''high'' then
            \<lparr>dp_label = ''High-priority workload'', dp_tone = Danger, dp_guidance =
               ''Use the healthiest, least-busy silo available so the task can move immediately.'',
             dp_reasons = [reason ''Priority high'' Danger, reason ''Prefer idle healthy silo'' Warning]\<rparr>
          else if td_status task = ''in_progress'' \<or> td_status task = ''review'' then
            \<lparr>dp_label = ''Active follow-up'', dp_tone = Neutral, dp_guidance =
               ''This task is already in motion. Favor a ready silo that can continue work without more setup.'',
             dp_reasons = [reason (''Task '' @ td_status task) Neutral, reason ''Favor continuity'' Neutral]\<rparr>
          else
            \<lparr>dp_label = ''Standard demand'', dp_tone = Success, dp_guidance =
               ''Any ready silo can take this work. Prefer an idle silo if one is available.'',
             dp_reasons = [reason (''Task '' @ td_status task) Neutral, reason ''Standard load'' Success]\<rparr>))"

section \<open>dispatch.ts\<close>

record SiloDispatchCandidate =
  dc_silo :: SiloSummary
  dc_health :: SiloHealthModel
  dc_readinessLabel :: string
  dc_tone :: tone
  dc_guidance :: string
  dc_reasons :: "DispatchReason list"
  dc_score :: int

definition task_priority :: "TaskDemandInput \<Rightarrow> string option" where
  "task_priority task = map_option td_priority task"

definition task_pending :: "TaskDemandInput \<Rightarrow> int" where
  "task_pending task =
     (case task of None \<Rightarrow> 0 | Some t \<Rightarrow> coalesce (td_approvals_pending_count t) 0)"

definition taskNeedsUrgentAttention :: "TaskDemandInput \<Rightarrow> bool" where
  "taskNeedsUrgentAttention task =
     (case task of
        None \<Rightarrow> False
      | Some t \<Rightarrow> coalesce (td_approvals_pending_count t) 0 > 0
                  \<or> td_is_blocked t = Some True \<or> td_priority t = ''high'')"

text \<open>The reasons pushed before the first return; only the last return uses them.\<close>

definition base_reasons :: "SiloSummary \<Rightarrow> TaskDemandInput \<Rightarrow> bool \<Rightarrow> DispatchReason list" where
  "base_reasons silo task isBusy =
     (if ss_enable_symphony silo then [reason ''Symphony enabled'' Success] else [])
     @ (if ss_status silo = Active then [reason ''Healthy runtime'' Success] else [])
     @ (if \<not> isBusy then [reason ''Idle capacity'' Success] else [])
     @ (if task_priority task = Some ''high'' then [reason ''Fits urgent work'' Success] else [])
     @ (if task_pending task > 0 then [reason ''Fast approval follow-up'' Success] else [])
     @ (if map_option td_status task = Some ''in_progress'' \<or> map_option td_status task = Some ''review''
        then [reason ''Good for active follow-up'' Neutral] else [])"

definition buildSiloDispatchCandidate :: "SiloSummary \<Rightarrow> TaskDemandInput \<Rightarrow> SiloDispatchCandidate" where
  "buildSiloDispatchCandidate silo task =
     (let health = buildSiloHealthModel silo;
          hasPressure = (hm_key health = Blocked \<or> hm_key health = Degraded);
          isBusy = (hm_key health = Busy);
          urgent = taskNeedsUrgentAttention task;
          reasons = base_reasons silo task isBusy
      in if hasPressure then
           \<lparr>dc_silo = silo, dc_health = health, dc_readinessLabel = ''Needs attention'', dc_tone = Danger,
            dc_guidance = hm_guidance health,
            dc_reasons =
              reason (if hm_key health = Blocked then ''Blocked runs present'' else ''Recent failures present'')
                     (if hm_key health = Blocked then Danger else Warning)
              # (if urgent then [reason ''Poor fit for urgent follow-up'' Warning] else []),
            dc_score = 300 + ss_blocked_run_count silo * 10 + ss_failed_run_count silo * 10\<rparr>
         else if ss_status silo \<noteq> Active then
           \<lparr>dc_silo = silo, dc_health = health,
            dc_readinessLabel = (if ss_status silo = Provisioning then ''Applying'' else ''Needs setup''),
            dc_tone = Warning, dc_guidance = hm_guidance health,
            dc_reasons =
              reason (if ss_status silo = Provisioning then ''Runtime still applying'' else ''Needs setup first'') Warning
              # (if urgent then [reason ''Weak fit for urgent work'' Warning] else []),
            dc_score = 200\<rparr>
         else if isBusy then
           \<lparr>dc_silo = silo, dc_health = health, dc_readinessLabel = ''Available but busy'',
            dc_tone = (if urgent then Warning else Neutral),
            dc_guidance =
              (if urgent
               then ''This silo can run work, but it already has active load and may not be ideal for urgent follow-up.''
               else ''This silo is healthy but already carrying active work.''),
            dc_reasons =
              [reason ''Healthy runtime'' Success,
               reason (''Active load '' @ show_int (ss_active_run_count silo)) Warning,
               if urgent then reason ''Busy for urgent demand'' Warning else reason ''Still available'' Neutral],
            dc_score = 100 + ss_active_run_count silo * 10\<rparr>
         else
           \<lparr>dc_silo = silo, dc_health = health, dc_readinessLabel = ''Ready now'', dc_tone = Success,
            dc_guidance = ''Healthy, idle, and ready to accept a new runtime run.'',
            dc_reasons = reasons, dc_score = 0\<rparr>)"

definition buildSiloOverviewPosture :: "SiloSummary \<Rightarrow> SiloDispatchCandidate" where
  "buildSiloOverviewPosture silo = buildSiloDispatchCandidate silo None"

section \<open>presentation.ts\<close>

datatype badge_variant = BadgeSuccess | BadgeWarning | BadgeDanger | BadgeDefault

fun siloToneBadgeVariant :: "tone \<Rightarrow> badge_variant" where
  "siloToneBadgeVariant Success = BadgeSuccess"
| "siloToneBadgeVariant Warning = BadgeWarning"
| "siloToneBadgeVariant Danger = BadgeDanger"
| "siloToneBadgeVariant Neutral = BadgeDefault"

fun siloReasonChipClass :: "tone \<Rightarrow> string" where
  "siloReasonChipClass Success = ''bg-emerald-50 text-emerald-700''"
| "siloReasonChipClass Warning = ''bg-amber-50 text-amber-700''"
| "siloReasonChipClass Danger = ''bg-rose-50 text-rose-700''"
| "siloReasonChipClass Neutral = ''bg-slate-100 text-slate-700''"

section \<open>Lemmas\<close>

lemma health_key_cases:
  "hm_key (buildSiloHealthModel silo) =
     (if ss_status silo \<noteq> Active then NeedsSetup
      else if ss_blocked_run_count silo > 0 then Blocked
      else if ss_failed_run_count silo > 0 then Degraded
      else if ss_active_run_count silo > 0 then Busy else Healthy)"
  by (simp add: buildSiloHealthModel_def)

definition with_key :: "SiloHealthKey \<Rightarrow> SiloSummary list \<Rightarrow> int" where
  "with_key k silos = int (length (filter (\<lambda>s. hm_key (buildSiloHealthModel s) = k) silos))"

lemma with_key_simps [simp]:
  "with_key k [] = 0"
  "with_key k (s # ss) = (if hm_key (buildSiloHealthModel s) = k then 1 else 0) + with_key k ss"
  by (simp_all add: with_key_def)

lemma with_key_nonneg [simp]: "0 \<le> with_key k silos"
  by (simp add: with_key_def)

lemma with_key_zero: "with_key k silos = 0 \<longleftrightarrow> (\<forall>s \<in> set silos. hm_key (buildSiloHealthModel s) \<noteq> k)"
  by (auto simp: with_key_def filter_empty_conv)

lemma foldl_count_silo:
  "foldl count_silo acc silos =
     \<lparr>totalCount = totalCount acc + int (length silos),
      healthyCount = healthyCount acc + with_key Healthy silos,
      busyCount = busyCount acc + with_key Busy silos,
      blockedCount = blockedCount acc + with_key Blocked silos,
      degradedCount = degradedCount acc + with_key Degraded silos,
      needsSetupCount = needsSetupCount acc + with_key NeedsSetup silos\<rparr>"
proof (induction silos arbitrary: acc)
  case Nil
  then show ?case by simp
next
  case (Cons s ss)
  show ?case
    by (cases "hm_key (buildSiloHealthModel s)") (simp_all add: Cons.IH count_silo_def [of acc s])
qed

lemma summarizeSiloHealth_eq:
  "summarizeSiloHealth silos =
     \<lparr>totalCount = int (length silos), healthyCount = with_key Healthy silos,
      busyCount = with_key Busy silos, blockedCount = with_key Blocked silos,
      degradedCount = with_key Degraded silos, needsSetupCount = with_key NeedsSetup silos\<rparr>"
  by (simp add: summarizeSiloHealth_def foldl_count_silo empty_summary_def)

lemma with_key_total:
  "with_key Healthy silos + with_key Busy silos + with_key Blocked silos
     + with_key Degraded silos + with_key NeedsSetup silos = int (length silos)"
proof (induction silos)
  case Nil
  then show ?case by simp
next
  case (Cons s ss)
  then show ?case by (cases "hm_key (buildSiloHealthModel s)") simp_all
qed

lemma candidate_silo [simp]: "dc_silo (buildSiloDispatchCandidate silo task) = silo"
  by (simp add: buildSiloDispatchCandidate_def Let_def)

lemma candidate_health [simp]:
  "dc_health (buildSiloDispatchCandidate silo task) = buildSiloHealthModel silo"
  by (simp add: buildSiloDispatchCandidate_def Let_def)

text \<open>The score by health class: it does not depend on the task.\<close>

lemma candidate_score:
  "dc_score (buildSiloDispatchCandidate silo task) =
     (case hm_key (buildSiloHealthModel silo) of
        Healthy \<Rightarrow> 0
      | Busy \<Rightarrow> 100 + ss_active_run_count silo * 10
      | NeedsSetup \<Rightarrow> 200
      | Degraded \<Rightarrow> 300 + ss_blocked_run_count silo * 10 + ss_failed_run_count silo * 10
      | Blocked \<Rightarrow> 300 + ss_blocked_run_count silo * 10 + ss_failed_run_count silo * 10)"
  by (simp add: buildSiloDispatchCandidate_def Let_def health_key_cases)

end
