(* ===== verification/JsValue.thy ===== *)
theory JsValue
  imports Complex_Main JsCollections
begin

text \<open>
  JavaScript numbers and values of type \<open>unknown\<close> (parsed JSON with
  \<open>undefined\<close>). A finite number is a rational: rounding to the nearest double is not
  modelled, NaN and the infinities are. An object is an association list in the order of
  its own properties; reading a property that is absent gives \<open>Undefined\<close>.
\<close>

section \<open>Numbers\<close>

datatype jsnum = NaN | PosInf | NegInf | Fin rat

fun is_finite :: "jsnum \<Rightarrow> bool" where
  "is_finite (Fin q) = True"
| "is_finite _ = False"

definition rat_trunc :: "rat \<Rightarrow> int" where
  "rat_trunc q = (if 0 \<le> q then \<lfloor>q\<rfloor> else \<lceil>q\<rceil>)"

fun show_frac :: "nat \<Rightarrow> rat \<Rightarrow> string" where
  "show_frac 0 r = []"
| "show_frac (Suc fuel) r =
     (if r = 0 then []
      else digit_char (nat \<lfloor>10 * r\<rfloor>) # show_frac fuel (10 * r - of_int \<lfloor>10 * r\<rfloor>))"

text \<open>
  \<open>String(x)\<close> for a finite number below \<open>10^21\<close> with at most 17 decimals, written
  positionally as JavaScript does in that range.
\<close>

definition show_rat :: "rat \<Rightarrow> string" where
  "show_rat q =
     (let a = \<bar>q\<bar>; i = \<lfloor>a\<rfloor>; f = show_frac 17 (a - of_int i)
      in (if q < 0 then ''-'' else []) @ show_int i @ (if f = [] then [] else ''.'' @ f))"

fun show_num :: "jsnum \<Rightarrow> string" where
  "show_num NaN = ''NaN''"
| "show_num PosInf = ''Infinity''"
| "show_num NegInf = ''-Infinity''"
| "show_num (Fin q) = show_rat q"

lemma show_frac_0 [simp]: "show_frac fuel 0 = []"
  by (cases fuel) auto

lemma show_rat_of_int: "show_rat (of_int i) = show_int i"
proof -
  have floor: "\<lfloor>\<bar>of_int i :: rat\<bar>\<rfloor> = \<bar>i\<bar>" by (metis floor_of_int of_int_abs)
  have frac: "show_frac 17 (\<bar>of_int i :: rat\<bar> - of_int \<bar>i\<bar>) = []"
    by simp
  show ?thesis by (simp add: show_rat_def Let_def floor frac show_int_def)
qed

section \<open>Values\<close>

datatype js =
    Undefined
  | Null
  | Bool bool
  | Num jsnum
  | Str string
  | Arr "js list"
  | Obj "(string \<times> js) list"

type_synonym js_record = "(string \<times> js) list"

definition get_prop :: "js_record \<Rightarrow> string \<Rightarrow> js" where
  "get_prop r k = (case map_of r k of None \<Rightarrow> Undefined | Some v \<Rightarrow> v)"

text \<open>A value as a condition.\<close>

fun truthy :: "js \<Rightarrow> bool" where
  "truthy Undefined = False"
| "truthy Null = False"
| "truthy (Bool b) = b"
| "truthy (Num n) = (case n of NaN \<Rightarrow> False | Fin q \<Rightarrow> q \<noteq> 0 | _ \<Rightarrow> True)"
| "truthy (Str s) = (s \<noteq> [])"
| "truthy (Arr xs) = True"
| "truthy (Obj ps) = True"

text \<open>
  \<open>!value || typeof value !== "object" || Array.isArray(value)\<close>: the test in front of
  every cast of an unknown payload to a record.
\<close>

fun as_record :: "js \<Rightarrow> js_record option" where
  "as_record (Obj ps) = Some ps"
| "as_record _ = None"

fun as_string :: "js \<Rightarrow> string option" where
  "as_string (Str s) = Some s"
| "as_string _ = None"

text \<open>\<open>typeof v === "number" && Number.isFinite(v)\<close>\<close>

fun as_finite :: "js \<Rightarrow> rat option" where
  "as_finite (Num (Fin q)) = Some q"
| "as_finite _ = None"

text \<open>\<open>typeof v === "string" && v.trim() ? v.trim() : null\<close>\<close>

definition trimmed_string :: "js \<Rightarrow> string option" where
  "trimmed_string v = trim_or_null (as_string v)"

lemma trimmed_string_Some:
  "trimmed_string v = Some t \<longleftrightarrow> (\<exists>s. v = Str s \<and> t = trim s \<and> t \<noteq> [])"
  by (cases v) (auto simp: trimmed_string_def trim_or_null_Some)

lemma trimmed_string_trimmed: "trimmed_string v = Some t \<Longrightarrow> trim t = t \<and> t \<noteq> []"
  by (auto simp: trimmed_string_Some)

lemma trimmed_string_simps [simp]:
  "trimmed_string Undefined = None" "trimmed_string Null = None"
  "trimmed_string (Bool b) = None" "trimmed_string (Num n) = None"
  "trimmed_string (Arr xs) = None" "trimmed_string (Obj ps) = None"
  "trimmed_string (Str s) = truthy_str (trim s)"
  by (simp_all add: trimmed_string_def trim_or_null_def)

end
