(* ===== verification/JsDate.thy ===== *)
theory JsDate
  imports JsValue "HOL-Library.Monad_Syntax"
begin

text \<open>
  Dates. The first part is what the code uses of \<open>Date\<close>: the ECMAScript date-time
  string format (with any number of fraction digits, as the engines accept), turned into
  milliseconds since the epoch by the formulas of the standard. A string outside that
  format gives NaN (\<open>None\<close>); the engines' fallback parsers are not modelled. A
  date-time without offset is local time: \<open>tz\<close> maps a local time value to UTC.

  The second part models \<open>src/lib/datetime.ts\<close> and the parser of
  \<open>src/lib/formatters.ts\<close>.
\<close>

section \<open>The calendar\<close>

definition leap :: "int \<Rightarrow> bool" where
  "leap y \<longleftrightarrow> y mod 4 = 0 \<and> y mod 100 \<noteq> 0 \<or> y mod 400 = 0"

definition day_from_year :: "int \<Rightarrow> int" where
  "day_from_year y = 365 * (y - 1970) + (y - 1969) div 4 - (y - 1901) div 100 + (y - 1601) div 400"

definition month_start :: "int \<Rightarrow> int \<Rightarrow> int" where
  "month_start y m =
     [0, 31, 59, 90, 120, 151, 181, 212, 243, 273, 304, 334] ! nat (m - 1)
     + (if leap y \<and> 2 < m then 1 else 0)"

definition make_day :: "int \<Rightarrow> int \<Rightarrow> int \<Rightarrow> int" where
  "make_day y m d = day_from_year y + month_start y m + d - 1"

definition ms_per_day :: int where
  "ms_per_day = 86400000"

section \<open>Date.parse\<close>

definition take_digits :: "nat \<Rightarrow> string \<Rightarrow> (int \<times> string) option" where
  "take_digits n s =
     (if n \<le> length s \<and> list_all is_digit (take n s)
      then Some (int (read_nat (take n s)), drop n s) else None)"

definition expect :: "string \<Rightarrow> string \<Rightarrow> string option" where
  "expect cs s = (case s of [] \<Rightarrow> None | c # rest \<Rightarrow> if c \<in> set cs then Some rest else None)"

text \<open>Up to three fraction digits count, further ones are dropped.\<close>

definition frac_ms :: "string \<Rightarrow> int" where
  "frac_ms ds = int (read_nat (take 3 (ds @ ''00'')))"

definition parse_fraction :: "string \<Rightarrow> (int \<times> string) option" where
  "parse_fraction s =
     (case s of
        CHR ''.'' # rest \<Rightarrow>
          (let ds = takeWhile is_digit rest
           in if ds = [] then None else Some (frac_ms ds, drop (length ds) rest))
      | _ \<Rightarrow> Some (0, s))"

text \<open>The offset in minutes: \<open>None\<close> inside when there is none.\<close>

definition parse_offset :: "string \<Rightarrow> int option option" where
  "parse_offset s =
     (case s of
        [] \<Rightarrow> Some None
      | c # rest \<Rightarrow>
          if c \<in> set ''Zz'' then (if rest = [] then Some (Some 0) else None)
          else if c \<in> set ''+-'' then
            do { (h, r1) \<leftarrow> take_digits 2 rest;
                 r2 \<leftarrow> expect '':'' r1;
                 (m, r3) \<leftarrow> take_digits 2 r2;
                 if r3 = [] \<and> h \<le> 23 \<and> m \<le> 59
                 then Some (Some ((if c = CHR ''-'' then - 1 else 1) * (h * 60 + m))) else None }
          else None)"

definition parse_time :: "string \<Rightarrow> (int \<times> int option) option" where
  "parse_time s =
     do { (h, r1) \<leftarrow> take_digits 2 s;
          r2 \<leftarrow> expect '':'' r1;
          (mi, r3) \<leftarrow> take_digits 2 r2;
          (sec, r5) \<leftarrow> (case expect '':'' r3 of None \<Rightarrow> Some (0, r3) | Some r4 \<Rightarrow> take_digits 2 r4);
          (ms, r6) \<leftarrow> (if expect '':'' r3 = None then Some (0, r5) else parse_fraction r5);
          off \<leftarrow> parse_offset r6;
          if (h < 24 \<or> h = 24 \<and> mi = 0 \<and> sec = 0 \<and> ms = 0) \<and> mi \<le> 59 \<and> sec \<le> 59
          then Some (((h * 60 + mi) * 60 + sec) * 1000 + ms, off) else None }"

definition parse_date :: "string \<Rightarrow> ((int \<times> int \<times> int) \<times> string) option" where
  "parse_date s =
     do { (y, r1) \<leftarrow> take_digits 4 s;
          (m, r3) \<leftarrow> (case expect ''-'' r1 of None \<Rightarrow> Some (1, r1) | Some r2 \<Rightarrow> take_digits 2 r2);
          (d, r5) \<leftarrow> (if expect ''-'' r1 = None then Some (1, r3)
                      else case expect ''-'' r3 of None \<Rightarrow> Some (1, r3) | Some r4 \<Rightarrow> take_digits 2 r4);
          if 1 \<le> m \<and> m \<le> 12 \<and> 1 \<le> d \<and> d \<le> 31 then Some ((y, m, d), r5) else None }"

definition date_parse :: "(int \<Rightarrow> int) \<Rightarrow> string \<Rightarrow> int option" where
  "date_parse tz s =
     do { ((y, m, d), rest) \<leftarrow> parse_date s;
          let day = make_day y m d * ms_per_day;
          if rest = [] then Some day
          else do { r \<leftarrow> expect ''Tt'' rest;
                    (t, off) \<leftarrow> parse_time r;
                    Some (case off of None \<Rightarrow> tz (day + t) | Some o' \<Rightarrow> day + t - o' * 60000) } }"

section \<open>datetime.ts\<close>

definition ends_with_offset :: "string \<Rightarrow> bool" where
  "ends_with_offset s =
     (6 \<le> length s \<and>
      (let t = drop (length s - 6) s
       in t ! 0 \<in> set ''+-'' \<and> is_digit (t ! 1) \<and> is_digit (t ! 2) \<and> t ! 3 = CHR '':''
          \<and> is_digit (t ! 4) \<and> is_digit (t ! 5)))"

text \<open>\<open>HAS_TZ_RE = /[zZ]|[+-]\d\d:\d\d$/\<close>: a z anywhere, or an offset at the end.\<close>

definition HAS_TZ_RE :: "string \<Rightarrow> bool" where
  "HAS_TZ_RE s \<longleftrightarrow> CHR ''z'' \<in> set s \<or> CHR ''Z'' \<in> set s \<or> ends_with_offset s"

definition DATE_ONLY_RE :: "string \<Rightarrow> bool" where
  "DATE_ONLY_RE s \<longleftrightarrow>
     length s = 10 \<and> list_all is_digit (take 4 s) \<and> s ! 4 = CHR ''-''
     \<and> is_digit (s ! 5) \<and> is_digit (s ! 6) \<and> s ! 7 = CHR ''-'' \<and> is_digit (s ! 8) \<and> is_digit (s ! 9)"

definition normalizeApiDatetime :: "string \<Rightarrow> string" where
  "normalizeApiDatetime value =
     (let trimmed = trim value
      in if trimmed = [] then trimmed
         else if DATE_ONLY_RE trimmed then trimmed @ ''T00:00:00Z''
         else if HAS_TZ_RE trimmed then trimmed else trimmed @ ''Z'')"

text \<open>A \<open>Date\<close> is its time value; an invalid date is \<open>None\<close>.\<close>

definition parseApiDatetime :: "(int \<Rightarrow> int) \<Rightarrow> string option \<Rightarrow> int option" where
  "parseApiDatetime tz value =
     (case value of
        None \<Rightarrow> None
      | Some v \<Rightarrow> if v = [] then None else date_parse tz (normalizeApiDatetime v))"

definition apiDatetimeToMs :: "(int \<Rightarrow> int) \<Rightarrow> string option \<Rightarrow> int option" where
  "apiDatetimeToMs tz value = parseApiDatetime tz value"

section \<open>parseTimestamp of formatters.ts\<close>

definition parseTimestamp :: "(int \<Rightarrow> int) \<Rightarrow> string option \<Rightarrow> int option" where
  "parseTimestamp tz value =
     (case value of
        None \<Rightarrow> None
      | Some v \<Rightarrow>
          if v = [] then None
          else date_parse tz (if HAS_TZ_RE v then v else v @ ''Z''))"

lemma normalize_example: "normalizeApiDatetime ''2026-03-01T10:00:00'' = ''2026-03-01T10:00:00Z''"
  by code_simp

lemma date_parse_fraction_example: "date_parse (\<lambda>t. t) ''2026-03-01T10:00:00.123456Z'' = Some 1772359200123"
  by code_simp

lemma date_parse_epoch_example: "date_parse (\<lambda>t. t) ''1970-01-01'' = Some 0"
  by code_simp

end
