(* ===== verification/RuntimeRuns.thy ===== *)
theory RuntimeRuns
  imports Silos JsDate
begin

text \<open>
  \<open>src/lib/runtime-runs.ts\<close>: the run snapshot, the operator state and guidance of a
  run, which operator actions its status allows, the timing rows, and the text the
  activity feed shows for a run event. \<open>now\<close> is \<open>Date.now()\<close>, \<open>tz\<close> the local
  time zone.
\<close>

section \<open>Types\<close>

record RuntimeRunSnapshot =
  rr_id :: string
  rr_board_id :: string
  rr_task_id :: string
  rr_status :: string
  rr_created_at :: string
  rr_started_at :: "string option"
  rr_completed_at :: "string option"
  rr_updated_at :: string
  rr_summary :: "string option"
  rr_branch_name :: "string option"
  rr_pr_url :: "string option"
  rr_issue_identifier :: "string option"
  rr_runner_kind :: "string option"
  rr_completion_kind :: "string option"
  rr_failure_reason :: "string option"
  rr_block_reason :: "string option"
  rr_cancel_reason :: "string option"
  rr_stall_reason :: "string option"
  rr_last_event :: "string option"
  rr_last_message :: "string option"
  rr_session_id :: "string option"
  rr_turn_count :: "jsnum option"
  rr_duration_ms :: "jsnum option"

text \<open>\<open>RuntimeRunSnapshot & { error_message?: string | null }\<close>\<close>

record run_with_error = RuntimeRunSnapshot +
  rr_error_message :: "string option"

record TaskExecutionRunSnapshot = run_with_error +
  te_organization_id :: string
  te_silo_id :: string
  te_silo_slug :: string
  te_requested_by_user_id :: "string option"
  te_requested_by_agent_id :: "string option"
  te_role_slug :: string
  te_task_snapshot :: "js_record option"
  te_dispatch_payload :: "js_record option"
  te_result_payload :: "js_record option"
  te_external_run_id :: "string option"
  te_workspace_path :: "string option"

record RuntimeRunOperatorGuidance =
  og_tone :: tone
  og_title :: string
  og_detail :: string

record RuntimeRunOperatorState =
  st_tone :: tone
  st_label :: string

record detail_row =
  row_label :: string
  row_value :: string

abbreviation row :: "string \<Rightarrow> string \<Rightarrow> detail_row" where
  "row l v \<equiv> \<lparr>row_label = l, row_value = v\<rparr>"

section \<open>Timestamps and durations\<close>

definition parseRunTimestamp :: "(int \<Rightarrow> int) \<Rightarrow> string option \<Rightarrow> int option" where
  "parseRunTimestamp tz value =
     (case value of
        None \<Rightarrow> None
      | Some v \<Rightarrow> if v = [] then None
                  else or_else (parseApiDatetime tz (Some v)) (parseTimestamp tz (Some v)))"

definition runtimeRunStatusClass :: "string \<Rightarrow> string" where
  "runtimeRunStatusClass status =
     (if status = ''succeeded'' then ''border-emerald-200 bg-emerald-50 text-emerald-700''
      else if status = ''running'' then ''border-sky-200 bg-sky-50 text-sky-700''
      else if status = ''dispatching'' then ''border-indigo-200 bg-indigo-50 text-indigo-700''
      else if status = ''queued'' then ''border-amber-200 bg-amber-50 text-amber-700''
      else if status = ''failed'' then ''border-rose-200 bg-rose-50 text-rose-700''
      else if status = ''cancelled'' then ''border-slate-300 bg-slate-100 text-slate-700''
      else if status = ''blocked'' then ''border-orange-200 bg-orange-50 text-orange-700''
      else ''border-slate-200 bg-slate-100 text-slate-700'')"

definition formatRuntimeDurationMs :: "jsnum \<Rightarrow> string" where
  "formatRuntimeDurationMs value =
     (case value of
        Fin q \<Rightarrow>
          if q \<le> 0 then DASH
          else (let totalSeconds = \<lfloor>q / 1000\<rfloor>
                in if totalSeconds < 60 then show_int totalSeconds @ ''s''
                   else (let totalMinutes = totalSeconds div 60
                         in if totalMinutes < 60
                            then (let seconds = totalSeconds mod 60
                                  in if seconds > 0
                                     then show_int totalMinutes @ ''m '' @ show_int seconds @ ''s''
                                     else show_int totalMinutes @ ''m'')
                            else (let totalHours = totalMinutes div 60
                                  in if totalHours < 24
                                     then (let minutes = totalMinutes mod 60
                                           in if minutes > 0
                                              then show_int totalHours @ ''h '' @ show_int minutes @ ''m''
                                              else show_int totalHours @ ''h'')
                                     else (let days = totalHours div 24; hours = totalHours mod 24
                                           in if hours > 0
                                              then show_int days @ ''d '' @ show_int hours @ ''h''
                                              else show_int days @ ''d''))))
      | _ \<Rightarrow> DASH)"

definition runtimeRunTimingRows ::
  "(int \<Rightarrow> int) \<Rightarrow> int \<Rightarrow> ('a) RuntimeRunSnapshot_scheme \<Rightarrow> detail_row list" where
  "runtimeRunTimingRows tz now run =
     (let createdAt = parseRunTimestamp tz (Some (rr_created_at run));
          startedAt = parseRunTimestamp tz (rr_started_at run);
          completedAt = parseRunTimestamp tz (rr_completed_at run);
          status = rr_status run
      in (case createdAt of
            Some c \<Rightarrow> if status = ''queued'' \<or> status = ''blocked''
                      then [row ''Queued for'' (formatRuntimeDurationMs (Fin (of_int (now - c))))] else []
          | None \<Rightarrow> [])
         @ (case startedAt of
              Some st \<Rightarrow> if status = ''dispatching''
                        then [row ''Dispatching for'' (formatRuntimeDurationMs (Fin (of_int (now - st))))] else []
            | None \<Rightarrow> [])
         @ (case startedAt of
              Some st \<Rightarrow> if status = ''running''
                        then [row ''Running for'' (formatRuntimeDurationMs (Fin (of_int (now - st))))] else []
            | None \<Rightarrow> [])
         @ (case (completedAt, createdAt) of
              (Some d, Some c) \<Rightarrow> [row ''Completed in'' (formatRuntimeDurationMs (Fin (of_int (d - c))))]
            | _ \<Rightarrow> []))"

definition runtimeRunTimingLabel ::
  "(int \<Rightarrow> int) \<Rightarrow> int \<Rightarrow> ('a) RuntimeRunSnapshot_scheme \<Rightarrow> detail_row option" where
  "runtimeRunTimingLabel tz now run = js_first (runtimeRunTimingRows tz now run)"

section \<open>Operator actions by status\<close>

definition canRetryRuntimeRun :: "string \<Rightarrow> bool" where
  "canRetryRuntimeRun status \<longleftrightarrow> status = ''failed'' \<or> status = ''cancelled'' \<or> status = ''blocked''"

definition canCancelRuntimeRun :: "string \<Rightarrow> bool" where
  "canCancelRuntimeRun status \<longleftrightarrow>
     status = ''queued'' \<or> status = ''dispatching'' \<or> status = ''running'' \<or> status = ''blocked''"

definition canAcknowledgeRuntimeRun :: "string \<Rightarrow> bool" where
  "canAcknowledgeRuntimeRun status \<longleftrightarrow> status = ''failed'' \<or> status = ''cancelled'' \<or> status = ''blocked''"

definition canEscalateRuntimeRun :: "string \<Rightarrow> bool" where
  "canEscalateRuntimeRun status \<longleftrightarrow> status = ''failed'' \<or> status = ''cancelled'' \<or> status = ''blocked''"

section \<open>Operator state\<close>

definition normalizeRuntimeHint :: "string option \<Rightarrow> string option" where
  "normalizeRuntimeHint value = trim_or_null value"

definition lowered_hint :: "string option \<Rightarrow> string option" where
  "lowered_hint value = map_option to_lower (normalizeRuntimeHint value)"

text \<open>\<open>hint?.includes(word)\<close> as a condition\<close>

definition hint_has :: "string option \<Rightarrow> string \<Rightarrow> bool" where
  "hint_has hint word = (case hint of None \<Rightarrow> False | Some h \<Rightarrow> str_includes h word)"

definition RUNTIME_STALL_THRESHOLD_MS :: int where
  "RUNTIME_STALL_THRESHOLD_MS = 5 * 60 * 1000"

abbreviation op_state :: "tone \<Rightarrow> string \<Rightarrow> RuntimeRunOperatorState" where
  "op_state t l \<equiv> \<lparr>st_tone = t, st_label = l\<rparr>"

definition runtimeRunOperatorState ::
  "(int \<Rightarrow> int) \<Rightarrow> int \<Rightarrow> ('a) RuntimeRunSnapshot_scheme \<Rightarrow> RuntimeRunOperatorState" where
  "runtimeRunOperatorState tz now run =
     (let completionKind = lowered_hint (rr_completion_kind run);
          blockReason = lowered_hint (rr_block_reason run);
          cancelReason = lowered_hint (rr_cancel_reason run);
          stallReason = lowered_hint (rr_stall_reason run);
          failureReason = lowered_hint (rr_failure_reason run);
          lastEvent = lowered_hint (rr_last_event run);
          updatedAt = parseRunTimestamp tz (Some (rr_updated_at run));
          ageMs = map_option (\<lambda>u. now - u) updatedAt;
          status = rr_status run
      in if status = ''succeeded'' then op_state Success ''completed''
         else if status = ''failed'' then
           (if hint_has failureReason ''timeout'' then op_state Danger ''timed out''
            else op_state Danger ''execution failed'')
         else if status = ''cancelled'' then
           (if hint_has cancelReason ''operator'' then op_state Warning ''operator cancelled''
            else op_state Warning ''cancelled'')
         else if status = ''blocked'' then
           (if hint_has blockReason ''approval'' \<or> hint_has blockReason ''policy''
               \<or> hint_has completionKind ''approval'' \<or> hint_has completionKind ''policy''
               \<or> hint_has lastEvent ''approval''
            then op_state Warning ''approval blocked'' else op_state Warning ''blocked'')
         else if stallReason \<noteq> None
              \<or> (case ageMs of None \<Rightarrow> False
                  | Some age \<Rightarrow> age \<ge> RUNTIME_STALL_THRESHOLD_MS
                                 \<and> (status = ''running'' \<or> status = ''dispatching''))
         then op_state Warning ''stalled''
         else if status = ''running'' then op_state Neutral ''executing''
         else if status = ''dispatching'' then op_state Neutral ''handoff''
         else op_state Neutral ''queued'')"

definition runtimeRunNeedsApprovalAttention ::
  "(int \<Rightarrow> int) \<Rightarrow> int \<Rightarrow> ('a) RuntimeRunSnapshot_scheme \<Rightarrow> bool" where
  "runtimeRunNeedsApprovalAttention tz now run \<longleftrightarrow>
     st_label (runtimeRunOperatorState tz now run) = ''approval blocked''"

abbreviation guide :: "tone \<Rightarrow> string \<Rightarrow> string \<Rightarrow> RuntimeRunOperatorGuidance" where
  "guide t ti d \<equiv> \<lparr>og_tone = t, og_title = ti, og_detail = d\<rparr>"

definition runtimeRunOperatorGuidance ::
  "(int \<Rightarrow> int) \<Rightarrow> int \<Rightarrow> ('a) run_with_error_scheme \<Rightarrow> RuntimeRunOperatorGuidance" where
  "runtimeRunOperatorGuidance tz now run =
     (let label = st_label (runtimeRunOperatorState tz now run);
          lastMessage = normalizeRuntimeHint (rr_last_message run);
          errorMessage = normalizeRuntimeHint (rr_error_message run);
          blockReason = normalizeRuntimeHint (rr_block_reason run);
          cancelReason = normalizeRuntimeHint (rr_cancel_reason run);
          stallReason = normalizeRuntimeHint (rr_stall_reason run);
          failureReason = normalizeRuntimeHint (rr_failure_reason run)
      in if label = ''queued'' then
           guide Neutral ''Waiting for dispatch''
             ''Monitor the queue and runtime worker. Retry only if this stays queued unexpectedly long.''
         else if label = ''handoff'' then
           guide Neutral ''Bridge handoff in progress''
             ''The control plane has handed this run to the runtime bridge. Watch for a running update.''
         else if label = ''stalled'' then
           guide Warning ''Check the runtime bridge''
             (coalesce stallReason
               ''This run has not emitted a recent update. Inspect worker, bridge, or callback health before retrying.'')
         else if label = ''executing'' then
           guide Neutral ''Session is active''
             (coalesce lastMessage
               ''The runtime session is still executing. Watch turns, callback updates, and final completion.'')
         else if label = ''completed'' then
           guide Success ''Review the result''
             (if rr_pr_url run \<noteq> None then ''Open the PR and move the task through review.''
              else coalesce lastMessage ''Inspect the output and advance the task to the next review step.'')
         else if label = ''approval blocked'' then
           guide Warning ''Resolve the approval gate''
             (coalesce blockReason
               ''Open the board approvals queue, resolve the decision, then retry or continue the run.'')
         else if label = ''blocked'' then
           guide Warning ''Inspect the blocker''
             (coalesce blockReason (coalesce errorMessage (coalesce lastMessage
               ''Review the blocking condition, then retry when ready.'')))
         else if label = ''cancelled'' then
           guide Warning ''Rerun when ready''
             (coalesce cancelReason (coalesce errorMessage (coalesce lastMessage
               ''This run was cancelled before completion. Retry when the task is ready to continue.'')))
         else
           guide Danger ''Investigate failure''
             (coalesce failureReason (coalesce errorMessage (coalesce lastMessage
               ''Review the last runtime event and retry after fixing the underlying issue.''))))"


section \<open>Durations read back\<close>

text \<open>
  A reader for the texts of \<open>formatRuntimeDurationMs\<close>: the words are numbers with a
  unit, and the result is their sum in seconds.
\<close>

definition unit_seconds :: "char \<Rightarrow> nat" where
  "unit_seconds c = (if c = CHR ''s'' then 1 else if c = CHR ''m'' then 60
     else if c = CHR ''h'' then 3600 else 86400)"

definition word_seconds :: "string \<Rightarrow> nat" where
  "word_seconds w = read_nat (butlast w) * unit_seconds (last w)"

definition read_duration :: "string \<Rightarrow> nat" where
  "read_duration s = sum_list (map word_seconds (split_char (CHR '' '') s))"

lemma show_nat_no_space: "CHR '' '' \<notin> set (show_nat n)"
  using show_nat_digits [of "CHR '' ''" n] by (auto simp: is_digit_def char_code_def)

lemma show_int_nonneg: "0 \<le> i \<Longrightarrow> show_int i = show_nat (nat i)"
  by (simp add: show_int_def)

lemma split_char_append:
  "d \<notin> set a \<Longrightarrow> split_char d (a @ d # b) = a # split_char d b"
  by (induction a) auto

lemma read_duration_one:
  "u \<noteq> CHR '' '' \<Longrightarrow> read_duration (show_nat n @ [u]) = n * unit_seconds u"
  by (simp add: read_duration_def split_char_id show_nat_no_space word_seconds_def)

lemma read_duration_two:
  assumes "u \<noteq> CHR '' ''" and "v \<noteq> CHR '' ''"
  shows "read_duration (show_nat m @ u # CHR '' '' # show_nat n @ [v])
    = m * unit_seconds u + n * unit_seconds v"
proof -
  have "split_char (CHR '' '') ((show_nat m @ [u]) @ CHR '' '' # (show_nat n @ [v]))
      = [show_nat m @ [u], show_nat n @ [v]]"
    using assms by (subst split_char_append) (simp_all add: show_nat_no_space split_char_id)
  then show ?thesis by (simp add: read_duration_def word_seconds_def)
qed

text \<open>The granularity of the text: seconds below an hour, minutes below a day, then hours.\<close>

definition shown_step :: "nat \<Rightarrow> nat" where
  "shown_step t = (if t < 3600 then 1 else if t < 86400 then 60 else 3600)"

lemma read_format_duration:
  assumes "0 < q" and t: "t = nat \<lfloor>q / 1000\<rfloor>"
  shows "read_duration (formatRuntimeDurationMs (Fin q)) = t div shown_step t * shown_step t"
proof -
  have pos: "0 \<le> \<lfloor>q / 1000\<rfloor>" using assms(1) by simp
  then have T: "\<lfloor>q / 1000\<rfloor> = int t" using t by simp
  have units: "unit_seconds (CHR ''s'') = 1" "unit_seconds (CHR ''m'') = 60"
    "unit_seconds (CHR ''h'') = 3600" "unit_seconds (CHR ''d'') = 86400"
    by (simp_all add: unit_seconds_def)
  have ints: "int t div 60 = int (t div 60)" "int t mod 60 = int (t mod 60)"
    "int (t div 60) div 60 = int (t div 60 div 60)" "int (t div 60) mod 60 = int (t div 60 mod 60)"
    "int (t div 60 div 60) div 24 = int (t div 60 div 60 div 24)"
    "int (t div 60 div 60) mod 24 = int (t div 60 div 60 mod 24)"
    by (simp_all add: zdiv_int zmod_int)
  note simps = formatRuntimeDurationMs_def Let_def T ints show_int_nonneg read_duration_one
    read_duration_two units shown_step_def
  consider (s) "t < 60" | (m) "60 \<le> t" "t < 3600" | (h) "3600 \<le> t" "t < 86400" | (d) "86400 \<le> t"
    by linarith
  then show ?thesis
  proof cases
    case s
    with assms(1) show ?thesis by (simp add: simps)
  next
    case m
    then have "t div 60 < 60" "\<not> t < 60" by simp_all
    moreover have "t mod 60 = 0 \<Longrightarrow> t div 60 * 60 = t" using div_mult_mod_eq [of t 60] by simp
    ultimately show ?thesis using m assms(1) by (simp add: simps)
  next
    case h
    then have "\<not> t div 60 < 60" "t div 60 div 60 < 24" "\<not> t < 60" by auto
    with h assms(1) show ?thesis
      by (simp add: simps) (use div_mult_mod_eq [of "t div 60" 60] in linarith)
  next
    case d
    then have "\<not> t div 60 < 60" "\<not> t div 60 div 60 < 24" "\<not> t < 60" by auto
    moreover have "t div 3600 = t div 60 div 60" by (simp add: div_mult2_eq [symmetric])
    ultimately show ?thesis using d assms(1)
      by (simp add: simps) (use div_mult_mod_eq [of "t div 60 div 60" 24] in linarith)
  qed
qed

section \<open>Properties\<close>

text \<open>the text of a duration, read back, is the number of whole seconds rounded down to the
  step shown (a second below one hour, a minute below one day, an hour above), and a
  duration that is not a positive number is shown as a dash.\<close>

theorem duration_text_faithful:
  "(case value of
      Fin q \<Rightarrow> (if 0 < q
                then (let t = nat \<lfloor>q / 1000\<rfloor>; r = read_duration (formatRuntimeDurationMs value)
                      in r \<le> t \<and> t < r + shown_step t \<and> shown_step t dvd r)
                else formatRuntimeDurationMs value = DASH)
    | _ \<Rightarrow> formatRuntimeDurationMs value = DASH)"
proof (cases "value")
  case (Fin q)
  show ?thesis
  proof (cases "0 < q")
    case True
    let ?t = "nat \<lfloor>q / 1000\<rfloor>"
    have step: "0 < shown_step ?t" by (simp add: shown_step_def)
    have "?t div shown_step ?t * shown_step ?t \<le> ?t" by simp
    moreover have "?t < ?t div shown_step ?t * shown_step ?t + shown_step ?t"
      using step by (metis add.commute div_mult_mod_eq mod_less_divisor nat_add_left_cancel_less)
    ultimately show ?thesis
      using Fin True read_format_duration [OF True refl] by (simp add: Let_def)
  next
    case False
    with Fin show ?thesis by (simp add: formatRuntimeDurationMs_def)
  qed
qed (simp_all add: formatRuntimeDurationMs_def)

end
