(* ===== verification/SiloViews.thy ===== *)
theory SiloViews
  imports SiloOps RuntimeRuns
begin

text \<open>
  The view models of \<open>src/lib/silo-ops/view-models.ts\<close>: the dashboard badge, the
  overview cards, the silo detail page's health summary and next actions, and the
  dispatch view of a task (candidates in order, the silo the task is attached to, the
  selected candidate). \<open>String.prototype.localeCompare\<close> is the parameter \<open>loc\<close>: its
  result depends on the browser's collation, and the code relies on it being consistent.
\<close>

section \<open>Dashboard and overview\<close>

datatype badge_tone = Online | Offline | NeutralBadge

record SiloHealthBadge =
  hb_text :: string
  hb_tone :: badge_tone

record DashboardSiloHealthViewModel =
  dv_summary :: SiloHealthSummary
  dv_badge :: SiloHealthBadge
  dv_primarySiloSlug :: "string option"

record SiloOverviewSummaryViewModel =
  ov_total :: int
  ov_healthy :: int
  ov_busy :: int
  ov_blocked :: int
  ov_degraded :: int
  ov_needsSetup :: int

definition dashboard_badge :: "SiloHealthSummary \<Rightarrow> SiloHealthBadge" where
  "dashboard_badge summary =
     (if totalCount summary = 0 then \<lparr>hb_text = ''No silos'', hb_tone = NeutralBadge\<rparr>
      else if blockedCount summary > 0 then \<lparr>hb_text = ''Blocked'', hb_tone = Offline\<rparr>
      else if degradedCount summary > 0 then \<lparr>hb_text = ''Degraded'', hb_tone = NeutralBadge\<rparr>
      else if needsSetupCount summary > 0 then \<lparr>hb_text = ''Needs setup'', hb_tone = NeutralBadge\<rparr>
      else if busyCount summary > 0 then \<lparr>hb_text = ''Operational'', hb_tone = NeutralBadge\<rparr>
      else \<lparr>hb_text = ''Healthy'', hb_tone = Online\<rparr>)"

definition posture_score :: "SiloSummary \<Rightarrow> int" where
  "posture_score silo = dc_score (buildSiloOverviewPosture silo)"

definition buildDashboardSiloHealthViewModel :: "SiloSummary list \<Rightarrow> DashboardSiloHealthViewModel" where
  "buildDashboardSiloHealthViewModel silos =
     (let summary = summarizeSiloHealth silos;
          ranked = js_sort (descending posture_score) silos
      in \<lparr>dv_summary = summary, dv_badge = dashboard_badge summary,
          dv_primarySiloSlug = map_option ss_slug (js_first ranked)\<rparr>)"

definition buildSiloOverviewSummaryViewModel :: "SiloSummary list \<Rightarrow> SiloOverviewSummaryViewModel" where
  "buildSiloOverviewSummaryViewModel silos =
     (let summary = summarizeSiloHealth silos
      in \<lparr>ov_total = totalCount summary, ov_healthy = healthyCount summary,
          ov_busy = busyCount summary, ov_blocked = blockedCount summary,
          ov_degraded = degradedCount summary, ov_needsSetup = needsSetupCount summary\<rparr>)"

definition candidate_name :: "SiloDispatchCandidate \<Rightarrow> string" where
  "candidate_name c = ss_name (dc_silo c)"

definition buildSiloOverviewCards ::
  "(string \<Rightarrow> string \<Rightarrow> int) \<Rightarrow> SiloSummary list \<Rightarrow> SiloDispatchCandidate list" where
  "buildSiloOverviewCards loc silos =
     js_sort (cmp_on loc candidate_name) (map buildSiloOverviewPosture silos)"

section \<open>Silo detail\<close>

record health_summary =
  hs_label :: string
  hs_tone :: tone
  hs_guidance :: string

record next_action =
  na_title :: string
  na_detail :: string
  na_tone :: tone

record SiloDetailOpsViewModel =
  sv_healthSummary :: health_summary
  sv_runtimePosture :: string
  sv_workloadGuidance :: string
  sv_nextActions :: "next_action list"

abbreviation hsum :: "string \<Rightarrow> tone \<Rightarrow> string \<Rightarrow> health_summary" where
  "hsum l t g \<equiv> \<lparr>hs_label = l, hs_tone = t, hs_guidance = g\<rparr>"

definition buildSiloDetailHealthSummary :: "SiloDetail \<Rightarrow> health_summary" where
  "buildSiloDetailHealthSummary detail =
     (case sd_operational_summary detail of
        Some os \<Rightarrow> hsum (os_health_label os) (os_health_tone os) (os_health_guidance os)
      | None \<Rightarrow>
          (let baseHealth = buildSiloHealthModel (sd_silo detail);
               overviewPosture = buildSiloOverviewPosture (sd_silo detail);
               warningCount = length (collectSiloWarnings detail);
               blockedTargets = getBlockedProvisionTargetCount detail;
               gatewayRoleCount = getGatewayRuntimeRoleCount detail;
               assignedGatewayRoles = getAssignedGatewayRoleCount detail
           in if blockedTargets > 0 \<or> warningCount > 0 then
                hsum (if blockedTargets > 0 then ''Blocked'' else ''Degraded'')
                     (if blockedTargets > 0 then Danger else Warning)
                     (if blockedTargets > 0
                      then ''Resolve blocked runtime targets before trusting this silo with more work.''
                      else ''Resolve runtime warnings before trusting this silo with more work.'')
              else if gatewayRoleCount > 0 \<and> assignedGatewayRoles < gatewayRoleCount then
                hsum ''Needs setup'' Warning ''Assign gateway-backed roles before expecting healthy execution.''
              else if getReadyProvisionTargetCount detail > 0 then
                hsum (hm_label baseHealth) (hm_tone baseHealth)
                     (if map_option rop_mode (sd_latest_runtime_operation detail) = Some Apply
                         \<and> getLatestRuntimeBlockedCount detail = 0
                      then ''The latest runtime apply completed without blocked targets.''
                      else if hm_key baseHealth = NeedsSetup
                      then ''The silo is configured enough to validate or apply runtime.''
                      else hm_guidance baseHealth)
              else
                hsum (hm_label (dc_health overviewPosture)) (hm_tone (dc_health overviewPosture))
                     (if hm_key (dc_health overviewPosture) = NeedsSetup
                      then ''This silo exists, but it has not been driven into an operational state yet.''
                      else hm_guidance (dc_health overviewPosture))))"

definition buildSiloRuntimePosture :: "SiloDetail \<Rightarrow> string" where
  "buildSiloRuntimePosture detail =
     (case Option.bind (sd_operational_summary detail) (\<lambda>os. truthy_str (os_runtime_posture os)) of
        Some posture \<Rightarrow> posture
      | None \<Rightarrow>
          (case sd_latest_runtime_operation detail of
             None \<Rightarrow> ''No runtime operation yet''
           | Some latestRuntime \<Rightarrow>
               if rop_mode latestRuntime = Apply then
                 (if getLatestRuntimeBlockedCount detail > 0 then ''Latest apply needs follow-up''
                  else ''Latest apply completed'')
               else
                 (if getLatestRuntimeBlockedCount detail > 0 then ''Latest validate found blockers''
                  else ''Latest validate completed'')))"

definition buildSiloWorkloadGuidance :: "SiloDetail \<Rightarrow> string" where
  "buildSiloWorkloadGuidance detail =
     (case Option.bind (sd_operational_summary detail) (\<lambda>os. truthy_str (os_workload_guidance os)) of
        Some guidance \<Rightarrow> guidance
      | None \<Rightarrow>
          (case sd_workload_summary detail of
             None \<Rightarrow> ''No runtime work has been dispatched to this silo yet.''
           | Some workload \<Rightarrow>
               if ws_recent_runs workload = [] then ''No runtime work has been dispatched to this silo yet.''
               else if ws_blocked_run_count workload > 0 then
                 ''Blocked runs need operator attention before this silo can be trusted with more work.''
               else if ws_failed_run_count workload > 0 then
                 ''Recent runtime failures should be investigated before scaling this silo further.''
               else if ws_active_run_count workload > 0 then
                 ''This silo is actively carrying runtime work right now.''
               else ''Recent runs completed; review the latest work before assigning more load.''))"

definition workload_count :: "(workload_summary \<Rightarrow> int) \<Rightarrow> SiloDetail \<Rightarrow> int" where
  "workload_count f detail = (case sd_workload_summary detail of None \<Rightarrow> 0 | Some w \<Rightarrow> f w)"

abbreviation action :: "string \<Rightarrow> string \<Rightarrow> tone \<Rightarrow> next_action" where
  "action ti d t \<equiv> \<lparr>na_title = ti, na_detail = d, na_tone = t\<rparr>"

text \<open>The three groups of pushes of \<open>buildSiloNextActions\<close>, each at most one action.\<close>

definition workload_actions :: "SiloDetail \<Rightarrow> next_action list" where
  "workload_actions detail =
     (if workload_count ws_blocked_run_count detail > 0 then
        [action ''Resolve blocked runs''
           ''Open the blocked runtime work below, clear approvals or dependency gates, then retry on the same silo when continuity still makes sense.''
           Danger]
      else if workload_count ws_failed_run_count detail > 0 then
        [action ''Investigate recent failures''
           ''Review failed runtime work on this silo before routing more sensitive tasks here.'' Warning]
      else [])"

definition setup_actions :: "SiloDetail \<Rightarrow> next_action list" where
  "setup_actions detail =
     (if getGatewayRuntimeRoleCount detail > 0
         \<and> getAssignedGatewayRoleCount detail < getGatewayRuntimeRoleCount detail then
        [action ''Finish gateway assignment''
           ''Gateway-backed roles are still unassigned. Complete setup before expecting stable execution.'' Warning]
      else case sd_latest_runtime_operation detail of
             None \<Rightarrow>
               [action ''Validate runtime''
                  ''Run validation once to confirm this silo is ready before dispatching live work.'' Neutral]
           | Some op \<Rightarrow>
               if getLatestRuntimeBlockedCount detail > 0 then
                 [action ''Clear runtime blockers''
                    ''The latest runtime operation still has blocked targets. Resolve them before trusting this silo with more work.''
                    Warning]
               else if rop_mode op = Validate \<and> getReadyProvisionTargetCount detail > 0
                       \<and> ss_status (sd_silo detail) \<noteq> Active then
                 [action ''Apply validated runtime''
                    ''Validation is clean enough. Apply runtime to move this silo into an operational state.'' Success]
               else [])"

definition load_actions :: "SiloDetail \<Rightarrow> health_summary \<Rightarrow> next_action list" where
  "load_actions detail healthSummary =
     (if workload_count ws_active_run_count detail > 0 then
        [action ''Monitor current work''
           ''This silo is already carrying active runtime work. Keep continuity in mind before moving tasks elsewhere.''
           Neutral]
      else if hs_label healthSummary = ''Healthy'' then
        [action ''Use this silo for the next task''
           ''This silo is healthy and idle. It is a strong candidate for the next runtime dispatch.'' Success]
      else [])"

definition buildSiloNextActions :: "SiloDetail \<Rightarrow> health_summary \<Rightarrow> next_action list" where
  "buildSiloNextActions detail healthSummary =
     take 3 (workload_actions detail @ setup_actions detail @ load_actions detail healthSummary)"

definition buildSiloDetailOpsViewModel :: "SiloDetail \<Rightarrow> SiloDetailOpsViewModel" where
  "buildSiloDetailOpsViewModel detail =
     (let healthSummary = buildSiloDetailHealthSummary detail
      in \<lparr>sv_healthSummary = healthSummary, sv_runtimePosture = buildSiloRuntimePosture detail,
          sv_workloadGuidance = buildSiloWorkloadGuidance detail,
          sv_nextActions = buildSiloNextActions detail healthSummary\<rparr>)"

section \<open>Task dispatch\<close>

definition ACTIVE_ASSIGNMENT_STATUSES :: "string list" where
  "ACTIVE_ASSIGNMENT_STATUSES = [''queued'', ''dispatching'', ''running'', ''blocked'']"

definition active_run :: "TaskExecutionRunSnapshot \<Rightarrow> bool" where
  "active_run run \<longleftrightarrow> rr_status run \<in> set ACTIVE_ASSIGNMENT_STATUSES"

text \<open>\<open>value ? Date.parse(value) || 0 : 0\<close>\<close>

definition parseRunTime :: "(int \<Rightarrow> int) \<Rightarrow> string \<Rightarrow> int" where
  "parseRunTime tz value = (if value = [] then 0 else coalesce (date_parse tz value) 0)"

definition assignment_order ::
  "(int \<Rightarrow> int) \<Rightarrow> TaskExecutionRunSnapshot \<Rightarrow> TaskExecutionRunSnapshot \<Rightarrow> int" where
  "assignment_order tz left right =
     (let leftActive = active_run left; rightActive = active_run right
      in if leftActive \<noteq> rightActive then (if leftActive then -1 else 1)
         else cmp_then (descending (\<lambda>r. parseRunTime tz (rr_updated_at r)))
                       (descending (\<lambda>r. parseRunTime tz (rr_created_at r))) left right)"

definition pickAssignedRun ::
  "(int \<Rightarrow> int) \<Rightarrow> TaskExecutionRunSnapshot list \<Rightarrow> TaskExecutionRunSnapshot option" where
  "pickAssignedRun tz runs = (if runs = [] then None else js_first (js_sort (assignment_order tz) runs))"

record assigned_silo =
  as_label :: string
  as_guidance :: string
  as_run :: TaskExecutionRunSnapshot
  as_candidate :: "SiloDispatchCandidate option"

record TaskDispatchViewModel =
  tv_taskDemandProfile :: "TaskDemandProfile option"
  tv_candidates :: "SiloDispatchCandidate list"
  tv_assignedSilo :: "assigned_silo option"
  tv_selectedCandidate :: "SiloDispatchCandidate option"

definition buildAssignedSiloViewModel ::
  "(int \<Rightarrow> int) \<Rightarrow> SiloSummary list \<Rightarrow> SiloDispatchCandidate list \<Rightarrow> TaskDemandInput
     \<Rightarrow> TaskExecutionRunSnapshot list \<Rightarrow> assigned_silo option" where
  "buildAssignedSiloViewModel tz silos candidates task executionRuns =
     (case pickAssignedRun tz executionRuns of
        None \<Rightarrow> None
      | Some assignedRun \<Rightarrow>
          (let slug = te_silo_slug assignedRun;
               candidate = or_else (List.find (\<lambda>item. ss_slug (dc_silo item) = slug) candidates)
                 (map_option (\<lambda>silo. buildSiloDispatchCandidate silo task)
                   (List.find (\<lambda>item. ss_slug item = slug) silos));
               isCurrent = active_run assignedRun;
               guidance =
                 (if isCurrent then
                    ''This task is already attached to this silo through an active run. Continue here unless you need to recover or rebalance.''
                  else if rr_status assignedRun = ''succeeded'' then
                    ''This silo handled the most recent run for this task. Reuse it to preserve continuity.''
                  else
                    ''This silo handled the most recent run for this task. Keep it for continuity or switch if recovery needs a different silo.'')
           in Some \<lparr>as_label = (if isCurrent then ''Current silo'' else ''Last used silo''),
                    as_guidance = guidance, as_run = assignedRun, as_candidate = candidate\<rparr>))"

definition dispatch_order ::
  "(string \<Rightarrow> string \<Rightarrow> int) \<Rightarrow> SiloDispatchCandidate \<Rightarrow> SiloDispatchCandidate \<Rightarrow> int" where
  "dispatch_order loc = cmp_then (ascending dc_score) (cmp_on loc candidate_name)"

definition dispatch_candidates ::
  "(string \<Rightarrow> string \<Rightarrow> int) \<Rightarrow> SiloSummary list \<Rightarrow> TaskDemandInput \<Rightarrow> SiloDispatchCandidate list" where
  "dispatch_candidates loc silos task =
     js_sort (dispatch_order loc)
       (map (\<lambda>silo. buildSiloDispatchCandidate silo task) (filter ss_enable_symphony silos))"

definition buildTaskDispatchViewModel ::
  "(string \<Rightarrow> string \<Rightarrow> int) \<Rightarrow> (int \<Rightarrow> int) \<Rightarrow> SiloSummary list \<Rightarrow> TaskDemandInput
     \<Rightarrow> TaskExecutionRunSnapshot list \<Rightarrow> string option \<Rightarrow> TaskDispatchViewModel" where
  "buildTaskDispatchViewModel loc tz silos task executionRuns selectedSiloSlug =
     (let candidates = dispatch_candidates loc silos task;
          assignedSilo = buildAssignedSiloViewModel tz silos candidates task executionRuns
      in \<lparr>tv_taskDemandProfile = buildTaskDemandProfile task, tv_candidates = candidates,
          tv_assignedSilo = assignedSilo,
          tv_selectedCandidate =
            or_else (List.find (\<lambda>c. Some (ss_slug (dc_silo c)) = selectedSiloSlug) candidates)
              (or_else (Option.bind assignedSilo as_candidate) (js_first candidates))\<rparr>)"

section \<open>The comparators are consistent\<close>

lemma dispatch_order_consistent:
  "consistent_comparator loc \<Longrightarrow> consistent_comparator (dispatch_order loc)"
  unfolding dispatch_order_def
  by (rule consistent_cmp_then [OF by_key_asc.consistent_comparator_axioms consistent_cmp_on])

definition activity_rank :: "TaskExecutionRunSnapshot \<Rightarrow> int" where
  "activity_rank r = (if active_run r then 1 else 0)"

text \<open>Active runs first, then the last updated, then the last created: three descending keys.\<close>

lemma assignment_order_eq:
  "assignment_order tz =
     cmp_then (descending activity_rank)
       (cmp_then (descending (\<lambda>r. parseRunTime tz (rr_updated_at r)))
                 (descending (\<lambda>r. parseRunTime tz (rr_created_at r))))"
  by (intro ext) (auto simp: assignment_order_def cmp_then_def descending_def activity_rank_def Let_def)

interpretation run_order: consistent_comparator "assignment_order tz" for tz
  unfolding assignment_order_eq
  by (intro consistent_cmp_then) unfold_locales

section \<open>Facts the properties share\<close>

definition health_rank :: "SiloHealthKey \<Rightarrow> int" where
  "health_rank k = (case k of Healthy \<Rightarrow> 0 | Busy \<Rightarrow> 1 | NeedsSetup \<Rightarrow> 2 | Degraded \<Rightarrow> 3 | Blocked \<Rightarrow> 3)"

definition key_of :: "SiloDispatchCandidate \<Rightarrow> SiloHealthKey" where
  "key_of c = hm_key (dc_health c)"

lemma set_dispatch_candidates:
  "set (dispatch_candidates loc silos task) =
     (\<lambda>silo. buildSiloDispatchCandidate silo task) ` {s \<in> set silos. ss_enable_symphony s}"
  by (simp add: dispatch_candidates_def)

lemma find_Some_pred: "List.find p xs = Some x \<Longrightarrow> x \<in> set xs \<and> p x"
  by (auto simp: find_Some_iff)

lemma dispatch_order_le:
  "dispatch_order loc a b \<le> 0 \<longleftrightarrow>
     dc_score a < dc_score b \<or> dc_score a = dc_score b \<and> loc (candidate_name a) (candidate_name b) \<le> 0"
  by (auto simp: dispatch_order_def cmp_then_def ascending_def cmp_on_def)

text \<open>With fewer than ten active runs on every silo the scores follow the health ranks.\<close>

lemma score_rank_mono:
  assumes "0 \<le> ss_blocked_run_count s" "0 \<le> ss_failed_run_count s" "ss_active_run_count s < 10"
    and "0 \<le> ss_blocked_run_count t" "0 \<le> ss_failed_run_count t" "ss_active_run_count t < 10"
    and "dc_score (buildSiloDispatchCandidate s task) \<le> dc_score (buildSiloDispatchCandidate t task)"
  shows "health_rank (hm_key (buildSiloHealthModel s)) \<le> health_rank (hm_key (buildSiloHealthModel t))"
  using assms
  by (auto simp: candidate_score health_rank_def health_key_cases split: if_splits SiloHealthKey.splits)

lemma assigned_candidate_silo:
  assumes "buildAssignedSiloViewModel tz silos (dispatch_candidates loc silos task) task runs = Some a"
    and "as_candidate a = Some c"
  shows "dc_silo c \<in> set silos" and "c = buildSiloDispatchCandidate (dc_silo c) task"
    and "ss_slug (dc_silo c) = te_silo_slug (as_run a)"
proof -
  let ?slug = "te_silo_slug (as_run a)"
  from assms(1) have a: "as_candidate a =
      or_else (List.find (\<lambda>item. ss_slug (dc_silo item) = ?slug) (dispatch_candidates loc silos task))
        (map_option (\<lambda>silo. buildSiloDispatchCandidate silo task)
          (List.find (\<lambda>item. ss_slug item = ?slug) silos))"
    by (auto simp: buildAssignedSiloViewModel_def Let_def split: option.splits)
  have "dc_silo c \<in> set silos \<and> c = buildSiloDispatchCandidate (dc_silo c) task
      \<and> ss_slug (dc_silo c) = ?slug"
  proof (cases "List.find (\<lambda>item. ss_slug (dc_silo item) = ?slug) (dispatch_candidates loc silos task)")
    case None
    with a assms(2) obtain s where "List.find (\<lambda>item. ss_slug item = ?slug) silos = Some s"
      and "c = buildSiloDispatchCandidate s task"
      by (cases "List.find (\<lambda>item. ss_slug item = ?slug) silos") auto
    then show ?thesis by (auto dest!: find_Some_pred)
  next
    case (Some c')
    with a assms(2) find_Some_pred [OF Some] show ?thesis by (auto simp: set_dispatch_candidates)
  qed
  then show "dc_silo c \<in> set silos" "c = buildSiloDispatchCandidate (dc_silo c) task"
    "ss_slug (dc_silo c) = te_silo_slug (as_run a)" by blast+
qed

section \<open>Properties\<close>

text \<open>Silos used in the examples.\<close>

definition sample_silo :: "string \<Rightarrow> silo_status \<Rightarrow> bool \<Rightarrow> int \<Rightarrow> int \<Rightarrow> int \<Rightarrow> SiloSummary" where
  "sample_silo slug status symphony active blocked failed =
     \<lparr>ss_slug = slug, ss_name = slug, ss_blueprint_slug = ''bp'', ss_blueprint_version = ''1'',
      ss_status = status, ss_enable_symphony = symphony, ss_enable_telemetry = False,
      ss_role_count = 1, ss_active_run_count = active, ss_blocked_run_count = blocked,
      ss_failed_run_count = failed, ss_last_activity_at = None\<rparr>"

definition by_length :: "string \<Rightarrow> string \<Rightarrow> int" where
  "by_length = ascending (\<lambda>s. int (length s))"

lemma by_length_consistent: "consistent_comparator by_length"
  unfolding by_length_def by (rule by_key_asc.consistent_comparator_axioms)

text \<open>C25: the dispatch candidates of a task are exactly the candidates of the symphony-enabled
  silos, once each, ordered by score and then by name, for every consistent collation.\<close>

theorem dispatch_candidates_ranked:
  assumes "consistent_comparator loc"
  shows "mset (tv_candidates (buildTaskDispatchViewModel loc tz silos task runs slug)) =
           image_mset (\<lambda>s. buildSiloDispatchCandidate s task) (mset (filter ss_enable_symphony silos))
       \<and> sorted_wrt (\<lambda>a b. dc_score a < dc_score b
             \<or> dc_score a = dc_score b \<and> loc (ss_name (dc_silo a)) (ss_name (dc_silo b)) \<le> 0)
           (tv_candidates (buildTaskDispatchViewModel loc tz silos task runs slug))"
  using consistent_comparator.sorted_js_sort [OF dispatch_order_consistent [OF assms]]
  by (simp add: buildTaskDispatchViewModel_def Let_def dispatch_candidates_def dispatch_order_le
      candidate_name_def)

theorem dispatch_candidates_ranked_witness:
  "length (tv_candidates (buildTaskDispatchViewModel by_length (\<lambda>t. t)
     [sample_silo ''busy'' Active True 2 0 0, sample_silo ''off'' Active False 0 0 0,
      sample_silo ''idle'' Active True 0 0 0] None [] None)) = 2"
proof -
  note dispatch_candidates_ranked [OF by_length_consistent, of "\<lambda>t. t"
      "[sample_silo ''busy'' Active True 2 0 0, sample_silo ''off'' Active False 0 0 0,
        sample_silo ''idle'' Active True 0 0 0]" None "[]" None, THEN conjunct1]
  then have "size (mset (tv_candidates (buildTaskDispatchViewModel by_length (\<lambda>t. t)
     [sample_silo ''busy'' Active True 2 0 0, sample_silo ''off'' Active False 0 0 0,
      sample_silo ''idle'' Active True 0 0 0] None [] None))) = 2"
    by (simp only:) (simp add: sample_silo_def)
  then show ?thesis by simp
qed

text \<open>while every silo carries fewer than ten active runs, a ready silo is offered before a
  busy one, a busy one before one that needs setup, and those before silos under pressure.\<close>

theorem ready_silos_first:
  assumes "consistent_comparator loc"
    and counts: "\<forall>s \<in> set silos. 0 \<le> ss_blocked_run_count s \<and> 0 \<le> ss_failed_run_count s
                   \<and> ss_active_run_count s < 10"
  shows "sorted_wrt (\<lambda>a b. health_rank (hm_key (dc_health a)) \<le> health_rank (hm_key (dc_health b)))
           (dispatch_candidates loc silos task)"
proof -
  let ?cs = "dispatch_candidates loc silos task"
  have "sorted_wrt (\<lambda>a b. dispatch_order loc a b \<le> 0) ?cs"
    unfolding dispatch_candidates_def
    by (rule consistent_comparator.sorted_js_sort [OF dispatch_order_consistent [OF assms(1)]])
  then show ?thesis
  proof (rule sorted_wrt_mono_rel [rotated])
    fix a b
    assume "a \<in> set ?cs" "b \<in> set ?cs" "dispatch_order loc a b \<le> 0"
    then obtain s t where st: "s \<in> set silos" "t \<in> set silos"
        "a = buildSiloDispatchCandidate s task" "b = buildSiloDispatchCandidate t task"
        "dc_score a \<le> dc_score b"
      by (auto simp: set_dispatch_candidates dispatch_order_le)
    with counts show "health_rank (hm_key (dc_health a)) \<le> health_rank (hm_key (dc_health b))"
      using score_rank_mono [of s t task] by auto
  qed
qed

theorem ready_silos_first_witness:
  "sorted_wrt (\<lambda>a b. health_rank (hm_key (dc_health a)) \<le> health_rank (hm_key (dc_health b)))
     (dispatch_candidates by_length
       [sample_silo ''setup'' Draft True 0 0 0, sample_silo ''busy'' Active True 9 0 0] None)"
  by (rule ready_silos_first [OF by_length_consistent]) (simp add: sample_silo_def)

text \<open>the bands overlap above ten active runs: a busy silo with more than ten active runs
  is ranked behind any silo that is not set up at all.\<close>

theorem overloaded_busy_silo_behind_setup:
  assumes "hm_key (buildSiloHealthModel s) = Busy" and "10 < ss_active_run_count s"
    and "ss_status t \<noteq> Active"
  shows "dispatch_order loc (buildSiloDispatchCandidate t task) (buildSiloDispatchCandidate s task) < 0"
proof -
  from assms(3) have "hm_key (buildSiloHealthModel t) = NeedsSetup" by (simp add: health_key_cases)
  with assms(1,2) show ?thesis
    by (simp add: dispatch_order_def cmp_then_def ascending_def candidate_score)
qed

theorem overloaded_busy_silo_behind_setup_witness:
  "dispatch_order by_length
     (buildSiloDispatchCandidate (sample_silo ''draft'' Draft True 0 0 0) None)
     (buildSiloDispatchCandidate (sample_silo ''busy'' Active True 11 0 0) None) < 0"
  by (rule overloaded_busy_silo_behind_setup) (simp_all add: sample_silo_def health_key_cases)

text \<open>The selected candidate is the candidate of one of the given silos; a selected slug
  that names an offered silo is honoured, and without any offered silo and without a run
  that names a known silo nothing is selected.\<close>

theorem selected_candidate_choice:
  assumes "tv_selectedCandidate (buildTaskDispatchViewModel loc tz silos task runs sel) = Some c"
  shows "dc_silo c \<in> set silos \<and> c = buildSiloDispatchCandidate (dc_silo c) task
       \<and> (\<forall>s \<in> set silos. ss_enable_symphony s \<longrightarrow> sel = Some (ss_slug s) \<longrightarrow> ss_slug (dc_silo c) = ss_slug s)"
proof -
  let ?cs = "dispatch_candidates loc silos task"
  let ?p = "\<lambda>c. Some (ss_slug (dc_silo c)) = sel"
  show ?thesis
  proof (cases "List.find ?p ?cs")
    case (Some c')
    with assms have "c' = c" by (simp add: buildTaskDispatchViewModel_def Let_def)
    with find_Some_pred [OF Some] show ?thesis by (auto simp: set_dispatch_candidates)
  next
    case None
    then have no: "\<forall>s \<in> set silos. ss_enable_symphony s \<longrightarrow> sel \<noteq> Some (ss_slug s)"
      by (auto simp: find_None_iff set_dispatch_candidates)
    let ?a = "buildAssignedSiloViewModel tz silos ?cs task runs"
    from None assms have sel: "or_else (Option.bind ?a as_candidate) (js_first ?cs) = Some c"
      by (simp add: buildTaskDispatchViewModel_def Let_def)
    have "dc_silo c \<in> set silos \<and> c = buildSiloDispatchCandidate (dc_silo c) task"
    proof (cases "Option.bind ?a as_candidate")
      case None
      with sel have "c \<in> set ?cs" by (auto simp: js_first_Some_iff)
      then show ?thesis by (auto simp: set_dispatch_candidates)
    next
      case (Some c')
      with sel have "c' = c" by simp
      with Some obtain a where "?a = Some a" "as_candidate a = Some c" by (auto simp: bind_eq_Some_conv)
      then show ?thesis using assigned_candidate_silo by blast
    qed
    with no show ?thesis by blast
  qed
qed

theorem selected_candidate_choice_witness:
  "ss_enable_symphony (dc_silo (buildSiloDispatchCandidate (sample_silo ''a'' Active True 0 0 0) None))
   \<and> dc_silo (buildSiloDispatchCandidate (sample_silo ''a'' Active True 0 0 0) None)
       \<in> set [sample_silo ''a'' Active True 0 0 0]"
proof -
  have "tv_selectedCandidate (buildTaskDispatchViewModel by_length (\<lambda>t. t)
      [sample_silo ''a'' Active True 0 0 0] None [] (Some ''a''))
      = Some (buildSiloDispatchCandidate (sample_silo ''a'' Active True 0 0 0) None)"
    by (simp add: buildTaskDispatchViewModel_def Let_def dispatch_candidates_def sample_silo_def)
  from selected_candidate_choice [OF this] show ?thesis by (simp add: sample_silo_def)
qed

text \<open>The silo of the last run is selected even when it is not symphony-enabled, although it is
  not among the candidates that are offered.\<close>

lemma selected_candidate_not_offered:
  assumes "buildAssignedSiloViewModel tz [s] [] task runs = Some a" and "as_candidate a = Some c"
    and "\<not> ss_enable_symphony s"
  shows "tv_selectedCandidate (buildTaskDispatchViewModel loc tz [s] task runs None) = Some c
       \<and> tv_candidates (buildTaskDispatchViewModel loc tz [s] task runs None) = []"
  using assms by (simp add: buildTaskDispatchViewModel_def Let_def dispatch_candidates_def)

text \<open>the run a task is attached to is one of its runs: an active one if there is any, and
  among the runs of that kind the one updated last and then created last.\<close>

theorem picked_run_is_current:
  assumes "pickAssignedRun tz runs = Some r"
  shows "r \<in> set runs \<and> (\<forall>q \<in> set runs. active_run q \<longrightarrow> active_run r)
       \<and> (\<forall>q \<in> set runs. active_run q = active_run r \<longrightarrow>
             parseRunTime tz (rr_updated_at q) < parseRunTime tz (rr_updated_at r)
             \<or> parseRunTime tz (rr_updated_at q) = parseRunTime tz (rr_updated_at r)
               \<and> parseRunTime tz (rr_created_at q) \<le> parseRunTime tz (rr_created_at r))"
proof -
  from assms obtain rest where sorted: "js_sort (assignment_order tz) runs = r # rest"
    by (auto simp: pickAssignedRun_def js_first_Some_iff split: if_splits)
  then have "set runs = set (r # rest)" by (metis set_js_sort)
  then have mem: "r \<in> set runs" by simp
  have least: "assignment_order tz r q \<le> 0" if "q \<in> set runs" for q
    by (rule run_order.js_sort_hd_least [OF sorted that])
  have "active_run r" if "q \<in> set runs" "active_run q" for q
    using least [OF that(1)] that(2) by (auto simp: assignment_order_def Let_def split: if_splits)
  moreover have "parseRunTime tz (rr_updated_at q) < parseRunTime tz (rr_updated_at r)
      \<or> parseRunTime tz (rr_updated_at q) = parseRunTime tz (rr_updated_at r)
        \<and> parseRunTime tz (rr_created_at q) \<le> parseRunTime tz (rr_created_at r)"
    if "q \<in> set runs" "active_run q = active_run r" for q
    using least [OF that(1)] that(2)
    by (auto simp: assignment_order_def Let_def cmp_then_def descending_def split: if_splits)
  ultimately show ?thesis using mem by blast
qed

definition sample_run :: "string \<Rightarrow> string \<Rightarrow> string \<Rightarrow> TaskExecutionRunSnapshot" where
  "sample_run i status updated =
     \<lparr>rr_id = i, rr_board_id = ''b'', rr_task_id = ''t'', rr_status = status,
      rr_created_at = ''2026-03-01'', rr_started_at = None, rr_completed_at = None,
      rr_updated_at = updated, rr_summary = None, rr_branch_name = None, rr_pr_url = None,
      rr_issue_identifier = None, rr_runner_kind = None, rr_completion_kind = None,
      rr_failure_reason = None, rr_block_reason = None, rr_cancel_reason = None,
      rr_stall_reason = None, rr_last_event = None, rr_last_message = None, rr_session_id = None,
      rr_turn_count = None, rr_duration_ms = None, rr_error_message = None,
      te_organization_id = ''o'', te_silo_id = ''s'', te_silo_slug = ''silo'',
      te_requested_by_user_id = None, te_requested_by_agent_id = None, te_role_slug = ''r'',
      te_task_snapshot = None, te_dispatch_payload = None, te_result_payload = None,
      te_external_run_id = None, te_workspace_path = None\<rparr>"

theorem picked_run_is_current_witness:
  "active_run (sample_run ''2'' ''running'' ''2026-03-01'')"
proof -
  let ?runs = "[sample_run ''1'' ''failed'' ''2026-03-02'', sample_run ''2'' ''running'' ''2026-03-01'']"
  have "pickAssignedRun (\<lambda>t. t) ?runs = Some (sample_run ''2'' ''running'' ''2026-03-01'')"
    by (simp add: pickAssignedRun_def assignment_order_def active_run_def sample_run_def
        ACTIVE_ASSIGNMENT_STATUSES_def)
  from picked_run_is_current [OF this] show ?thesis
    by (simp add: active_run_def sample_run_def ACTIVE_ASSIGNMENT_STATUSES_def)
qed

text \<open>The dashboard badge names the worst health class that occurs among the silos.\<close>

theorem dashboard_badge_worst:
  "hb_text (dv_badge (buildDashboardSiloHealthViewModel silos)) =
     (if silos = [] then ''No silos''
      else if \<exists>s \<in> set silos. hm_key (buildSiloHealthModel s) = Blocked then ''Blocked''
      else if \<exists>s \<in> set silos. hm_key (buildSiloHealthModel s) = Degraded then ''Degraded''
      else if \<exists>s \<in> set silos. hm_key (buildSiloHealthModel s) = NeedsSetup then ''Needs setup''
      else if \<exists>s \<in> set silos. hm_key (buildSiloHealthModel s) = Busy then ''Operational''
      else ''Healthy'')"
proof -
  have pos: "0 < with_key k silos \<longleftrightarrow> (\<exists>s \<in> set silos. hm_key (buildSiloHealthModel s) = k)" for k
  proof -
    have "0 < with_key k silos \<longleftrightarrow> with_key k silos \<noteq> 0"
      using with_key_nonneg [of k silos] by linarith
    then show ?thesis by (simp add: with_key_zero)
  qed
  show ?thesis
    by (simp add: buildDashboardSiloHealthViewModel_def Let_def dashboard_badge_def
        summarizeSiloHealth_eq pos)
qed

text \<open>the silo the dashboard links to is the first of those with the highest score, that is
  the one that most needs attention; there is none exactly when there are no silos.\<close>

theorem dashboard_primary_silo:
  "(case dv_primarySiloSlug (buildDashboardSiloHealthViewModel silos) of
      None \<Rightarrow> silos = []
    | Some slug \<Rightarrow> \<exists>s \<in> set silos. ss_slug s = slug \<and> (\<forall>t \<in> set silos. posture_score t \<le> posture_score s))"
proof (cases "js_sort (descending posture_score) silos")
  case Nil
  then show ?thesis by (simp add: buildDashboardSiloHealthViewModel_def Let_def)
next
  case (Cons s rest)
  then have "set silos = set (s # rest)" by (metis set_js_sort)
  moreover have "\<forall>t \<in> set silos. posture_score t \<le> posture_score s"
    using by_key_desc.js_sort_hd_least [OF Cons] by (auto simp: descending_def)
  ultimately show ?thesis
    using Cons by (auto simp: buildDashboardSiloHealthViewModel_def Let_def)
qed

theorem dashboard_primary_silo_witness:
  "case dv_primarySiloSlug (buildDashboardSiloHealthViewModel
      [sample_silo ''a'' Active True 0 0 0, sample_silo ''b'' Active True 0 2 0]) of
     None \<Rightarrow> False
   | Some slug \<Rightarrow> \<exists>s \<in> set [sample_silo ''a'' Active True 0 0 0, sample_silo ''b'' Active True 0 2 0].
       ss_slug s = slug \<and> posture_score (sample_silo ''b'' Active True 0 2 0) \<le> posture_score s"
  using dashboard_primary_silo [of "[sample_silo ''a'' Active True 0 0 0, sample_silo ''b'' Active True 0 2 0]"]
  by (auto split: option.splits)

text \<open>the health counters of the overview partition the silos: each counter is the number of
  silos in its class and together they make up the total.\<close>

theorem overview_counts_partition:
  "let v = buildSiloOverviewSummaryViewModel silos in
     ov_total v = int (length silos)
     \<and> ov_healthy v + ov_busy v + ov_blocked v + ov_degraded v + ov_needsSetup v = ov_total v
     \<and> ov_blocked v = int (length (filter (\<lambda>s. ss_status s = Active \<and> ss_blocked_run_count s > 0) silos))
     \<and> ov_needsSetup v = int (length (filter (\<lambda>s. ss_status s \<noteq> Active) silos))"
proof -
  have "with_key Blocked silos
      = int (length (filter (\<lambda>s. ss_status s = Active \<and> ss_blocked_run_count s > 0) silos))"
    unfolding with_key_def by (intro arg_cong [where f = "\<lambda>l. int (length l)"] filter_cong)
      (auto simp: health_key_cases)
  moreover have "with_key NeedsSetup silos = int (length (filter (\<lambda>s. ss_status s \<noteq> Active) silos))"
    unfolding with_key_def by (intro arg_cong [where f = "\<lambda>l. int (length l)"] filter_cong)
      (auto simp: health_key_cases)
  ultimately show ?thesis
    using with_key_total [of silos]
    by (simp add: buildSiloOverviewSummaryViewModel_def summarizeSiloHealth_eq Let_def)
qed

text \<open>The cut to three next actions never drops one: each of the three groups adds at most
  one action, and the first one is the blocked-run action exactly when runs are blocked.\<close>

theorem next_actions_complete:
  "buildSiloNextActions detail h = workload_actions detail @ setup_actions detail @ load_actions detail h
   \<and> (map_option na_title (js_first (buildSiloNextActions detail h)) = Some ''Resolve blocked runs''
        \<longleftrightarrow> workload_count ws_blocked_run_count detail > 0)"
proof -
  have "length (workload_actions detail) \<le> 1" "length (setup_actions detail) \<le> 1"
    "length (load_actions detail h) \<le> 1"
    by (auto simp: workload_actions_def setup_actions_def load_actions_def split: option.split)
  then have eq: "buildSiloNextActions detail h =
      workload_actions detail @ setup_actions detail @ load_actions detail h"
    by (simp add: buildSiloNextActions_def)
  have "map_option na_title (js_first (setup_actions detail @ load_actions detail h))
      \<noteq> Some ''Resolve blocked runs''"
    by (auto simp: setup_actions_def load_actions_def split: option.split)
  then show ?thesis unfolding eq by (auto simp: workload_actions_def)
qed

end
