(* ===== verification/RuntimeFeed.thy ===== *)
theory RuntimeFeed
  imports RuntimeRuns
begin

text \<open>
  The second half of \<open>src/lib/runtime-runs.ts\<close>: what the activity feed shows for a
  run event. The message of an event is split into summary lines and labelled detail
  rows; the payload (a value of type \<open>unknown\<close>) gives detail rows, a summary and a
  fallback sentence; the status is read from the payload, the event type or the message.
\<close>

section \<open>Messages\<close>

definition detailLabels :: "string list" where
  "detailLabels = [''PR #'', ''PR:'', ''Tokens:'', ''Branch:'', ''Workspace:'', ''External run:'', ''Error:'']"

definition matched_label :: "string \<Rightarrow> string option" where
  "matched_label line = List.find (\<lambda>label. starts_with line label) detailLabels"

text \<open>\<open>label.replace(/:$/, "")\<close>\<close>

definition drop_final_colon :: "string \<Rightarrow> string" where
  "drop_final_colon s = (if s \<noteq> [] \<and> last s = CHR '':'' then butlast s else s)"

definition label_detail :: "string \<Rightarrow> string \<Rightarrow> detail_row" where
  "label_detail label line =
     (let value = trim (drop (length label) line)
      in row (drop_final_colon label) (if value = [] then DASH else value))"

fun message_lines :: "string list \<Rightarrow> string list \<times> detail_row list" where
  "message_lines [] = ([], [])"
| "message_lines (rawLine # rest) =
     (let line = trim rawLine; (summary, details) = message_lines rest
      in if line = [] then (summary, details)
         else case matched_label line of
                None \<Rightarrow> (line # summary, details)
              | Some label \<Rightarrow> (summary, label_detail label line # details))"

definition extractRuntimeRunMessageParts :: "string \<Rightarrow> string \<times> detail_row list" where
  "extractRuntimeRunMessageParts message =
     (let (summary, details) = message_lines (split_char (CHR 0x0A) message)
      in (join [CHR 0x0A] summary, details))"

section \<open>Payloads\<close>

definition parseRuntimeRunActivityPayload :: "js \<Rightarrow> js_record option" where
  "parseRuntimeRunActivityPayload payload = as_record payload"

text \<open>\<open>new Intl.NumberFormat("en-US").format(x)\<close>: groups of three, at most three decimals.\<close>

fun group_digits :: "string \<Rightarrow> string" where
  "group_digits (a # b # c # d # rest) = a # b # c # CHR '','' # group_digits (d # rest)"
| "group_digits s = s"

definition three_digits :: "int \<Rightarrow> string" where
  "three_digits n = map (\<lambda>k. digit_char (nat (n div k mod 10))) [100, 10, 1]"

definition format_en_us :: "rat \<Rightarrow> string" where
  "format_en_us q =
     (let n = \<lfloor>\<bar>q\<bar> * 1000 + 1 / 2\<rfloor>; i = n div 1000; f = strip_trailing (CHR ''0'') (three_digits (n mod 1000))
      in (if q < 0 then ''-'' else []) @ rev (group_digits (rev (show_int i)))
         @ (if f = [] then [] else ''.'' @ f))"

definition string_row :: "js_record \<Rightarrow> string \<Rightarrow> string \<Rightarrow> detail_row list" where
  "string_row r key label =
     (case trimmed_string (get_prop r key) of None \<Rightarrow> [] | Some v \<Rightarrow> [row label v])"

definition number_row :: "js_record \<Rightarrow> string \<Rightarrow> string \<Rightarrow> (rat \<Rightarrow> string) \<Rightarrow> detail_row list" where
  "number_row r key label fmt =
     (case as_finite (get_prop r key) of None \<Rightarrow> [] | Some q \<Rightarrow> [row label (fmt q)])"

definition extractRuntimeRunDetailsFromPayload :: "js \<Rightarrow> detail_row list" where
  "extractRuntimeRunDetailsFromPayload payload =
     (case parseRuntimeRunActivityPayload payload of
        None \<Rightarrow> []
      | Some p \<Rightarrow>
          number_row p ''pull_request'' ''PR #'' (\<lambda>q. show_int (rat_trunc q))
          @ string_row p ''pr_url'' ''PR''
          @ (if trimmed_string (get_prop p ''branch_name'') \<noteq> None
             then string_row p ''branch_name'' ''Branch'' else string_row p ''branch_hint'' ''Branch'')
          @ string_row p ''workspace_path'' ''Workspace''
          @ string_row p ''external_run_id'' ''External run''
          @ string_row p ''issue_identifier'' ''Issue''
          @ string_row p ''runner_kind'' ''Runner''
          @ string_row p ''completion_kind'' ''Completion''
          @ number_row p ''turn_count'' ''Turns'' (\<lambda>q. show_int (rat_trunc q))
          @ string_row p ''session_id'' ''Session''
          @ string_row p ''last_event'' ''Event''
          @ number_row p ''duration_ms'' ''Duration'' (\<lambda>q. formatRuntimeDurationMs (Fin q))
          @ number_row p ''total_tokens'' ''Tokens'' format_en_us
          @ string_row p ''error_message'' ''Error'')"

definition runtimeRunSummaryFromPayload :: "js \<Rightarrow> string option" where
  "runtimeRunSummaryFromPayload payload =
     (case parseRuntimeRunActivityPayload payload of
        None \<Rightarrow> None
      | Some p \<Rightarrow> trimmed_string (get_prop p ''summary''))"

text \<open>\<open>id.slice(0, 8)\<close> on a trimmed id.\<close>

definition short_id :: "string option \<Rightarrow> string option" where
  "short_id = map_option (take 8)"

abbreviation tick :: "string \<Rightarrow> string" where
  "tick s \<equiv> ''`'' @ s @ ''`''"

definition runtimeRunFallbackSummary :: "string \<Rightarrow> js \<Rightarrow> string option" where
  "runtimeRunFallbackSummary eventType payload =
     (case parseRuntimeRunActivityPayload payload of
        None \<Rightarrow> None
      | Some p \<Rightarrow>
          (let runShortId = or_else (trimmed_string (get_prop p ''run_short_id''))
                                    (short_id (trimmed_string (get_prop p ''run_id'')));
               status = trimmed_string (get_prop p ''status'');
               siloSlug = trimmed_string (get_prop p ''silo_slug'');
               roleSlug = trimmed_string (get_prop p ''role_slug'')
           in if eventType = ''task.execution_run.created'' then
                (let destination = (case (siloSlug, roleSlug) of
                                      (Some s, Some r) \<Rightarrow> Some (s @ ''/'' @ r)
                                    | _ \<Rightarrow> or_else roleSlug siloSlug)
                 in case (runShortId, destination) of
                      (Some i, Some d) \<Rightarrow> Some (''Queued Symphony run '' @ tick i @ '' for '' @ d @ ''.'')
                    | (Some i, None) \<Rightarrow> Some (''Queued Symphony run '' @ tick i @ ''.'')
                    | (None, Some d) \<Rightarrow> Some (''Queued Symphony run for '' @ d @ ''.'')
                    | (None, None) \<Rightarrow> Some ''Queued Symphony run.'')
              else if eventType = ''task.execution_run.retried'' then
                (case (short_id (trimmed_string (get_prop p ''retried_from_run_id'')), runShortId) of
                   (Some old, Some i) \<Rightarrow> Some (''Retried Symphony run '' @ tick old @ '' as '' @ tick i @ ''.'')
                 | (None, Some i) \<Rightarrow> Some (''Retried Symphony run as '' @ tick i @ ''.'')
                 | (_, None) \<Rightarrow> Some ''Retried Symphony run.'')
              else if eventType = ''task.execution_run.dispatched'' then
                (case (runShortId, trimmed_string (get_prop p ''adapter_mode'')) of
                   (Some i, Some mode) \<Rightarrow>
                     Some (''Dispatched Symphony run '' @ tick i @ '' via '' @ mode @ '' adapter.'')
                 | (Some i, None) \<Rightarrow> Some (''Dispatched Symphony run '' @ tick i @ ''.'')
                 | (None, _) \<Rightarrow> Some ''Dispatched Symphony run.'')
              else if eventType = ''task.execution_run.updated'' \<or> eventType = ''task.execution_run.report'' then
                (case (runShortId, status) of
                   (Some i, Some s) \<Rightarrow> Some (''Symphony run '' @ tick i @ '' is '' @ s @ ''.'')
                 | (None, Some s) \<Rightarrow> Some (''Symphony run is '' @ s @ ''.'')
                 | (Some i, None) \<Rightarrow> Some (''Symphony run '' @ tick i @ '' updated.'')
                 | (None, None) \<Rightarrow> None)
              else None))"

section \<open>Status of an event\<close>

definition knownStatuses :: "string list" where
  "knownStatuses = [''succeeded'', ''failed'', ''cancelled'', ''blocked'', ''running'', ''dispatching'', ''queued'']"

definition mentions_status :: "string \<Rightarrow> string \<Rightarrow> bool" where
  "mentions_status normalized status \<longleftrightarrow>
     str_includes normalized ('' '' @ status @ '' '') \<or> starts_with normalized status
     \<or> str_includes normalized (status @ ''.'')"

definition inferRuntimeRunStatusFromEvent :: "string \<Rightarrow> string option \<Rightarrow> js \<Rightarrow> string option" where
  "inferRuntimeRunStatusFromEvent eventType message payload =
     (let payloadStatus = (case parseRuntimeRunActivityPayload payload of
                             None \<Rightarrow> None | Some p \<Rightarrow> trimmed_string (get_prop p ''status''))
      in if payloadStatus \<noteq> None then payloadStatus
         else if eventType = ''task.execution_run.created'' then Some ''queued''
         else if eventType = ''task.execution_run.retried'' then Some ''queued''
         else if eventType = ''task.execution_run.dispatched'' then Some ''dispatching''
         else List.find (mentions_status (to_lower (coalesce message []))) knownStatuses)"

record feed_content =
  fc_status :: "string option"
  fc_summary :: string
  fc_details :: "detail_row list"

definition resolveRuntimeRunFeedContent :: "string \<Rightarrow> string option \<Rightarrow> js \<Rightarrow> feed_content" where
  "resolveRuntimeRunFeedContent eventType message payload =
     (let normalizedMessage = trim (coalesce message []);
          parsedMessage = (if normalizedMessage \<noteq> []
                           then Some (extractRuntimeRunMessageParts normalizedMessage) else None);
          details = extractRuntimeRunDetailsFromPayload payload
      in \<lparr>fc_status = inferRuntimeRunStatusFromEvent eventType (Some normalizedMessage) payload,
          fc_summary =
            coalesce (runtimeRunSummaryFromPayload payload)
              (coalesce (runtimeRunFallbackSummary eventType payload)
                (coalesce (map_option fst parsedMessage) normalizedMessage)),
          fc_details = (if details \<noteq> [] then details
                        else coalesce (map_option snd parsedMessage) [])\<rparr>)"

end
