(* ===== verification/JsErrors.thy ===== *)
theory JsErrors
  imports JsValue "HOL-Library.Monad_Syntax"
begin

text \<open>
  Computations that may throw, and the conversions of the standard library that the
  activity feed applies to values of type \<open>unknown\<close>. A computation is an option:
  \<open>None\<close> stands for a thrown \<open>TypeError\<close>, and \<open>do\<close> blocks are
  statements in order. \<open>js_returns\<close> collects the rules that show that a block
  reaches its \<open>return\<close>.
\<close>

section \<open>Throwing and returning\<close>

definition returns :: "'a option \<Rightarrow> bool" where
  "returns m \<longleftrightarrow> m \<noteq> None"

lemma returns_Some [js_returns, simp]: "returns (Some x)"
  by (simp add: returns_def)

lemma returns_bind [js_returns]: "returns m \<Longrightarrow> (\<And>x. m = Some x \<Longrightarrow> returns (f x)) \<Longrightarrow> returns (m \<bind> f)"
  by (cases m) (auto simp: returns_def)

lemma returns_if [js_returns]:
  "(b \<Longrightarrow> returns m) \<Longrightarrow> (\<not> b \<Longrightarrow> returns n) \<Longrightarrow> returns (if b then m else n)"
  by simp

lemma returns_case_option [js_returns]:
  "(v = None \<Longrightarrow> returns m) \<Longrightarrow> (\<And>x. v = Some x \<Longrightarrow> returns (f x)) \<Longrightarrow>
   returns (case v of None \<Rightarrow> m | Some x \<Rightarrow> f x)"
  by (cases v) auto

lemma returns_bind_iff: "returns (m \<bind> f) \<longleftrightarrow> (\<exists>x. m = Some x \<and> returns (f x))"
  by (cases m) (auto simp: returns_def)

lemma returns_iff: "returns m \<longleftrightarrow> (\<exists>x. m = Some x)"
  by (auto simp: returns_def)

lemma returns_obtain: "returns m \<Longrightarrow> (\<And>x. m = Some x \<Longrightarrow> P) \<Longrightarrow> P"
  by (cases m) (auto simp: returns_def)

text \<open>
  What holds of every value a block may return: the postcondition goes through the block
  statement by statement.
\<close>

definition post :: "'a option \<Rightarrow> ('a \<Rightarrow> bool) \<Rightarrow> bool" where
  "post m P \<longleftrightarrow> (\<forall>x. m = Some x \<longrightarrow> P x)"

lemma post_Some [simp]: "post (Some x) P = P x"
  by (simp add: post_def)

lemma post_None [simp]: "post None P"
  by (simp add: post_def)

lemma post_bind: "(\<And>x. m = Some x \<Longrightarrow> post (f x) P) \<Longrightarrow> post (m \<bind> f) P"
  by (cases m) auto

lemma post_bind_any: "(\<And>x. post (f x) P) \<Longrightarrow> post (m \<bind> f) P"
  by (cases m) auto

lemma post_if: "(b \<Longrightarrow> post m P) \<Longrightarrow> (\<not> b \<Longrightarrow> post n P) \<Longrightarrow> post (if b then m else n) P"
  by simp

lemma post_case_option:
  "(v = None \<Longrightarrow> post m P) \<Longrightarrow> (\<And>x. v = Some x \<Longrightarrow> post (f x) P) \<Longrightarrow>
   post (case v of None \<Rightarrow> m | Some x \<Rightarrow> f x) P"
  by (cases v) auto

lemma postD: "post m P \<Longrightarrow> m = Some x \<Longrightarrow> P x"
  by (simp add: post_def)

text \<open>\<open>a || b\<close> where \<open>b\<close> is evaluated only when \<open>a\<close> is falsy\<close>

definition or_try :: "'a option option \<Rightarrow> 'a option option \<Rightarrow> 'a option option" where
  "or_try a b = do { x \<leftarrow> a; case x of None \<Rightarrow> b | Some v \<Rightarrow> Some (Some v) }"

lemma returns_or_try [js_returns]: "returns a \<Longrightarrow> returns b \<Longrightarrow> returns (or_try a b)"
  unfolding or_try_def by (intro js_returns)

section \<open>Optional trimming of an unknown field\<close>

text \<open>
  \<open>value?.trim() || null\<close> on a JSON value: only strings have the method, a value that
  is neither a string nor nullish throws.
\<close>

fun opt_trim :: "js \<Rightarrow> string option option" where
  "opt_trim Undefined = Some None"
| "opt_trim Null = Some None"
| "opt_trim (Str s) = Some (truthy_str (trim s))"
| "opt_trim _ = None"

text \<open>\<open>record?.key?.trim() || null\<close>\<close>

definition field_trim :: "js_record option \<Rightarrow> string \<Rightarrow> string option option" where
  "field_trim r key = (case r of None \<Rightarrow> Some None | Some p \<Rightarrow> opt_trim (get_prop p key))"

fun text_or_nullish :: "js \<Rightarrow> bool" where
  "text_or_nullish Undefined = True"
| "text_or_nullish Null = True"
| "text_or_nullish (Str s) = True"
| "text_or_nullish _ = False"

lemma opt_trim_returns: "returns (opt_trim v) \<longleftrightarrow> text_or_nullish v"
  by (cases v) (auto simp: returns_def)

lemma opt_trim_value: "text_or_nullish v \<Longrightarrow> opt_trim v = Some (trimmed_string v)"
  by (cases v) auto

lemma opt_trim_trimmed: "opt_trim v = Some (Some t) \<Longrightarrow> trim t = t \<and> t \<noteq> []"
  by (cases v) auto

section \<open>String conversion\<close>

text \<open>
  \<open>String(v)\<close> and \<open>`${v}`\<close>: an array joins the conversions of its elements, nullish
  ones as the empty string; an object gives its tag, unless a property of its own hides
  \<open>toString\<close> (JSON has no functions, so that throws).
\<close>

fun to_string_js :: "js \<Rightarrow> string option" where
  "to_string_js Undefined = Some ''undefined''"
| "to_string_js Null = Some ''null''"
| "to_string_js (Bool b) = Some (if b then ''true'' else ''false'')"
| "to_string_js (Num n) = Some (show_num n)"
| "to_string_js (Str s) = Some s"
| "to_string_js (Arr xs) =
     map_option (join '','') (those (map (\<lambda>x. if x = Undefined \<or> x = Null then Some [] else to_string_js x) xs))"
| "to_string_js (Obj ps) =
     (if ''toString'' \<in> set (map fst ps) then None else Some ''[object Object]'')"

section \<open>parseFloat\<close>

text \<open>The largest magnitude that does not round to infinity is below \<open>2^1024 - 2^970\<close>.\<close>

definition to_number :: "rat \<Rightarrow> jsnum" where
  "to_number q = (if 2 ^ 1024 - 2 ^ 970 \<le> q then PosInf else if q \<le> - (2 ^ 1024 - 2 ^ 970) then NegInf else Fin q)"

definition exponent_part :: "string \<Rightarrow> int" where
  "exponent_part s =
     (case s of
        [] \<Rightarrow> 0
      | e # rest \<Rightarrow>
          if e = CHR ''e'' \<or> e = CHR ''E''
          then (let neg = starts_with rest ''-'';
                    ds = takeWhile is_digit (if neg \<or> starts_with rest ''+'' then tl rest else rest)
                in (if neg then -1 else 1) * int (read_nat ds))
          else 0)"

definition parse_unsigned :: "string \<Rightarrow> rat option" where
  "parse_unsigned s =
     (let whole = takeWhile is_digit s; rest = dropWhile is_digit s;
          frac = (if starts_with rest ''.'' then takeWhile is_digit (tl rest) else []);
          rest' = (if starts_with rest ''.'' then dropWhile is_digit (tl rest) else rest);
          e = exponent_part rest'; m = of_nat (read_nat (whole @ frac)) / 10 ^ length frac
      in if whole = [] \<and> frac = [] then None
         else Some (if 0 \<le> e then m * 10 ^ nat e else m / 10 ^ nat (- e)))"

definition parse_float :: "string \<Rightarrow> jsnum" where
  "parse_float input =
     (let s = trim_start input; neg = starts_with s ''-'';
          body = (if neg \<or> starts_with s ''+'' then tl s else s)
      in if starts_with body ''Infinity'' then (if neg then NegInf else PosInf)
         else case parse_unsigned body of
                None \<Rightarrow> NaN
              | Some q \<Rightarrow> to_number (if neg then - q else q))"

end
