(* ===== verification/ActivityEvents.thy ===== *)
theory ActivityEvents
  imports RuntimeFeed JsErrors
begin

text \<open>
  \<open>src/lib/activity-events.ts\<close>: the sentence and the labelled details shown for an
  activity event, from its type, its message and its payload (JSON of unknown shape), and
  the category of the event's type. The payload parsers cast a record without looking at
  the types of its fields, so \<open>?.trim()\<close> on a field that is not a string throws:
  the functions here return an option, \<open>None\<close> for the \<open>TypeError\<close>.

  \<open>toRecord\<close> is applied once, at the top; the parsers apply it again to the record it
  gave, which changes nothing, and start from the optional record here.
\<close>

section \<open>Reading fields\<close>

definition toRecord :: "js \<Rightarrow> js_record option" where
  "toRecord v = as_record v"

definition hasString :: "js_record \<Rightarrow> string \<Rightarrow> bool" where
  "hasString p key = (case get_prop p key of Str s \<Rightarrow> trim s \<noteq> [] | _ \<Rightarrow> False)"

text \<open>The shape all payload parsers share: the record, if it has text in one of the keys.\<close>

definition with_text :: "string list \<Rightarrow> js_record option \<Rightarrow> js_record option" where
  "with_text keys payload =
     (case payload of None \<Rightarrow> None
      | Some p \<Rightarrow> if \<not> list_ex (hasString p) keys then None else Some p)"

definition parseTaskActivityPayload :: "js_record option \<Rightarrow> js_record option" where
  "parseTaskActivityPayload payload = with_text [''task_title'', ''status''] payload"

definition parseApprovalActivityPayload :: "js_record option \<Rightarrow> js_record option" where
  "parseApprovalActivityPayload payload = with_text [''action_type'', ''approval_status'', ''notification_status''] payload"

definition parseAgentActivityPayload :: "js_record option \<Rightarrow> js_record option" where
  "parseAgentActivityPayload payload = with_text [''agent_name'', ''action'', ''delivery_status''] payload"

definition parseBoardActivityPayload :: "js_record option \<Rightarrow> js_record option" where
  "parseBoardActivityPayload payload = with_text [''notification_kind'', ''board_name'', ''target_agent_name''] payload"

definition parseGatewayActivityPayload :: "js_record option \<Rightarrow> js_record option" where
  "parseGatewayActivityPayload payload = with_text [''notification_kind'', ''gateway_name'', ''action''] payload"

definition parseSiloRuntimeActivityPayload :: "js_record option \<Rightarrow> js_record option" where
  "parseSiloRuntimeActivityPayload payload = with_text [''silo_name'', ''mode'', ''operation_id''] payload"

definition parseQueueWorkerTelemetryPayload :: "js_record option \<Rightarrow> js_record option" where
  "parseQueueWorkerTelemetryPayload payload = with_text [''queue_name'', ''status''] payload"

definition parseWebhookTelemetryPayload :: "js_record option \<Rightarrow> js_record option" where
  "parseWebhookTelemetryPayload payload = with_text [''status'', ''payload_id''] payload"

definition parseSiloRequestPayload :: "js_record option \<Rightarrow> js_record option" where
  "parseSiloRequestPayload payload = with_text [''display_name'', ''status''] payload"

fun readString :: "js_record option \<Rightarrow> string list \<Rightarrow> string option" where
  "readString None keys = None"
| "readString (Some p) [] = None"
| "readString (Some p) (key # keys) =
     (case trimmed_string (get_prop p key) of None \<Rightarrow> readString (Some p) keys | Some v \<Rightarrow> Some v)"

definition finite_of :: "js \<Rightarrow> rat option" where
  "finite_of v =
     (case v of
        Num (Fin q) \<Rightarrow> Some q
      | Str s \<Rightarrow> (case parse_float (trim s) of Fin q \<Rightarrow> Some q | _ \<Rightarrow> None)
      | _ \<Rightarrow> None)"

fun readNumber :: "js_record option \<Rightarrow> string list \<Rightarrow> rat option" where
  "readNumber None keys = None"
| "readNumber (Some p) [] = None"
| "readNumber (Some p) (key # keys) =
     (case finite_of (get_prop p key) of None \<Rightarrow> readNumber (Some p) keys | Some q \<Rightarrow> Some q)"

text \<open>\<open>parsed?.key?.trim() || readString(raw, [key])\<close>\<close>

definition text_field :: "js_record option \<Rightarrow> js_record option \<Rightarrow> string \<Rightarrow> string option option" where
  "text_field parsed raw key = or_try (field_trim parsed key) (Some (readString raw [key]))"

text \<open>\<open>telemetry?.key ?? readNumber(raw, [key])\<close>: the parsed field keeps its type.\<close>

definition telemetry_value :: "js_record option \<Rightarrow> js_record option \<Rightarrow> string \<Rightarrow> js" where
  "telemetry_value parsed raw key =
     (let v = (case parsed of None \<Rightarrow> Undefined | Some p \<Rightarrow> get_prop p key)
      in if v = Undefined \<or> v = Null
         then (case readNumber raw [key] of None \<Rightarrow> Null | Some q \<Rightarrow> Num (Fin q)) else v)"

section \<open>Detail rows\<close>

definition opt_row :: "string \<times> string option \<Rightarrow> detail_row list" where
  "opt_row lv = (case snd lv of None \<Rightarrow> [] | Some v \<Rightarrow> [row (fst lv) v])"

text \<open>\<open>if (v) details.push({ label, value: v })\<close>, for each pair in turn\<close>

definition opt_rows :: "(string \<times> string option) list \<Rightarrow> detail_row list" where
  "opt_rows lvs = concat (map opt_row lvs)"

text \<open>\<open>if (v !== null && v !== undefined) details.push({ label, value: `${v}s` })\<close>\<close>

definition number_text :: "js \<Rightarrow> string \<Rightarrow> string option option" where
  "number_text v suffix =
     (if v = Undefined \<or> v = Null then Some None
      else do { s \<leftarrow> to_string_js v; Some (Some (s @ suffix)) })"

record activity_content =
  ac_summary :: string
  ac_details :: "detail_row list"
  ac_status :: "string option"

text \<open>\<open>a || b\<close> on strings\<close>

definition text_or :: "string \<Rightarrow> string \<Rightarrow> string" where
  "text_or a b = (if a = [] then b else a)"

abbreviation content :: "string \<Rightarrow> (string \<times> string option) list \<Rightarrow> activity_content" where
  "content s lvs \<equiv> \<lparr>ac_summary = s, ac_details = opt_rows lvs, ac_status = None\<rparr>"

section \<open>Board and gateway events\<close>

definition resolveBoardActivityContent ::
  "string \<Rightarrow> string \<Rightarrow> js_record option \<Rightarrow> activity_content option option" where
  "resolveBoardActivityContent eventType message payload =
     (if payload = None then Some None
      else do {
        notificationKind \<leftarrow> field_trim payload ''notification_kind'';
        notificationStatus \<leftarrow> field_trim payload ''notification_status'';
        targetAgentName \<leftarrow> field_trim payload ''target_agent_name'';
        boardName \<leftarrow> field_trim payload ''board_name'';
        sourceBoardName \<leftarrow> field_trim payload ''source_board_name'';
        groupName \<leftarrow> field_trim payload ''board_group_name'';
        error \<leftarrow> field_trim payload ''error'';
        let rows = [(''Kind'', notificationKind), (''Notify'', notificationStatus),
                    (''Agent'', targetAgentName), (''Board'', boardName),
                    (''Source'', sourceBoardName), (''Group'', groupName), (''Error'', error)];
            fallbackSummary =
              (case (starts_with eventType ''board.'', notificationKind, boardName) of
                 (True, Some k, Some b) \<Rightarrow> replace_char (CHR ''_'') (CHR '' '') k @ '' on '' @ b @ ''.''
               | _ \<Rightarrow> [])
        in if opt_rows rows = [] \<and> fallbackSummary = [] then Some None
           else Some (Some (content (text_or message (text_or fallbackSummary eventType)) rows))
      })"

definition gateway_rows ::
  "string \<Rightarrow> string option \<Rightarrow> string option \<Rightarrow> string option \<Rightarrow> string option \<Rightarrow> string option
    \<Rightarrow> string option \<Rightarrow> (string \<times> string option) list" where
  "gateway_rows eventType notificationKind notificationStatus targetAgentName boardName gatewayName action =
     (if starts_with eventType ''agent.''
      then [(''Agent'', targetAgentName), (''Action'', action), (''Delivery'', notificationStatus),
            (''Gateway'', gatewayName)]
      else [(''Kind'', notificationKind), (''Notify'', notificationStatus), (''Agent'', targetAgentName),
            (''Board'', boardName), (''Gateway'', gatewayName), (''Action'', action)])"

definition resolveGatewayActivityContent ::
  "string \<Rightarrow> string \<Rightarrow> js_record option \<Rightarrow> js_record option \<Rightarrow> js_record option
    \<Rightarrow> activity_content option option" where
  "resolveGatewayActivityContent eventType message payload agentPayload rawPayload =
     (if payload = None then Some None
      else do {
        notificationKind \<leftarrow> field_trim payload ''notification_kind'';
        notificationStatus \<leftarrow>
          or_try (field_trim payload ''notification_status'') (field_trim payload ''delivery_status'');
        targetAgentName \<leftarrow>
          or_try (field_trim agentPayload ''agent_name'')
            (or_try (field_trim payload ''target_agent_name'')
              (Some (readString rawPayload [''agent_name''])));
        boardName \<leftarrow> field_trim payload ''board_name'';
        gatewayName \<leftarrow> text_field payload rawPayload ''gateway_name'';
        action \<leftarrow> text_field payload rawPayload ''action'';
        targetKind \<leftarrow> text_field payload rawPayload ''target_kind'';
        workspacePath \<leftarrow> text_field payload rawPayload ''workspace_path'';
        sessionKey \<leftarrow>
          or_try (field_trim agentPayload ''session_key'') (text_field payload rawPayload ''session_key'');
        error \<leftarrow> or_try (field_trim agentPayload ''error'') (text_field payload rawPayload ''error'');
        let rows = gateway_rows eventType notificationKind notificationStatus targetAgentName boardName
                     gatewayName action
                   @ [(''Target'', targetKind), (''Workspace'', workspacePath), (''Session'', sessionKey),
                      (''Error'', error)];
            fallbackSummary =
              (case (starts_with eventType ''gateway.'' \<or> starts_with eventType ''agent.'',
                     or_else action notificationKind) of
                 (True, Some a) \<Rightarrow> a @ '' '' @ coalesce notificationStatus ''event'' @ ''.''
               | _ \<Rightarrow> [])
        in if opt_rows rows = [] \<and> fallbackSummary = [] then Some None
           else Some (Some (content (text_or message (text_or fallbackSummary eventType)) rows))
      })"

section \<open>Task, approval and agent events\<close>

definition taskChangeContent :: "string \<Rightarrow> string \<Rightarrow> js_record option \<Rightarrow> activity_content option" where
  "taskChangeContent eventType message payload =
     (let taskPayload = parseTaskActivityPayload payload
      in do {
        title \<leftarrow> field_trim taskPayload ''task_title'';
        status \<leftarrow> field_trim taskPayload ''status'';
        previousStatus \<leftarrow> field_trim taskPayload ''previous_status'';
        reason \<leftarrow> field_trim taskPayload ''reason'';
        dependencyTaskTitle \<leftarrow> field_trim taskPayload ''dependency_task_title'';
        let taskTitle = coalesce title ''Task'';
            summary =
              (if eventType = ''task.created'' then ''Task created: '' @ taskTitle @ ''.''
               else if eventType = ''task.status_changed'' \<and> status \<noteq> None
               then ''Task moved to '' @ the status @ '': '' @ taskTitle @ ''.''
               else if eventType = ''task.updated'' then ''Task updated: '' @ taskTitle @ ''.''
               else text_or message eventType)
        in Some (content summary
             [(''Status'', status), (''Previous'', previousStatus),
              (''Dependency'', dependencyTaskTitle), (''Reason'', reason)])
      })"

definition approvalContent :: "string \<Rightarrow> string \<Rightarrow> js_record option \<Rightarrow> activity_content option" where
  "approvalContent eventType message payload =
     (let approvalPayload = parseApprovalActivityPayload payload
      in do {
        approvalStatus \<leftarrow> field_trim approvalPayload ''approval_status'';
        actionType \<leftarrow> field_trim approvalPayload ''action_type'';
        notificationStatus \<leftarrow> field_trim approvalPayload ''notification_status'';
        error \<leftarrow> field_trim approvalPayload ''error'';
        Some (content (text_or message (replace_char (CHR ''.'') (CHR '' '') eventType @ ''.''))
          [(''Decision'', approvalStatus), (''Action'', actionType), (''Notify'', notificationStatus),
           (''Error'', error)])
      })"

definition agentContent :: "string \<Rightarrow> string \<Rightarrow> js_record option \<Rightarrow> activity_content option" where
  "agentContent eventType message payload =
     (let agentPayload = parseAgentActivityPayload payload;
          gatewayPayload = parseGatewayActivityPayload payload
      in do {
        resolved \<leftarrow> resolveGatewayActivityContent eventType message gatewayPayload agentPayload payload;
        case resolved of
          Some c \<Rightarrow> Some c
        | None \<Rightarrow> do {
            agentName \<leftarrow> text_field agentPayload payload ''agent_name'';
            action \<leftarrow> text_field agentPayload payload ''action'';
            deliveryStatus \<leftarrow> text_field agentPayload payload ''delivery_status'';
            gatewayName \<leftarrow> text_field agentPayload payload ''gateway_name'';
            targetKind \<leftarrow> text_field agentPayload payload ''target_kind'';
            workspacePath \<leftarrow> text_field agentPayload payload ''workspace_path'';
            sessionKey \<leftarrow> text_field agentPayload payload ''session_key'';
            error \<leftarrow> text_field agentPayload payload ''error'';
            Some (content (text_or message eventType)
              [(''Agent'', agentName), (''Action'', action), (''Delivery'', deliveryStatus),
               (''Gateway'', gatewayName), (''Target'', targetKind), (''Workspace'', workspacePath),
               (''Session'', sessionKey), (''Error'', error)])
          }
      })"

definition taskContent :: "string \<Rightarrow> string \<Rightarrow> js_record option \<Rightarrow> activity_content option" where
  "taskContent eventType message payload =
     (let taskPayload = parseTaskActivityPayload payload
      in do {
        taskTitle \<leftarrow> field_trim taskPayload ''task_title'';
        targetAgentName \<leftarrow> field_trim taskPayload ''target_agent_name'';
        notificationKind \<leftarrow> field_trim taskPayload ''notification_kind'';
        notificationStatus \<leftarrow> field_trim taskPayload ''notification_status'';
        error \<leftarrow> field_trim taskPayload ''error'';
        status \<leftarrow> field_trim taskPayload ''status'';
        Some (content (text_or message eventType)
          [(''Task'', taskTitle), (''Agent'', targetAgentName), (''Kind'', notificationKind),
           (''Notify'', notificationStatus), (''Status'', status), (''Error'', error)])
      })"

section \<open>Silo, queue and webhook events\<close>

definition siloRuntimeContent :: "string \<Rightarrow> string \<Rightarrow> js_record option \<Rightarrow> activity_content option" where
  "siloRuntimeContent eventType message payload =
     (let runtimePayload = parseSiloRuntimeActivityPayload payload
      in do {
        siloName \<leftarrow> text_field runtimePayload payload ''silo_name'';
        mode \<leftarrow> text_field runtimePayload payload ''mode'';
        operationId \<leftarrow> text_field runtimePayload payload ''operation_id'';
        resultCount \<leftarrow> text_field runtimePayload payload ''result_count'';
        warningCount \<leftarrow> text_field runtimePayload payload ''warning_count'';
        restartRequired \<leftarrow> text_field runtimePayload payload ''restart_required'';
        gatewayNames \<leftarrow> text_field runtimePayload payload ''gateway_names'';
        roles \<leftarrow> text_field runtimePayload payload ''roles'';
        Some (content (text_or message eventType)
          [(''Silo'', siloName), (''Mode'', mode), (''Results'', resultCount),
           (''Warnings'', warningCount), (''Restart'', restartRequired), (''Gateways'', gatewayNames),
           (''Roles'', roles), (''Operation'', operationId)])
      })"

definition siloRequestContent :: "string \<Rightarrow> js_record option \<Rightarrow> activity_content" where
  "siloRequestContent message payload =
     (let p = parseSiloRequestPayload payload;
          displayName = coalesce (readString p [''display_name'']) ''Silo request''
      in content (text_or message (''Silo request updated: '' @ displayName @ ''.''))
           [(''Status'', readString p [''status'']), (''Previous'', readString p [''previous_status'']),
            (''Priority'', readString p [''priority'']), (''Scope'', readString p [''scope'']),
            (''Shape'', readString p [''silo_kind'']), (''Demand'', readString p [''source_task_title'']),
            (''Demand status'', readString p [''source_task_status'']),
            (''Demand priority'', readString p [''source_task_priority'']),
            (''Silo'', readString p [''materialized_silo_slug''])])"

definition queueWorkerContent :: "string \<Rightarrow> string \<Rightarrow> js_record option \<Rightarrow> activity_content option" where
  "queueWorkerContent eventType message payload =
     (let telemetry = parseQueueWorkerTelemetryPayload payload
      in do {
        queueName \<leftarrow> text_field telemetry payload ''queue_name'';
        status \<leftarrow> text_field telemetry payload ''status'';
        taskType \<leftarrow> text_field telemetry payload ''task_type'';
        error \<leftarrow> text_field telemetry payload ''error'';
        attempt \<leftarrow> number_text (telemetry_value telemetry payload ''attempt'') [];
        count \<leftarrow> number_text (telemetry_value telemetry payload ''count'') [];
        throttleSeconds \<leftarrow> number_text (telemetry_value telemetry payload ''throttle_seconds'') ''s'';
        retryDelaySeconds \<leftarrow> number_text (telemetry_value telemetry payload ''retry_delay_seconds'') ''s'';
        Some (content
          (text_or message (case status of None \<Rightarrow> eventType | Some s \<Rightarrow> ''Queue worker '' @ s @ ''.''))
          [(''Queue'', queueName), (''Status'', status), (''Task type'', taskType), (''Attempt'', attempt),
           (''Count'', count), (''Throttle'', throttleSeconds), (''Retry'', retryDelaySeconds),
           (''Error'', error)])
      })"

definition webhookContent :: "string \<Rightarrow> string \<Rightarrow> js_record option \<Rightarrow> activity_content option" where
  "webhookContent eventType message payload =
     (let telemetry = parseWebhookTelemetryPayload payload
      in do {
        status \<leftarrow> text_field telemetry payload ''status'';
        payloadId \<leftarrow> text_field telemetry payload ''payload_id'';
        webhookId \<leftarrow> text_field telemetry payload ''webhook_id'';
        error \<leftarrow> text_field telemetry payload ''error'';
        attempt \<leftarrow> number_text (telemetry_value telemetry payload ''attempt'') [];
        count \<leftarrow> number_text (telemetry_value telemetry payload ''count'') [];
        durationMs \<leftarrow> number_text (telemetry_value telemetry payload ''duration_ms'') ''ms'';
        throttleSeconds \<leftarrow> number_text (telemetry_value telemetry payload ''throttle_seconds'') ''s'';
        retryDelaySeconds \<leftarrow> number_text (telemetry_value telemetry payload ''retry_delay_seconds'') ''s'';
        Some (content
          (text_or message (case status of None \<Rightarrow> eventType | Some s \<Rightarrow> ''Webhook dispatch '' @ s @ ''.''))
          [(''Status'', status), (''Payload'', payloadId), (''Webhook'', webhookId), (''Attempt'', attempt),
           (''Count'', count), (''Duration'', durationMs), (''Throttle'', throttleSeconds),
           (''Retry'', retryDelaySeconds), (''Error'', error)])
      })"

section \<open>Everything else\<close>

definition notificationContent :: "string \<Rightarrow> string \<Rightarrow> js_record option \<Rightarrow> activity_content option" where
  "notificationContent eventType message payload =
     (let boardPayload = parseBoardActivityPayload payload;
          gatewayPayload = parseGatewayActivityPayload payload
      in do {
        notificationKind \<leftarrow> or_try (field_trim boardPayload ''notification_kind'')
          (text_field gatewayPayload payload ''notification_kind'');
        notificationStatus \<leftarrow> or_try (field_trim boardPayload ''notification_status'')
          (text_field gatewayPayload payload ''notification_status'');
        targetAgentName \<leftarrow> or_try (field_trim boardPayload ''target_agent_name'')
          (text_field gatewayPayload payload ''target_agent_name'');
        boardName \<leftarrow> or_try (field_trim boardPayload ''board_name'')
          (text_field gatewayPayload payload ''board_name'');
        sourceBoardName \<leftarrow> text_field boardPayload payload ''source_board_name'';
        groupName \<leftarrow> text_field boardPayload payload ''board_group_name'';
        error \<leftarrow> or_try (field_trim boardPayload ''error'') (text_field gatewayPayload payload ''error'');
        Some (content (text_or message eventType)
          [(''Kind'', notificationKind), (''Notify'', notificationStatus), (''Agent'', targetAgentName),
           (''Board'', boardName), (''Source'', sourceBoardName), (''Group'', groupName),
           (''Error'', error)])
      })"

definition otherContent :: "string \<Rightarrow> string \<Rightarrow> js_record option \<Rightarrow> activity_content option" where
  "otherContent eventType message payload =
     (if payload = None then Some (content (text_or message eventType) [])
      else do {
        board \<leftarrow> (if starts_with eventType ''board.''
                 then resolveBoardActivityContent eventType message (parseBoardActivityPayload payload)
                 else Some None);
        case board of
          Some c \<Rightarrow> Some c
        | None \<Rightarrow> do {
            gateway \<leftarrow> resolveGatewayActivityContent eventType message
                        (parseGatewayActivityPayload payload) (parseAgentActivityPayload payload) payload;
            case gateway of
              Some c \<Rightarrow> Some c
            | None \<Rightarrow> notificationContent eventType message payload
          }
      })"

definition runContent :: "string \<Rightarrow> string \<Rightarrow> js_record option \<Rightarrow> activity_content" where
  "runContent eventType message payload =
     (let runtime = resolveRuntimeRunFeedContent eventType (Some message)
                      (case payload of None \<Rightarrow> Null | Some p \<Rightarrow> Obj p)
      in \<lparr>ac_summary = fc_summary runtime, ac_details = fc_details runtime,
          ac_status = fc_status runtime\<rparr>)"

definition resolveActivityFeedContent ::
  "string \<Rightarrow> string option \<Rightarrow> js \<Rightarrow> activity_content option" where
  "resolveActivityFeedContent eventType message payload =
     (let m = trim (coalesce message []); p = toRecord payload
      in if starts_with eventType ''task.execution_run.'' then Some (runContent eventType m p)
         else if eventType = ''task.created'' \<or> eventType = ''task.updated''
                 \<or> eventType = ''task.status_changed''
         then taskChangeContent eventType m p
         else if starts_with eventType ''approval.'' then approvalContent eventType m p
         else if starts_with eventType ''agent.'' then agentContent eventType m p
         else if starts_with eventType ''task.'' \<and> p \<noteq> None then taskContent eventType m p
         else if starts_with eventType ''silo.runtime.'' then siloRuntimeContent eventType m p
         else if starts_with eventType ''silo.request.'' then Some (siloRequestContent m p)
         else if starts_with eventType ''queue.worker.'' then queueWorkerContent eventType m p
         else if starts_with eventType ''webhook.dispatch.'' then webhookContent eventType m p
         else otherContent eventType m p)"

section \<open>Categories\<close>

datatype ActivityCategory =
    AllEvents | Runs | Runtime | Tasks | Approvals | Boards | Agents | Gateway | Chat

definition activityCategoryForEvent :: "string \<Rightarrow> ActivityCategory" where
  "activityCategoryForEvent eventType =
     (if starts_with eventType ''task.execution_run.'' then Runs
      else if eventType = ''board.chat'' \<or> eventType = ''board.command'' then Chat
      else if starts_with eventType ''task.'' then Tasks
      else if starts_with eventType ''approval.'' then Approvals
      else if starts_with eventType ''silo.request.'' then Boards
      else if starts_with eventType ''silo.runtime.'' then Runtime
      else if starts_with eventType ''queue.worker.'' then Runtime
      else if starts_with eventType ''webhook.dispatch.'' then Gateway
      else if starts_with eventType ''gateway.'' then Gateway
      else if starts_with eventType ''board.'' then Boards
      else if starts_with eventType ''agent.'' then Agents
      else AllEvents)"

section \<open>Which payloads throw\<close>

text \<open>The fields the code trims, and those it converts to text.\<close>

definition trimmed_fields :: "string list" where
  "trimmed_fields =
     [''notification_kind'', ''notification_status'', ''delivery_status'', ''target_agent_name'',
      ''agent_name'', ''board_name'', ''source_board_name'', ''board_group_name'', ''gateway_name'',
      ''action'', ''target_kind'', ''workspace_path'', ''session_key'', ''error'', ''task_title'',
      ''status'', ''previous_status'', ''reason'', ''dependency_task_title'', ''approval_status'',
      ''action_type'', ''silo_name'', ''mode'', ''operation_id'', ''result_count'', ''warning_count'',
      ''restart_required'', ''gateway_names'', ''roles'', ''queue_name'', ''task_type'',
      ''payload_id'', ''webhook_id'']"

definition number_fields :: "string list" where
  "number_fields = [''attempt'', ''count'', ''throttle_seconds'', ''retry_delay_seconds'', ''duration_ms'']"

definition well_typed_record :: "js_record \<Rightarrow> bool" where
  "well_typed_record p \<longleftrightarrow>
     list_all (\<lambda>k. text_or_nullish (get_prop p k)) trimmed_fields
     \<and> list_all (\<lambda>k. to_string_js (get_prop p k) \<noteq> None) number_fields"

definition well_typed_payload :: "js \<Rightarrow> bool" where
  "well_typed_payload payload = (case as_record payload of None \<Rightarrow> True | Some p \<Rightarrow> well_typed_record p)"

definition well_typed_opt :: "js_record option \<Rightarrow> bool" where
  "well_typed_opt p = (case p of None \<Rightarrow> True | Some r \<Rightarrow> well_typed_record r)"

lemma with_text_well_typed: "well_typed_opt p \<Longrightarrow> well_typed_opt (with_text ks p)"
  by (auto simp: with_text_def well_typed_opt_def split: option.splits if_splits)

lemmas payload_parsers =
  parseTaskActivityPayload_def parseApprovalActivityPayload_def parseAgentActivityPayload_def
  parseBoardActivityPayload_def parseGatewayActivityPayload_def parseSiloRuntimeActivityPayload_def
  parseQueueWorkerTelemetryPayload_def parseWebhookTelemetryPayload_def parseSiloRequestPayload_def

lemma returns_field_trim [js_returns]:
  assumes "well_typed_opt p" and "key \<in> set trimmed_fields"
  shows "returns (field_trim p key)"
proof (cases p)
  case (Some r)
  with assms have "text_or_nullish (get_prop r key)"
    by (auto simp: well_typed_opt_def well_typed_record_def list_all_iff)
  with Some show ?thesis by (simp add: field_trim_def opt_trim_returns)
qed (simp add: field_trim_def)

lemma returns_text_field [js_returns]:
  "well_typed_opt p \<Longrightarrow> key \<in> set trimmed_fields \<Longrightarrow> returns (text_field p raw key)"
  unfolding text_field_def by (intro js_returns) auto

lemma returns_number_text [js_returns]:
  assumes "well_typed_opt p" and "key \<in> set number_fields"
  shows "returns (number_text (telemetry_value p raw key) suffix)"
proof -
  have "returns (to_string_js (telemetry_value p raw key))"
  proof (cases p)
    case None
    then show ?thesis by (simp add: telemetry_value_def returns_def split: option.splits)
  next
    case (Some r)
    with assms have "to_string_js (get_prop r key) \<noteq> None"
      by (auto simp: well_typed_opt_def well_typed_record_def list_all_iff)
    with Some show ?thesis by (simp add: telemetry_value_def returns_def Let_def split: option.splits)
  qed
  then show ?thesis unfolding number_text_def by (intro js_returns)
qed

lemma returns_board [js_returns]:
  "well_typed_opt p \<Longrightarrow> returns (resolveBoardActivityContent e m p)"
  unfolding resolveBoardActivityContent_def Let_def
  by (intro js_returns) (simp_all add: trimmed_fields_def)

lemma returns_gateway [js_returns]:
  "well_typed_opt p \<Longrightarrow> well_typed_opt a \<Longrightarrow> returns (resolveGatewayActivityContent e m p a raw)"
  unfolding resolveGatewayActivityContent_def Let_def
  by (intro js_returns) (simp_all add: trimmed_fields_def)

lemma returns_contents:
  assumes "well_typed_opt p"
  shows "returns (taskChangeContent e m p)" and "returns (approvalContent e m p)"
    and "returns (agentContent e m p)" and "returns (taskContent e m p)"
    and "returns (siloRuntimeContent e m p)" and "returns (queueWorkerContent e m p)"
    and "returns (webhookContent e m p)" and "returns (notificationContent e m p)"
  unfolding taskChangeContent_def approvalContent_def agentContent_def taskContent_def
    siloRuntimeContent_def queueWorkerContent_def webhookContent_def notificationContent_def Let_def
    payload_parsers
  by (intro js_returns with_text_well_typed assms; simp add: trimmed_fields_def number_fields_def)+

lemma returns_other:
  "well_typed_opt p \<Longrightarrow> returns (otherContent e m p)"
  unfolding otherContent_def payload_parsers
  by (intro js_returns with_text_well_typed returns_contents; assumption)

section \<open>What a row list shows\<close>

definition shown_ok :: "string \<Rightarrow> string option \<Rightarrow> bool" where
  "shown_ok l v \<longleftrightarrow> v \<noteq> Some [] \<or> l = ''Attempt'' \<or> l = ''Count''"

definition rows_ok :: "detail_row list \<Rightarrow> bool" where
  "rows_ok rows \<longleftrightarrow> distinct (map row_label rows)
     \<and> (\<forall>r \<in> set rows. row_value r \<noteq> [] \<or> row_label r = ''Attempt'' \<or> row_label r = ''Count'')"

lemma opt_rows_simps [simp]:
  "opt_rows [] = []"
  "opt_rows ((l, None) # lvs) = opt_rows lvs"
  "opt_rows ((l, Some v) # lvs) = row l v # opt_rows lvs"
  by (simp_all add: opt_rows_def opt_row_def)

lemma opt_rows_labels: "set (map row_label (opt_rows lvs)) \<subseteq> set (map fst lvs)"
  by (force simp: opt_rows_def opt_row_def split: option.splits)

lemma opt_rows_ok:
  "distinct (map fst lvs) \<Longrightarrow> list_all (\<lambda>(l, v). shown_ok l v) lvs \<Longrightarrow> rows_ok (opt_rows lvs)"
proof (induction lvs)
  case Nil
  then show ?case by (simp add: rows_ok_def)
next
  case (Cons lv lvs)
  obtain l v where lv: "lv = (l, v)" by fastforce
  from Cons lv have ih: "rows_ok (opt_rows lvs)" and ok: "shown_ok l v"
    and new: "l \<notin> set (map row_label (opt_rows lvs))"
    using opt_rows_labels [of lvs] by auto
  show ?case
  proof (cases v)
    case None
    with lv ih show ?thesis by simp
  next
    case (Some t)
    with lv ih ok new show ?thesis by (auto simp: rows_ok_def shown_ok_def)
  qed
qed

definition textual :: "string option option \<Rightarrow> bool" where
  "textual m \<longleftrightarrow> post m (\<lambda>v. v \<noteq> Some [])"

lemma textual_field_trim: "textual (field_trim p key)"
proof (cases p)
  case (Some r)
  then show ?thesis using opt_trim_trimmed [of "get_prop r key" "[]"]
    by (auto simp: textual_def post_def field_trim_def)
qed (simp add: textual_def field_trim_def)

lemma readString_nonempty: "readString p keys \<noteq> Some []"
  by (induction p keys rule: readString.induct)
    (auto split: option.splits dest: trimmed_string_trimmed)

lemma textual_readString: "textual (Some (readString p keys))"
  by (simp add: textual_def readString_nonempty)

lemma textual_or_try: "textual a \<Longrightarrow> textual b \<Longrightarrow> textual (or_try a b)"
  unfolding textual_def or_try_def
  by (cases a) (auto simp: post_def split: option.splits)

lemma textual_text_field: "textual (text_field p raw key)"
  unfolding text_field_def by (intro textual_or_try textual_field_trim textual_readString)

lemmas textual_intros = textual_or_try textual_field_trim textual_readString textual_text_field

lemma post_textual:
  "textual m \<Longrightarrow> (\<And>x. x \<noteq> Some [] \<Longrightarrow> post (f x) P) \<Longrightarrow> post (m \<bind> f) P"
  by (cases m) (auto simp: textual_def)

text \<open>A number with a unit is not empty; without one it may be the empty string.\<close>

lemma post_number_unit:
  "u \<noteq> [] \<Longrightarrow> (\<And>x. x \<noteq> Some [] \<Longrightarrow> post (f x) P) \<Longrightarrow> post (number_text v u \<bind> f) P"
  by (cases "to_string_js v") (auto simp: number_text_def)

lemma post_number_plain:
  "(\<And>x. post (f x) P) \<Longrightarrow> post (number_text v [] \<bind> f) P"
  by (rule post_bind_any)

lemma text_or_Nil [simp]: "text_or a b = [] \<longleftrightarrow> a = [] \<and> b = []"
  by (simp add: text_or_def)

definition content_ok :: "string \<Rightarrow> string \<Rightarrow> activity_content \<Rightarrow> bool" where
  "content_ok e m c \<longleftrightarrow> ac_status c = None \<and> rows_ok (ac_details c)
     \<and> (m \<noteq> [] \<longrightarrow> ac_summary c = m) \<and> (e \<noteq> [] \<longrightarrow> ac_summary c \<noteq> [])"

lemma content_ok_text_or:
  "distinct (map fst lvs) \<Longrightarrow> list_all (\<lambda>(l, v). shown_ok l v) lvs \<Longrightarrow> (e \<noteq> [] \<longrightarrow> s \<noteq> []) \<Longrightarrow>
   content_ok e m (content (text_or m s) lvs)"
  by (simp add: content_ok_def opt_rows_ok text_or_def)

lemma board_ok: "post (resolveBoardActivityContent e m p) (\<lambda>c. case c of None \<Rightarrow> True | Some k \<Rightarrow> content_ok e m k)"
  unfolding resolveBoardActivityContent_def Let_def
  by (intro post_if post_textual textual_intros)
    (auto intro!: content_ok_text_or simp: shown_ok_def)

lemma gateway_rows_ok:
  "distinct (map fst (gateway_rows e k n t b g a
     @ [(''Target'', x), (''Workspace'', y), (''Session'', z), (''Error'', u)]))"
  by (simp add: gateway_rows_def)

lemma gateway_ok: "post (resolveGatewayActivityContent e m p a raw) (\<lambda>c. case c of None \<Rightarrow> True | Some k \<Rightarrow> content_ok e m k)"
  unfolding resolveGatewayActivityContent_def Let_def
  by (intro post_if post_textual textual_intros)
    (auto intro!: content_ok_text_or gateway_rows_ok simp: gateway_rows_def shown_ok_def)

lemma approval_ok: "post (approvalContent e m p) (content_ok e m)"
  unfolding approvalContent_def Let_def
  by (intro post_textual textual_intros)
    (auto intro!: content_ok_text_or simp: shown_ok_def)

lemma task_ok: "post (taskContent e m p) (content_ok e m)"
  unfolding taskContent_def Let_def
  by (intro post_textual textual_intros)
    (auto intro!: content_ok_text_or simp: shown_ok_def)

lemma post_optional_content:
  "post x (\<lambda>c. case c of None \<Rightarrow> True | Some k \<Rightarrow> P k) \<Longrightarrow> post y P \<Longrightarrow>
   post (do { c \<leftarrow> x; case c of Some k \<Rightarrow> Some k | None \<Rightarrow> y }) P"
  by (cases x) (auto split: option.splits)

lemma agent_ok: "post (agentContent e m p) (content_ok e m)"
  unfolding agentContent_def Let_def
  by (intro post_optional_content gateway_ok post_textual textual_intros)
    (auto intro!: content_ok_text_or simp: shown_ok_def)

lemma siloRuntime_ok: "post (siloRuntimeContent e m p) (content_ok e m)"
  unfolding siloRuntimeContent_def Let_def
  by (intro post_textual textual_intros)
    (auto intro!: content_ok_text_or simp: shown_ok_def)

lemma siloRequest_ok: "content_ok e m (siloRequestContent m p)"
  unfolding siloRequestContent_def Let_def
  by (intro content_ok_text_or) (auto simp: shown_ok_def readString_nonempty)

lemma queueWorker_ok: "post (queueWorkerContent e m p) (content_ok e m)"
  unfolding queueWorkerContent_def Let_def
  apply (rule post_textual [OF textual_text_field])+
  apply (rule post_number_plain post_number_unit, (rule list.distinct)?)+
  apply (unfold post_Some)
  apply (rule content_ok_text_or; simp add: shown_ok_def split: option.splits)
  done

lemma webhook_ok: "post (webhookContent e m p) (content_ok e m)"
  unfolding webhookContent_def Let_def
  apply (rule post_textual [OF textual_text_field])+
  apply (rule post_number_plain post_number_unit, (rule list.distinct)?)+
  apply (unfold post_Some)
  apply (rule content_ok_text_or; simp add: shown_ok_def split: option.splits)
  done

lemma notification_ok: "post (notificationContent e m p) (content_ok e m)"
  unfolding notificationContent_def Let_def
  by (intro post_textual textual_intros)
    (auto intro!: content_ok_text_or simp: shown_ok_def)

lemma other_ok: "post (otherContent e m p) (content_ok e m)"
proof -
  have "content_ok e m (content (text_or m e) [])" by (rule content_ok_text_or) auto
  then show ?thesis
    unfolding otherContent_def
    by (intro post_if post_optional_content gateway_ok notification_ok) (simp_all add: board_ok)
qed

definition task_change_event :: "string \<Rightarrow> bool" where
  "task_change_event e \<longleftrightarrow> e = ''task.created'' \<or> e = ''task.updated'' \<or> e = ''task.status_changed''"

lemma taskChange_rows:
  "post (taskChangeContent e m p) (\<lambda>c. ac_status c = None \<and> rows_ok (ac_details c))"
  unfolding taskChangeContent_def Let_def
  by (intro post_textual textual_intros) (auto intro!: opt_rows_ok simp: shown_ok_def)

lemma not_run_branch:
  assumes "\<not> starts_with e ''task.execution_run.''" and "\<not> task_change_event e"
  shows "post (resolveActivityFeedContent e m payload) (content_ok e (trim (coalesce m [])))"
  using assms unfolding resolveActivityFeedContent_def Let_def task_change_event_def
  by (auto intro: approval_ok agent_ok task_ok siloRuntime_ok siloRequest_ok queueWorker_ok webhook_ok
      other_ok)

lemma category_runs: "activityCategoryForEvent e = Runs \<longleftrightarrow> starts_with e ''task.execution_run.''"
  by (simp add: activityCategoryForEvent_def)

lemma field_trim_returns:
  "returns (field_trim p key) \<longleftrightarrow> (case p of None \<Rightarrow> True | Some r \<Rightarrow> text_or_nullish (get_prop r key))"
  by (cases p) (simp_all add: field_trim_def opt_trim_returns)

lemma approvalContent_returns:
  "returns (approvalContent e m p) \<longleftrightarrow>
   returns (field_trim (parseApprovalActivityPayload p) ''approval_status'')
   \<and> returns (field_trim (parseApprovalActivityPayload p) ''action_type'')
   \<and> returns (field_trim (parseApprovalActivityPayload p) ''notification_status'')
   \<and> returns (field_trim (parseApprovalActivityPayload p) ''error'')"
  unfolding approvalContent_def Let_def returns_bind_iff by (auto simp: returns_iff)

lemma feed_returns:
  assumes "well_typed_payload payload"
  shows "returns (resolveActivityFeedContent eventType message payload)"
proof -
  from assms have "well_typed_opt (toRecord payload)"
    by (simp add: well_typed_payload_def well_typed_opt_def toRecord_def)
  then show ?thesis
    unfolding resolveActivityFeedContent_def Let_def
    by (intro js_returns returns_contents returns_other)
qed

section \<open>Properties\<close>

text \<open>C27: the activity feed does not throw on a payload whose trimmed fields are text or missing
  and whose counters can be written as text; a payload that is not an object is always fine.\<close>

theorem activity_feed_returns:
  "well_typed_payload payload \<Longrightarrow> \<exists>c. resolveActivityFeedContent eventType message payload = Some c"
  using feed_returns by (auto simp: returns_iff)

theorem activity_feed_returns_witness:
  "\<exists>c. resolveActivityFeedContent ''queue.worker.failed'' None
      (Obj [(''queue_name'', Str ''runs''), (''attempt'', Num (Fin 3)), (''extra'', Arr [])]) = Some c"
  by (rule activity_feed_returns) code_simp

text \<open>C37: the feed throws a TypeError on an approval event exactly when its payload is accepted as
  an approval (one of its three texts is present) and one of the four fields shown is
  neither text nor missing.\<close>

theorem approval_event_throws_iff:
  assumes "starts_with eventType ''approval.''"
  shows "resolveActivityFeedContent eventType message payload = None \<longleftrightarrow>
   (\<exists>p. payload = Obj p
     \<and> (hasString p ''action_type'' \<or> hasString p ''approval_status'' \<or> hasString p ''notification_status'')
     \<and> \<not> (text_or_nullish (get_prop p ''approval_status'') \<and> text_or_nullish (get_prop p ''action_type'')
          \<and> text_or_nullish (get_prop p ''notification_status'') \<and> text_or_nullish (get_prop p ''error'')))"
proof -
  from assms obtain rest where e: "eventType = ''approval.'' @ rest" by (auto simp: starts_with_iff)
  have "resolveActivityFeedContent eventType message payload
      = approvalContent eventType (trim (coalesce message [])) (toRecord payload)"
    by (simp add: resolveActivityFeedContent_def Let_def e)
  then have "resolveActivityFeedContent eventType message payload = None \<longleftrightarrow>
      \<not> returns (approvalContent eventType (trim (coalesce message [])) (toRecord payload))"
    by (simp add: returns_def)
  then show ?thesis
    by (cases payload) (auto simp: approvalContent_returns field_trim_returns toRecord_def
        parseApprovalActivityPayload_def with_text_def)
qed

theorem approval_event_throws_iff_witness:
  "resolveActivityFeedContent ''approval.created'' None
     (Obj [(''action_type'', Str ''merge''), (''error'', Num (Fin 1))]) = None"
  by (subst approval_event_throws_iff) (simp_all add: get_prop_def hasString_def, code_simp)



end
