(* ===== verification/JsNumbers.thy ===== *)
theory JsNumbers
  imports JsErrors
begin

text \<open>
  Arithmetic on JavaScript numbers, as far as the code computes with them: NaN and the
  infinities follow the standard, a finite result is the exact rational unless it is too
  large for a double.
\<close>

fun num_neg :: "jsnum \<Rightarrow> jsnum" where
  "num_neg NaN = NaN"
| "num_neg PosInf = NegInf"
| "num_neg NegInf = PosInf"
| "num_neg (Fin q) = Fin (- q)"

fun num_add :: "jsnum \<Rightarrow> jsnum \<Rightarrow> jsnum" where
  "num_add NaN b = NaN"
| "num_add a NaN = NaN"
| "num_add PosInf NegInf = NaN"
| "num_add NegInf PosInf = NaN"
| "num_add PosInf b = PosInf"
| "num_add NegInf b = NegInf"
| "num_add (Fin p) PosInf = PosInf"
| "num_add (Fin p) NegInf = NegInf"
| "num_add (Fin p) (Fin q) = to_number (p + q)"

definition num_sub :: "jsnum \<Rightarrow> jsnum \<Rightarrow> jsnum" where
  "num_sub a b = num_add a (num_neg b)"

text \<open>The infinity with the sign of a product, or NaN for \<open>0 * Infinity\<close>.\<close>

definition inf_times :: "bool \<Rightarrow> rat \<Rightarrow> jsnum" where
  "inf_times pos q = (if q = 0 then NaN else if (0 < q) = pos then PosInf else NegInf)"

fun num_mul :: "jsnum \<Rightarrow> jsnum \<Rightarrow> jsnum" where
  "num_mul NaN b = NaN"
| "num_mul a NaN = NaN"
| "num_mul PosInf PosInf = PosInf"
| "num_mul PosInf NegInf = NegInf"
| "num_mul NegInf PosInf = NegInf"
| "num_mul NegInf NegInf = PosInf"
| "num_mul PosInf (Fin q) = inf_times True q"
| "num_mul NegInf (Fin q) = inf_times False q"
| "num_mul (Fin p) PosInf = inf_times True p"
| "num_mul (Fin p) NegInf = inf_times False p"
| "num_mul (Fin p) (Fin q) = to_number (p * q)"

text \<open>\<open>Math.pow(x, n)\<close> with a natural exponent: \<open>n = 0\<close> gives 1 even for NaN.\<close>

definition num_pow :: "jsnum \<Rightarrow> nat \<Rightarrow> jsnum" where
  "num_pow x n =
     (if n = 0 then Fin 1
      else case x of
             NaN \<Rightarrow> NaN
           | PosInf \<Rightarrow> PosInf
           | NegInf \<Rightarrow> (if even n then PosInf else NegInf)
           | Fin q \<Rightarrow> to_number (q ^ n))"

fun num_max :: "jsnum \<Rightarrow> jsnum \<Rightarrow> jsnum" where
  "num_max NaN b = NaN"
| "num_max a NaN = NaN"
| "num_max PosInf b = PosInf"
| "num_max a PosInf = PosInf"
| "num_max NegInf b = b"
| "num_max a NegInf = a"
| "num_max (Fin p) (Fin q) = Fin (max p q)"

definition num_min :: "jsnum \<Rightarrow> jsnum \<Rightarrow> jsnum" where
  "num_min a b = num_neg (num_max (num_neg a) (num_neg b))"

fun num_floor :: "jsnum \<Rightarrow> jsnum" where
  "num_floor (Fin q) = Fin (of_int \<lfloor>q\<rfloor>)"
| "num_floor x = x"

lemma num_min_simps [simp]:
  "num_min NaN b = NaN" "num_min a NaN = NaN"
  "num_min (Fin p) (Fin q) = Fin (min p q)"
  "num_min (Fin p) PosInf = Fin p"
  by (cases a; simp add: num_min_def min_def max_def)+

lemma to_number_small: "\<bar>q\<bar> < 2 ^ 1024 - 2 ^ 970 \<Longrightarrow> to_number q = Fin q"
  by (auto simp: to_number_def abs_less_iff)

lemma double_limit_bound: "(10::rat) ^ 30 < 2 ^ 1024 - 2 ^ 970"
  by simp

lemma to_number_le: "\<bar>q\<bar> \<le> 10 ^ 30 \<Longrightarrow> to_number q = Fin q"
  by (rule to_number_small) (use double_limit_bound in linarith)

lemma to_number_nonneg: "0 \<le> q \<Longrightarrow> q \<le> 300000 \<Longrightarrow> to_number q = Fin q"
  by (rule to_number_le) simp

end
