(* ===== verification/Backoff.thy ===== *)
theory Backoff
  imports JsNumbers
begin

text \<open>
  \<open>src/lib/backoff.ts\<close>: the delays of the reconnecting streams. \<open>Math.random()\<close>
  is an argument of \<open>nextDelayMs\<close>; the closure's variables are a record.
\<close>

section \<open>The code\<close>

definition clampMs :: "jsnum \<Rightarrow> int \<Rightarrow> int \<Rightarrow> int" where
  "clampMs v lo hi = (case v of Fin q \<Rightarrow> min hi (max lo (rat_trunc q)) | _ \<Rightarrow> lo)"

record ExponentialBackoffOptions =
  opt_baseMs :: "jsnum option"
  opt_factor :: "jsnum option"
  opt_maxMs :: "jsnum option"
  opt_jitter :: "jsnum option"

record ExponentialBackoff =
  bo_base :: int
  bo_factor :: jsnum
  bo_max :: int
  bo_jitter :: jsnum
  bo_attempt :: nat

definition createExponentialBackoff :: "ExponentialBackoffOptions \<Rightarrow> ExponentialBackoff" where
  "createExponentialBackoff options =
     (let base = clampMs (coalesce (opt_baseMs options) (Fin 1000)) 50 60000
      in \<lparr>bo_base = base,
          bo_factor = coalesce (opt_factor options) (Fin 2),
          bo_max = clampMs (coalesce (opt_maxMs options) (Fin (5 * 60000))) base (60 * 60000),
          bo_jitter = coalesce (opt_jitter options) (Fin (2 / 10)),
          bo_attempt = 0\<rparr>)"

definition nextDelayMs :: "rat \<Rightarrow> ExponentialBackoff \<Rightarrow> int \<times> ExponentialBackoff" where
  "nextDelayMs random b =
     (let raw = num_mul (Fin (of_int (bo_base b))) (num_pow (bo_factor b) (bo_attempt b));
          capped = num_min (Fin (of_int (bo_max b))) raw;
          normalized = clampMs capped (bo_base b) (bo_max b);
          jitterFactor = num_max (Fin 0) (bo_jitter b);
          delay = num_add (Fin (of_int normalized))
                    (num_floor (num_mul (num_mul (Fin random) jitterFactor) (Fin (of_int normalized))))
      in (clampMs delay (bo_base b) (bo_max b), b\<lparr>bo_attempt := min (bo_attempt b + 1) 64\<rparr>))"

definition reset_backoff :: "ExponentialBackoff \<Rightarrow> ExponentialBackoff" where
  "reset_backoff b = b\<lparr>bo_attempt := 0\<rparr>"

section \<open>Use of a backoff\<close>

text \<open>A stream asks for a delay after a failure and resets after a message, in any order.\<close>

inductive backoff_run :: "ExponentialBackoff \<Rightarrow> int list \<Rightarrow> ExponentialBackoff \<Rightarrow> bool" where
  start: "backoff_run b [] b"
| delay: "backoff_run b ds c \<Longrightarrow> 0 \<le> r \<Longrightarrow> r < 1 \<Longrightarrow> nextDelayMs r c = (d, c') \<Longrightarrow> backoff_run b (ds @ [d]) c'"
| reset: "backoff_run b ds c \<Longrightarrow> backoff_run b ds (reset_backoff c)"

definition backoff_ok :: "ExponentialBackoff \<Rightarrow> bool" where
  "backoff_ok b \<longleftrightarrow> 50 \<le> bo_base b \<and> bo_base b \<le> 60000 \<and> bo_base b \<le> bo_max b
     \<and> bo_max b \<le> 3600000 \<and> bo_attempt b \<le> 64"

lemma clampMs_bounds: "lo \<le> hi \<Longrightarrow> lo \<le> clampMs v lo hi \<and> clampMs v lo hi \<le> hi"
  by (cases v) (auto simp: clampMs_def)

lemma create_ok: "backoff_ok (createExponentialBackoff options)"
proof -
  let ?base = "clampMs (coalesce (opt_baseMs options) (Fin 1000)) 50 60000"
  have base: "50 \<le> ?base" "?base \<le> 60000"
    using clampMs_bounds [of 50 60000 "coalesce (opt_baseMs options) (Fin 1000)"] by auto
  with clampMs_bounds [of ?base 3600000 "coalesce (opt_maxMs options) (Fin (5 * 60000))"]
  show ?thesis by (simp add: backoff_ok_def createExponentialBackoff_def Let_def)
qed

lemma next_ok:
  assumes "backoff_ok b" and "nextDelayMs r b = (d, b')"
  shows "backoff_ok b'" and "bo_base b \<le> d" and "d \<le> bo_max b"
    and "bo_base b' = bo_base b" and "bo_max b' = bo_max b"
  using assms clampMs_bounds [of "bo_base b" "bo_max b"]
  by (auto simp: nextDelayMs_def Let_def backoff_ok_def)

lemma run_ok:
  "backoff_run b ds c \<Longrightarrow> backoff_ok b \<Longrightarrow>
   backoff_ok c \<and> bo_base c = bo_base b \<and> bo_max c = bo_max b
   \<and> (\<forall>d \<in> set ds. bo_base b \<le> d \<and> d \<le> bo_max b)"
proof (induction rule: backoff_run.induct)
  case (start b)
  then show ?case by simp
next
  case (delay b ds c r d c')
  from delay.IH [OF delay.prems]
  have c: "backoff_ok c" "bo_base c = bo_base b" "bo_max c = bo_max b"
    and ds: "\<forall>d \<in> set ds. bo_base b \<le> d \<and> d \<le> bo_max b" by blast+
  note n = next_ok [OF c(1) delay.hyps(4)]
  from n(1,4,5) c have "backoff_ok c' \<and> bo_base c' = bo_base b \<and> bo_max c' = bo_max b" by simp
  moreover have "bo_base b \<le> d \<and> d \<le> bo_max b" using n(2,3) by (simp only: c(2,3))
  with ds have "\<forall>x \<in> set (ds @ [d]). bo_base b \<le> x \<and> x \<le> bo_max b" by (simp only: set_append) auto
  ultimately show ?case by blast
next
  case (reset b ds c)
  have "backoff_ok c \<Longrightarrow> backoff_ok (reset_backoff c)"
    by (simp add: reset_backoff_def backoff_ok_def)
  moreover have "bo_base (reset_backoff c) = bo_base c" "bo_max (reset_backoff c) = bo_max c"
    by (simp_all add: reset_backoff_def)
  ultimately show ?case using reset.IH [OF reset.prems] by metis
qed

section \<open>The schedule of the default options\<close>

definition default_options :: ExponentialBackoffOptions where
  "default_options = \<lparr>opt_baseMs = None, opt_factor = None, opt_maxMs = None, opt_jitter = None\<rparr>"

lemma default_backoff:
  "createExponentialBackoff default_options =
   \<lparr>bo_base = 1000, bo_factor = Fin 2, bo_max = 300000, bo_jitter = Fin (1 / 5), bo_attempt = 0\<rparr>"
  by (simp add: createExponentialBackoff_def default_options_def clampMs_def rat_trunc_def)

lemma rat_trunc_of_int [simp]: "rat_trunc (of_int i) = i"
  by (simp add: rat_trunc_def)

lemma clampMs_of_int: "clampMs (Fin (of_int i)) lo hi = min hi (max lo i)"
  by (simp add: clampMs_def)

lemma default_raw:
  assumes "k \<le> 64"
  shows "num_mul (Fin 1000) (num_pow (Fin 2) k) = Fin (of_int (1000 * 2 ^ k))"
proof -
  have k: "(2::rat) ^ k \<le> 2 ^ 64" using assms by (rule power_increasing) simp
  have "to_number (2 ^ k) = Fin (2 ^ k)"
    by (rule to_number_le) (use k in simp)
  moreover have "to_number (1000 * 2 ^ k) = Fin (1000 * 2 ^ k)"
    by (rule to_number_le) (use k in simp)
  ultimately show ?thesis by (simp add: num_pow_def to_number_le)
qed

lemma default_next:
  assumes "0 \<le> r" and "r < 1" and "k \<le> 64"
    and b: "b = \<lparr>bo_base = 1000, bo_factor = Fin 2, bo_max = 300000, bo_jitter = Fin (1 / 5), bo_attempt = k\<rparr>"
    and n: "n = min 300000 (1000 * 2 ^ k)"
  shows "fst (nextDelayMs r b) = min 300000 (n + \<lfloor>r * (1 / 5) * of_int n\<rfloor>)"
proof -
  have n_range: "1000 \<le> n" "n \<le> 300000" by (auto simp: n)
  have cap: "num_min (Fin 300000) (num_mul (Fin 1000) (num_pow (Fin 2) k)) = Fin (of_int n)"
    unfolding default_raw [OF assms(3)] by (simp add: n of_int_min)
  have norm: "clampMs (Fin (of_int n)) 1000 300000 = n"
    using n_range by (simp add: clampMs_def)
  have rj: "to_number (r * (1 / 5)) = Fin (r * (1 / 5))"
    by (rule to_number_le) (use assms(1,2) in simp)
  have prod: "0 \<le> r * (1 / 5) * of_int n" "r * (1 / 5) * of_int n \<le> 300000"
  proof -
    show "0 \<le> r * (1 / 5) * of_int n" using assms(1) n_range by simp
    have "r * (1 / 5) * of_int n \<le> 1 * of_int n"
      by (rule mult_right_mono) (use assms(1,2) n_range in auto)
    moreover have "of_int n \<le> (300000 :: rat)" using n_range by simp
    ultimately show "r * (1 / 5) * of_int n \<le> 300000" by linarith
  qed
  then have rjn: "to_number (r * (1 / 5) * of_int n) = Fin (r * (1 / 5) * of_int n)"
    by (rule to_number_nonneg)
  have f: "0 \<le> \<lfloor>r * (1 / 5) * of_int n\<rfloor>" "\<lfloor>r * (1 / 5) * of_int n\<rfloor> \<le> 300000"
    using prod by (simp_all add: floor_le_iff)
  have sum: "to_number (of_int n + of_int F) = Fin (of_int (n + F))" if "0 \<le> F" "F \<le> 300000" for F
  proof -
    have "of_int \<bar>n + F\<bar> \<le> (of_int 1000000 :: rat)" unfolding of_int_le_iff using that n_range by simp
    then have "to_number (of_int (n + F)) = Fin (of_int (n + F))" by (intro to_number_le) simp
    then show ?thesis by simp
  qed
  have "fst (nextDelayMs r b) = clampMs (Fin (of_int (n + \<lfloor>r * (1 / 5) * of_int n\<rfloor>))) 1000 300000"
    using rj rjn sum [OF f] by (simp add: nextDelayMs_def Let_def b cap norm)
  moreover have "max 1000 (n + \<lfloor>r * (1 / 5) * of_int n\<rfloor>) = n + \<lfloor>r * (1 / 5) * of_int n\<rfloor>"
    using n_range f by linarith
  ultimately show ?thesis by (simp only: clampMs_of_int)
qed

text \<open>The delays of consecutive failures, one random number each.\<close>

fun failure_delays :: "rat list \<Rightarrow> ExponentialBackoff \<Rightarrow> int list" where
  "failure_delays [] b = []"
| "failure_delays (r # rs) b = (let (d, b') = nextDelayMs r b in d # failure_delays rs b')"

definition default_at :: "nat \<Rightarrow> ExponentialBackoff" where
  "default_at k = \<lparr>bo_base = 1000, bo_factor = Fin 2, bo_max = 300000, bo_jitter = Fin (1 / 5), bo_attempt = k\<rparr>"

definition planned_delay :: "nat \<Rightarrow> int" where
  "planned_delay k = min 300000 (1000 * 2 ^ k)"

definition jittered :: "rat \<Rightarrow> int \<Rightarrow> int" where
  "jittered r n = min 300000 (n + \<lfloor>r * (1 / 5) * of_int n\<rfloor>)"

lemma planned_delay_cap: "planned_delay (min k 64) = planned_delay k"
proof (cases "k \<le> 64")
  case False
  then have "(2::int) ^ 64 \<le> 2 ^ k" by (intro power_increasing) auto
  with False show ?thesis by (simp add: planned_delay_def min_def)
qed (simp add: min_def)

lemma default_step:
  assumes "0 \<le> r" and "r < 1"
  shows "nextDelayMs r (default_at (min k 64)) = (jittered r (planned_delay k), default_at (min (Suc k) 64))"
proof -
  have "fst (nextDelayMs r (default_at (min k 64))) = jittered r (planned_delay (min k 64))"
    using default_next [OF assms _ default_at_def refl, of "min k 64"]
    by (simp add: jittered_def planned_delay_def)
  moreover have "snd (nextDelayMs r (default_at (min k 64))) = default_at (min (Suc k) 64)"
    by (simp add: nextDelayMs_def Let_def default_at_def)
  ultimately show ?thesis unfolding planned_delay_cap by (metis prod.collapse)
qed

lemma failure_delays_default:
  "\<forall>r \<in> set rs. 0 \<le> r \<and> r < 1 \<Longrightarrow>
   failure_delays rs (default_at (min k 64)) =
   map (\<lambda>(i, r). jittered r (planned_delay i)) (enumerate k rs)"
proof (induction rs arbitrary: k)
  case (Cons r rs)
  from Cons.prems have "0 \<le> r" "r < 1" by auto
  from default_step [OF this, of k] Cons.IH [of "Suc k"] Cons.prems show ?case by simp
qed simp

lemma jittered_range:
  assumes "0 \<le> r" and "r < 1" and "1000 \<le> n" and "n \<le> 300000"
  shows "n \<le> jittered r n" and "jittered r n \<le> 300000" and "5 * jittered r n \<le> 6 * n"
proof -
  have pos: "0 \<le> r * (1 / 5) * of_int n" using assms by simp
  have "r * of_int n \<le> 1 * of_int n" by (rule mult_right_mono) (use assms in auto)
  then have le: "r * (1 / 5) * of_int n \<le> of_int n / 5" by simp
  from pos have f: "0 \<le> \<lfloor>r * (1 / 5) * of_int n\<rfloor>" by simp
  have "of_int \<lfloor>r * (1 / 5) * of_int n\<rfloor> \<le> (of_int n / 5 :: rat)"
    using le of_int_floor_le order_trans by blast
  then have "of_int (5 * \<lfloor>r * (1 / 5) * of_int n\<rfloor>) \<le> (of_int n :: rat)" by simp
  then have g: "5 * \<lfloor>r * (1 / 5) * of_int n\<rfloor> \<le> n" by (simp only: of_int_le_iff)
  show "n \<le> jittered r n" using f assms(4) by (simp add: jittered_def)
  show "jittered r n \<le> 300000" by (simp add: jittered_def)
  show "5 * jittered r n \<le> 6 * n" using g by (simp add: jittered_def min_def)
qed

section \<open>Properties\<close>

text \<open>C34: whatever the options, the random numbers and the order of failures and resets, every
  delay lies between the base and the maximum of the backoff, both of which lie between 50
  ms and one hour, and the attempt counter never exceeds 64.\<close>

theorem backoff_bounds:
  assumes "backoff_run (createExponentialBackoff options) ds b"
  shows "(\<forall>d \<in> set ds. 50 \<le> bo_base b \<and> bo_base b \<le> d \<and> d \<le> bo_max b \<and> bo_max b \<le> 3600000)
    \<and> bo_attempt b \<le> 64"
  using run_ok [OF assms create_ok] by (auto simp: backoff_ok_def)

theorem backoff_bounds_witness:
  "\<exists>d b. backoff_run (createExponentialBackoff default_options) [d] b \<and> 50 \<le> d \<and> d \<le> 3600000"
proof -
  obtain d b where n: "nextDelayMs (1 / 2) (createExponentialBackoff default_options) = (d, b)"
    by fastforce
  have "backoff_run (createExponentialBackoff default_options) ([] @ [d]) b"
    by (rule backoff_run.delay [OF backoff_run.start _ _ n]) simp_all
  then have run: "backoff_run (createExponentialBackoff default_options) [d] b" by simp
  from backoff_bounds [OF this] have "50 \<le> d \<and> d \<le> 3600000" by auto
  with run show ?thesis by blast
qed

text \<open>With the default options the i-th consecutive failure (from 0) waits the planned
  \<open>min(5 min, 1 s * 2^i)\<close>, lengthened by at most a fifth and never above five minutes,
  also after the attempt counter has stopped at 64.\<close>

theorem default_schedule:
  assumes "\<forall>r \<in> set rs. 0 \<le> r \<and> r < 1" and "i < length rs"
  shows "planned_delay i \<le> failure_delays rs (createExponentialBackoff default_options) ! i
    \<and> 5 * failure_delays rs (createExponentialBackoff default_options) ! i \<le> 6 * planned_delay i
    \<and> failure_delays rs (createExponentialBackoff default_options) ! i \<le> 300000"
proof -
  have "createExponentialBackoff default_options = default_at (min 0 64)"
    by (simp add: default_backoff default_at_def)
  then have "failure_delays rs (createExponentialBackoff default_options) ! i
      = jittered (rs ! i) (planned_delay i)"
    using failure_delays_default [OF assms(1), of 0] assms(2) by (simp add: nth_enumerate_eq)
  moreover have "0 \<le> rs ! i" "rs ! i < 1" using assms by auto
  moreover have "1000 \<le> planned_delay i" "planned_delay i \<le> 300000"
    by (auto simp: planned_delay_def)
  ultimately show ?thesis using jittered_range by metis
qed

theorem default_schedule_witness:
  "2000 \<le> failure_delays [0, 1 / 2] (createExponentialBackoff default_options) ! 1"
  using default_schedule [of "[0, 1 / 2]" 1] by (simp add: planned_delay_def)

end
