(* ===== verification/JsUrl.thy ===== *)
theory JsUrl
  imports JsCollections
begin

text \<open>
  URL pieces of the standard library: the form encoding of \<open>URLSearchParams\<close> on UTF-8
  bytes, its parser and serializer, the operations \<open>get\<close>, \<open>set\<close> and \<open>delete\<close> on
  the list of pairs, and \<open>encodeURIComponent\<close>.
\<close>

section \<open>Percent encoding\<close>

definition hex_digit :: "nat \<Rightarrow> char" where
  "hex_digit n = (if n < 10 then char_of (48 + n) else char_of (55 + n))"

definition hex_value :: "char \<Rightarrow> nat option" where
  "hex_value c =
     (let n = char_code c
      in if 48 \<le> n \<and> n \<le> 57 then Some (n - 48)
         else if 65 \<le> n \<and> n \<le> 70 then Some (n - 55)
         else if 97 \<le> n \<and> n \<le> 102 then Some (n - 87) else None)"

definition percent :: "char \<Rightarrow> string" where
  "percent c = [CHR ''%'', hex_digit (char_code c div 16), hex_digit (char_code c mod 16)]"

definition form_safe :: "char \<Rightarrow> bool" where
  "form_safe c \<longleftrightarrow> is_alnum c \<or> c \<in> set ''*-._''"

definition form_char :: "char \<Rightarrow> string" where
  "form_char c = (if form_safe c then [c] else if c = CHR '' '' then ''+'' else percent c)"

definition form_encode :: "string \<Rightarrow> string" where
  "form_encode s = concat (map form_char s)"

fun form_decode :: "string \<Rightarrow> string" where
  "form_decode [] = []"
| "form_decode (c # h # l # rest) =
     (if c = CHR ''+'' then CHR '' '' # form_decode (h # l # rest)
      else if c = CHR ''%'' then
        (case (hex_value h, hex_value l) of
           (Some a, Some b) \<Rightarrow> char_of (16 * a + b) # form_decode rest
         | _ \<Rightarrow> c # form_decode (h # l # rest))
      else c # form_decode (h # l # rest))"
| "form_decode (c # rest) = (if c = CHR ''+'' then CHR '' '' else c) # form_decode rest"

definition component_char :: "char \<Rightarrow> string" where
  "component_char c = (if is_alnum c \<or> c \<in> set ''-_.!~*'' \<or> c = CHR 0x27 \<or> c = CHR ''('' \<or> c = CHR '')''
     then [c] else percent c)"

definition encodeURIComponent :: "string \<Rightarrow> string" where
  "encodeURIComponent s = concat (map component_char s)"

lemma char_code_less: "char_code c < 256"
  by (simp add: char_code_def)

lemma char_of_char_code [simp]: "char_of (char_code c) = c"
  by (simp add: char_code_def)

lemma hex_value_digit: "n < 16 \<Longrightarrow> hex_value (hex_digit n) = Some n"
  by (auto simp: hex_value_def hex_digit_def char_code_def Let_def)

lemma form_decode_Cons:
  "c \<noteq> CHR ''+'' \<Longrightarrow> c \<noteq> CHR ''%'' \<Longrightarrow> form_decode (c # s) = c # form_decode s"
  by (cases s rule: form_decode.cases) auto

lemma form_decode_plus: "form_decode (CHR ''+'' # s) = CHR '' '' # form_decode s"
  by (cases s rule: form_decode.cases) auto

lemma form_safe_plain:
  "form_safe c \<Longrightarrow> c \<noteq> CHR ''+'' \<and> c \<noteq> CHR ''%'' \<and> c \<noteq> CHR ''&'' \<and> c \<noteq> CHR ''='' \<and> c \<noteq> CHR ''?''"
  by (auto simp: form_safe_def is_alnum_def is_digit_def char_code_def)

lemma form_decode_percent:
  "form_decode (percent c @ s) = c # form_decode s"
proof -
  have "char_code c div 16 < 16" using char_code_less [of c] by simp
  then show ?thesis by (simp add: percent_def hex_value_digit)
qed

lemma form_decode_encode: "form_decode (form_encode s) = s"
proof (induction s)
  case (Cons c s)
  have "form_encode (c # s) = form_char c @ form_encode s" by (simp add: form_encode_def)
  with Cons.IH show ?case
    using form_safe_plain [of c]
    by (auto simp: form_char_def form_decode_Cons form_decode_plus form_decode_percent)
qed (simp add: form_encode_def)

lemma hex_digit_safe: "n < 16 \<Longrightarrow> form_safe (hex_digit n)"
  by (auto simp: form_safe_def is_alnum_def is_digit_def hex_digit_def char_code_def)

lemma form_char_chars:
  "d \<in> set (form_char c) \<Longrightarrow> form_safe d \<or> d = CHR ''+'' \<or> d = CHR ''%''"
proof -
  assume "d \<in> set (form_char c)"
  moreover have "char_code c div 16 < 16" using char_code_less [of c] by simp
  ultimately show ?thesis
    using hex_digit_safe [of "char_code c div 16"] hex_digit_safe [of "char_code c mod 16"]
    by (auto simp: form_char_def percent_def split: if_splits)
qed

lemma form_encode_no_sep:
  "CHR ''&'' \<notin> set (form_encode s)" "CHR ''='' \<notin> set (form_encode s)" "CHR ''?'' \<notin> set (form_encode s)"
proof -
  have "d \<in> set (form_encode s) \<Longrightarrow> d \<noteq> CHR ''&'' \<and> d \<noteq> CHR ''='' \<and> d \<noteq> CHR ''?''" for d
    using form_char_chars form_safe_plain by (fastforce simp: form_encode_def)
  then show "CHR ''&'' \<notin> set (form_encode s)" "CHR ''='' \<notin> set (form_encode s)"
    "CHR ''?'' \<notin> set (form_encode s)" by blast+
qed

section \<open>URLSearchParams\<close>

type_synonym search_params = "(string \<times> string) list"

definition pair_text :: "string \<times> string \<Rightarrow> string" where
  "pair_text kv = form_encode (fst kv) @ ''='' @ form_encode (snd kv)"

definition params_to_string :: "search_params \<Rightarrow> string" where
  "params_to_string ps = join ''&'' (map pair_text ps)"

definition read_pair :: "string \<Rightarrow> string \<times> string" where
  "read_pair s = (let k = takeWhile (\<lambda>c. c \<noteq> CHR ''='') s in (form_decode k, form_decode (drop (Suc (length k)) s)))"

definition drop_question :: "string \<Rightarrow> string" where
  "drop_question s = (if starts_with s ''?'' then tl s else s)"

definition parse_params :: "string \<Rightarrow> search_params" where
  "parse_params s = map read_pair (filter (\<lambda>w. w \<noteq> []) (split_char (CHR ''&'') (drop_question s)))"

definition params_get :: "string \<Rightarrow> search_params \<Rightarrow> string option" where
  "params_get k ps = map_of ps k"

definition params_delete :: "string \<Rightarrow> search_params \<Rightarrow> search_params" where
  "params_delete k ps = filter (\<lambda>(k', v). k' \<noteq> k) ps"

text \<open>\<open>set\<close> replaces the first pair with the name, drops the others, or appends.\<close>

fun params_set :: "string \<Rightarrow> string \<Rightarrow> search_params \<Rightarrow> search_params" where
  "params_set k v [] = [(k, v)]"
| "params_set k v ((k', v') # ps) =
     (if k' = k then (k, v) # params_delete k ps else (k', v') # params_set k v ps)"

lemma split_char_Cons_sep:
  "d \<notin> set x \<Longrightarrow> split_char d (x @ d # s) = x # split_char d s"
  by (induction x) auto

lemma split_join:
  "\<forall>w \<in> set ws. d \<notin> set w \<Longrightarrow> ws \<noteq> [] \<Longrightarrow> split_char d (join [d] ws) = ws"
proof (induction ws)
  case (Cons w ws)
  then show ?case by (cases ws) (auto simp: split_char_id split_char_Cons_sep)
qed simp

lemma read_pair_text: "read_pair (pair_text kv) = kv"
proof -
  have "takeWhile (\<lambda>c. c \<noteq> CHR ''='') (pair_text kv) = form_encode (fst kv)"
    using form_encode_no_sep(2) [of "fst kv"]
    by (simp add: pair_text_def takeWhile_append2 takeWhile_tail split: if_splits)
      (metis (mono_tags, lifting) append_Nil2 takeWhile.simps(2) takeWhile_append2)
  then show ?thesis by (simp add: read_pair_def Let_def pair_text_def form_decode_encode)
qed

lemma parse_params_to_string: "parse_params (params_to_string ps) = ps"
proof (cases ps)
  case Nil
  then show ?thesis by (simp add: parse_params_def params_to_string_def drop_question_def)
next
  case (Cons kv rest)
  have q: "CHR ''?'' \<notin> set (pair_text x)" and amp: "CHR ''&'' \<notin> set (pair_text x)" for x
    using form_encode_no_sep by (auto simp: pair_text_def)
  have "drop_question (params_to_string ps) = params_to_string ps"
  proof -
    have "hd (params_to_string ps) \<noteq> CHR ''?''"
    proof -
      have "params_to_string ps = pair_text kv @ drop (length (pair_text kv)) (params_to_string ps)"
        using Cons by (cases rest) (simp_all add: params_to_string_def)
      moreover have "pair_text kv \<noteq> []" by (simp add: pair_text_def)
      ultimately have "hd (params_to_string ps) \<in> set (pair_text kv)"
        by (metis hd_append2 list.set_sel(1))
      with q show ?thesis by metis
    qed
    then show ?thesis by (cases "params_to_string ps") (auto simp: drop_question_def)
  qed
  moreover have "split_char (CHR ''&'') (params_to_string ps) = map pair_text ps"
    unfolding params_to_string_def using amp Cons by (intro split_join) auto
  moreover have "filter (\<lambda>w. w \<noteq> []) (map pair_text ps) = map pair_text ps"
    by (simp add: filter_id_conv pair_text_def)
  ultimately show ?thesis by (simp add: parse_params_def o_def read_pair_text)
qed

lemma params_get_delete: "params_get k (params_delete k' ps) = (if k = k' then None else params_get k ps)"
  by (induction ps) (auto simp: params_get_def params_delete_def)

lemma params_get_set: "params_get k (params_set k' v ps) = (if k = k' then Some v else params_get k ps)"
  by (induction k' v ps rule: params_set.induct)
    (auto simp: params_get_def params_get_delete [unfolded params_get_def])

text \<open>Pairs with other names stay, in order.\<close>

definition other_params :: "string set \<Rightarrow> search_params \<Rightarrow> search_params" where
  "other_params K ps = filter (\<lambda>kv. fst kv \<notin> K) ps"

lemma other_params_delete [simp]: "k \<in> K \<Longrightarrow> other_params K (params_delete k ps) = other_params K ps"
  by (induction ps) (auto simp: params_delete_def other_params_def)

lemma other_params_set [simp]: "k \<in> K \<Longrightarrow> other_params K (params_set k v ps) = other_params K ps"
  by (induction k v ps rule: params_set.induct)
    (auto simp: other_params_def other_params_delete [unfolded other_params_def])

end
