(* ===== verification/UrlSorting.thy ===== *)
theory UrlSorting
  imports JsUrl
begin

text \<open>
  \<open>src/lib/use-url-sorting.ts\<close>: the sorting of a table kept in the query string. The
  hook's state is the query string; the column ids, the default sorting and the prefix are
  its arguments. \<open>onSortingChange\<close> gives the new query string and the path handed to
  \<open>router.replace\<close>, or nothing when the sorting stays the same. The \<open>popstate\<close>
  listener, which copies the location into the state, is the operation \<open>syncFromLocation\<close>.
\<close>

record column_sort =
  sort_id :: string
  sort_desc :: bool

type_synonym SortingState = "column_sort list"

definition SORT_NONE_SENTINEL :: string where
  "SORT_NONE_SENTINEL = ''none''"

definition resolveSortParam :: "string option \<Rightarrow> string" where
  "resolveSortParam paramPrefix =
     (case paramPrefix of None \<Rightarrow> ''sort'' | Some p \<Rightarrow> if p = [] then ''sort'' else p @ ''_sort'')"

definition resolveDirectionParam :: "string option \<Rightarrow> string" where
  "resolveDirectionParam paramPrefix =
     (case paramPrefix of None \<Rightarrow> ''dir'' | Some p \<Rightarrow> if p = [] then ''dir'' else p @ ''_dir'')"

fun normalizeSorting :: "SortingState \<Rightarrow> string list \<Rightarrow> SortingState" where
  "normalizeSorting [] allowed = []"
| "normalizeSorting (s # rest) allowed =
     (if sort_id s \<notin> set allowed then normalizeSorting rest allowed
      else [\<lparr>sort_id = sort_id s, sort_desc = sort_desc s\<rparr>])"

definition isSameSorting :: "SortingState \<Rightarrow> SortingState \<Rightarrow> bool" where
  "isSameSorting a b =
     (if length a \<noteq> length b then False
      else if a = [] then True
      else sort_id (hd a) = sort_id (hd b) \<and> sort_desc (hd a) = sort_desc (hd b))"

definition syncFromLocation :: "string \<Rightarrow> string" where
  "syncFromLocation search = drop_question search"

definition current_sorting :: "string list \<Rightarrow> SortingState \<Rightarrow> string option \<Rightarrow> string \<Rightarrow> SortingState" where
  "current_sorting allowedColumnIds defaultSorting paramPrefix search =
     (let searchParams = parse_params search;
          fallback = normalizeSorting defaultSorting allowedColumnIds
      in case params_get (resolveSortParam paramPrefix) searchParams of
           None \<Rightarrow> fallback
         | Some sortValue \<Rightarrow>
             if sortValue = [] then fallback
             else if sortValue = SORT_NONE_SENTINEL then []
             else if sortValue \<notin> set allowedColumnIds then fallback
             else [\<lparr>sort_id = sortValue,
                    sort_desc = params_get (resolveDirectionParam paramPrefix) searchParams = Some ''desc''\<rparr>])"

definition sorting_params ::
  "SortingState \<Rightarrow> string option \<Rightarrow> SortingState \<Rightarrow> search_params \<Rightarrow> search_params" where
  "sorting_params fallback paramPrefix nextSorting ps =
     (let sortParam = resolveSortParam paramPrefix; directionParam = resolveDirectionParam paramPrefix
      in case nextSorting of
           [] \<Rightarrow> params_delete directionParam (params_set sortParam SORT_NONE_SENTINEL ps)
         | primary # _ \<Rightarrow>
             if isSameSorting nextSorting fallback
             then params_delete directionParam (params_delete sortParam ps)
             else params_set directionParam (if sort_desc primary then ''desc'' else ''asc'')
                    (params_set sortParam (sort_id primary) ps))"

definition onSortingChange ::
  "string list \<Rightarrow> SortingState \<Rightarrow> string option \<Rightarrow> string \<Rightarrow> (SortingState \<Rightarrow> SortingState) \<Rightarrow> string
    \<Rightarrow> (string \<times> string) option" where
  "onSortingChange allowedColumnIds defaultSorting paramPrefix pathname updater search =
     (let sorting = current_sorting allowedColumnIds defaultSorting paramPrefix search;
          nextSorting = normalizeSorting (updater sorting) allowedColumnIds
      in if isSameSorting nextSorting sorting then None
         else (let query = params_to_string
                     (sorting_params (normalizeSorting defaultSorting allowedColumnIds) paramPrefix
                        nextSorting (parse_params search))
               in Some (query, if query \<noteq> [] then pathname @ ''?'' @ query else pathname)))"

section \<open>Lemmas\<close>

lemma params_differ [simp]: "resolveSortParam p \<noteq> resolveDirectionParam p"
  by (cases p) (auto simp: resolveSortParam_def resolveDirectionParam_def)

lemma params_differ' [simp]: "resolveDirectionParam p \<noteq> resolveSortParam p"
  using params_differ [of p] by metis

lemma normalizeSorting_form:
  "normalizeSorting s allowed = [] \<or> (\<exists>i d. i \<in> set allowed \<and> normalizeSorting s allowed = [\<lparr>sort_id = i, sort_desc = d\<rparr>])"
  by (induction s) auto

lemma normalizeSorting_cases:
  obtains (none) "normalizeSorting s allowed = []"
  | (one) i d where "i \<in> set allowed" "normalizeSorting s allowed = [\<lparr>sort_id = i, sort_desc = d\<rparr>]"
  using normalizeSorting_form by blast

lemma isSameSorting_eq:
  "isSameSorting (normalizeSorting s allowed) (normalizeSorting t allowed)
    \<longleftrightarrow> normalizeSorting s allowed = normalizeSorting t allowed"
  by (cases s allowed rule: normalizeSorting_cases; cases t allowed rule: normalizeSorting_cases)
    (simp_all add: isSameSorting_def)

lemma normalizeSorting_idem: "normalizeSorting (normalizeSorting s allowed) allowed = normalizeSorting s allowed"
  by (cases s allowed rule: normalizeSorting_cases) simp_all

text \<open>The sorting shown is always in normal form.\<close>

lemma current_sorting_normal:
  "normalizeSorting (current_sorting allowed d p search) allowed = current_sorting allowed d p search"
  by (simp add: current_sorting_def Let_def normalizeSorting_idem split: option.split)

definition usable_ids :: "string list \<Rightarrow> bool" where
  "usable_ids ids \<longleftrightarrow> [] \<notin> set ids \<and> SORT_NONE_SENTINEL \<notin> set ids"

lemma sorting_params_read:
  assumes "usable_ids allowed"
  shows "current_sorting allowed d p
      (params_to_string (sorting_params (normalizeSorting d allowed) p (normalizeSorting s allowed) ps))
    = normalizeSorting s allowed"
proof (cases s allowed rule: normalizeSorting_cases)
  case none
  then show ?thesis
    by (simp add: current_sorting_def Let_def parse_params_to_string sorting_params_def
        params_get_delete params_get_set SORT_NONE_SENTINEL_def)
next
  case (one i desc)
  with assms have i: "i \<noteq> []" "i \<noteq> SORT_NONE_SENTINEL" by (auto simp: usable_ids_def)
  show ?thesis
  proof (cases "isSameSorting (normalizeSorting s allowed) (normalizeSorting d allowed)")
    case True
    then have "normalizeSorting d allowed = normalizeSorting s allowed" by (simp add: isSameSorting_eq)
    with True one show ?thesis
      by (simp add: current_sorting_def Let_def parse_params_to_string sorting_params_def
          params_get_delete)
  next
    case False
    with one i show ?thesis
      by (simp add: current_sorting_def Let_def parse_params_to_string sorting_params_def
          params_get_set)
  qed
qed

lemma onSortingChange_query:
  assumes "onSortingChange allowed d p pathname updater search = Some (query, url)"
  shows "query = params_to_string (sorting_params (normalizeSorting d allowed) p
      (normalizeSorting (updater (current_sorting allowed d p search)) allowed) (parse_params search))"
    and "url = (if query = [] then pathname else pathname @ ''?'' @ query)"
  using assms by (auto simp: onSortingChange_def Let_def split: if_splits)

section \<open>Properties\<close>

text \<open>a change of the sorting is what the table then reads back from the query string, for
  every column list without an empty id and without the id "none", every default sorting,
  every prefix and every query string; and when no change is reported the sorting was
  already the requested one.\<close>

theorem sorting_read_back:
  assumes "usable_ids allowedColumnIds"
  shows "normalizeSorting (updater (current_sorting allowedColumnIds defaultSorting paramPrefix search))
      allowedColumnIds =
    current_sorting allowedColumnIds defaultSorting paramPrefix
      (case onSortingChange allowedColumnIds defaultSorting paramPrefix pathname updater search of
         None \<Rightarrow> search | Some (query, _) \<Rightarrow> query)"
proof -
  let ?cur = "current_sorting allowedColumnIds defaultSorting paramPrefix search"
  let ?next = "normalizeSorting (updater ?cur) allowedColumnIds"
  show ?thesis
  proof (cases "isSameSorting ?next ?cur")
    case True
    then have "?next = ?cur"
      using isSameSorting_eq [of "updater ?cur" allowedColumnIds ?cur]
      by (simp add: current_sorting_normal)
    with True show ?thesis by (simp add: onSortingChange_def Let_def)
  next
    case False
    then show ?thesis
      using sorting_params_read [OF assms] by (simp add: onSortingChange_def Let_def)
  qed
qed

theorem sorting_read_back_witness:
  "current_sorting [''name'', ''age''] [] None
     (case onSortingChange [''name'', ''age''] [] None ''/t'' (\<lambda>_. [\<lparr>sort_id = ''age'', sort_desc = True\<rparr>]) ''q=1'' of
        None \<Rightarrow> ''q=1'' | Some (query, _) \<Rightarrow> query) = [\<lparr>sort_id = ''age'', sort_desc = True\<rparr>]"
  by (subst sorting_read_back [symmetric]) (simp_all add: usable_ids_def SORT_NONE_SENTINEL_def)

text \<open>A change of the sorting leaves the other query parameters alone: names, values, order
  and repetitions, apart from the two parameters of this table.\<close>

theorem sorting_keeps_other_params:
  assumes "onSortingChange allowedColumnIds defaultSorting paramPrefix pathname updater search = Some (query, url)"
  shows "other_params {resolveSortParam paramPrefix, resolveDirectionParam paramPrefix} (parse_params query) =
    other_params {resolveSortParam paramPrefix, resolveDirectionParam paramPrefix} (parse_params search)
    \<and> url = (if query = [] then pathname else pathname @ ''?'' @ query)"
proof -
  let ?K = "{resolveSortParam paramPrefix, resolveDirectionParam paramPrefix}"
  have "other_params ?K (sorting_params d paramPrefix s ps) = other_params ?K ps" for d s ps
    by (cases s) (simp_all add: sorting_params_def Let_def)
  then show ?thesis by (simp add: onSortingChange_query [OF assms] parse_params_to_string)
qed

theorem sorting_keeps_other_params_witness:
  "\<exists>query url. onSortingChange [''age''] [] None ''/t'' (\<lambda>_. [\<lparr>sort_id = ''age'', sort_desc = True\<rparr>]) ''q=1'' = Some (query, url)
    \<and> url = (if query = [] then ''/t'' else ''/t?'' @ query)"
proof -
  obtain query url where c: "onSortingChange [''age''] [] None ''/t''
      (\<lambda>_. [\<lparr>sort_id = ''age'', sort_desc = True\<rparr>]) ''q=1'' = Some (query, url)"
    by (simp add: onSortingChange_def Let_def current_sorting_def parse_params_def drop_question_def
        read_pair_def params_get_def resolveSortParam_def isSameSorting_def form_decode_Cons)
  from sorting_keeps_other_params [OF c] c show ?thesis by auto
qed

end
