(* ===== verification/ListDelete.thy ===== *)
theory ListDelete
  imports JsNumbers
begin

text \<open>
  \<open>src/lib/list-delete.ts\<close>: the optimistic removal of an item from a cached list, and its
  rollback. The query client is the map from query keys to cached responses
  (\<open>Undefined\<close> where nothing is cached) with the keys whose queries were cancelled or
  invalidated; a response is a value of unknown shape.
\<close>

section \<open>The query client\<close>

record query_client =
  qc_data :: "string \<Rightarrow> js"
  qc_cancelled :: "string list"
  qc_invalidated :: "string list"

definition setQueryData :: "string \<Rightarrow> js \<Rightarrow> query_client \<Rightarrow> query_client" where
  "setQueryData key v c = c\<lparr>qc_data := (qc_data c)(key := v)\<rparr>"

definition cancelQueries :: "string \<Rightarrow> query_client \<Rightarrow> query_client" where
  "cancelQueries key c = c\<lparr>qc_cancelled := qc_cancelled c @ [key]\<rparr>"

definition invalidateQueries :: "string \<Rightarrow> query_client \<Rightarrow> query_client" where
  "invalidateQueries key c = c\<lparr>qc_invalidated := qc_invalidated c @ [key]\<rparr>"

section \<open>The code\<close>

text \<open>\<open>value.key\<close> on a value that is an object, \<open>undefined\<close> on any other value\<close>

definition js_prop :: "js \<Rightarrow> string \<Rightarrow> js" where
  "js_prop v key = (case v of Obj p \<Rightarrow> get_prop p key | _ \<Rightarrow> Undefined)"

record list_payload =
  lp_items :: "js list"
  lp_total :: jsnum
  lp_record :: js_record

definition isListPayload :: "js \<Rightarrow> list_payload option" where
  "isListPayload v =
     (case v of
        Obj p \<Rightarrow> (case (get_prop p ''items'', get_prop p ''total'') of
                    (Arr xs, Num n) \<Rightarrow> Some \<lparr>lp_items = xs, lp_total = n, lp_record = p\<rparr>
                  | _ \<Rightarrow> None)
      | _ \<Rightarrow> None)"

definition getListPayload :: "js \<Rightarrow> list_payload option" where
  "getListPayload response = (case response of Obj p \<Rightarrow> isListPayload (get_prop p ''data'') | _ \<Rightarrow> None)"

record 'v delete_options =
  do_queryKey :: string
  do_getItemId :: "js \<Rightarrow> string"
  do_getDeleteId :: "'v \<Rightarrow> string"
  do_invalidateQueryKeys :: "string list option"

definition keysToInvalidate :: "'v delete_options \<Rightarrow> string list" where
  "keysToInvalidate opts =
     (case do_invalidateQueryKeys opts of
        Some (k # ks) \<Rightarrow> k # ks
      | _ \<Rightarrow> [do_queryKey opts])"

definition without_item :: "(js \<Rightarrow> string) \<Rightarrow> string \<Rightarrow> list_payload \<Rightarrow> js" where
  "without_item getItemId deleteId payload =
     (let nextItems = filter (\<lambda>item. getItemId item \<noteq> deleteId) (lp_items payload);
          removedCount = length (lp_items payload) - length nextItems
      in Obj (map_set ''total'' (Num (num_max (Fin 0) (num_sub (lp_total payload) (Fin (of_nat removedCount)))))
           (map_set ''items'' (Arr nextItems) (lp_record payload))))"

definition onMutate :: "'v delete_options \<Rightarrow> 'v \<Rightarrow> query_client \<Rightarrow> js \<times> query_client" where
  "onMutate opts variables client =
     (let client1 = cancelQueries (do_queryKey opts) client;
          previous = qc_data client1 (do_queryKey opts)
      in if truthy previous \<and> js_prop previous ''status'' = Num (Fin 200)
         then (case (getListPayload previous, previous) of
                 (Some payload, Obj p) \<Rightarrow>
                   (previous,
                    setQueryData (do_queryKey opts)
                      (Obj (map_set ''data''
                         (without_item (do_getItemId opts) (do_getDeleteId opts variables) payload) p))
                      client1)
               | _ \<Rightarrow> (previous, client1))
         else (previous, client1))"

definition onError :: "'v delete_options \<Rightarrow> js option \<Rightarrow> query_client \<Rightarrow> query_client" where
  "onError opts previous client =
     (case previous of
        Some v \<Rightarrow> if truthy v then setQueryData (do_queryKey opts) v client else client
      | None \<Rightarrow> client)"

definition onSettled :: "'v delete_options \<Rightarrow> query_client \<Rightarrow> query_client" where
  "onSettled opts client = fold invalidateQueries (keysToInvalidate opts) client"

section \<open>Lemmas\<close>

lemma get_prop_map_set: "get_prop (map_set k v p) k' = (if k' = k then v else get_prop p k')"
  by (simp add: get_prop_def)

lemma without_item_payload:
  assumes "isListPayload (Obj (lp_record payload)) = Some payload"
  shows "isListPayload (without_item getId d payload) = Some
    \<lparr>lp_items = filter (\<lambda>item. getId item \<noteq> d) (lp_items payload),
     lp_total = num_max (Fin 0) (num_sub (lp_total payload)
       (Fin (of_nat (length (filter (\<lambda>item. getId item = d) (lp_items payload)))))),
     lp_record = (case without_item getId d payload of Obj p \<Rightarrow> p)\<rparr>"
proof -
  have "length (lp_items payload) - length (filter (\<lambda>item. getId item \<noteq> d) (lp_items payload))
      = length (filter (\<lambda>item. getId item = d) (lp_items payload))"
    using sum_length_filter_compl [of "\<lambda>item. getId item = d" "lp_items payload"] by simp
  then show ?thesis
    by (simp add: without_item_def Let_def isListPayload_def get_prop_map_set)
qed

lemma isListPayload_record: "isListPayload v = Some payload \<Longrightarrow> isListPayload (Obj (lp_record payload)) = Some payload"
  by (auto simp: isListPayload_def split: js.splits)

lemma onMutate_previous: "fst (onMutate opts variables client) = qc_data client (do_queryKey opts)"
  by (simp add: onMutate_def Let_def cancelQueries_def split: option.split js.split)

lemma onMutate_other: "k \<noteq> do_queryKey opts \<Longrightarrow> qc_data (snd (onMutate opts variables client)) k = qc_data client k"
  by (simp add: onMutate_def Let_def cancelQueries_def setQueryData_def split: option.split js.split)

lemma onMutate_falsy:
  "\<not> truthy (qc_data client (do_queryKey opts)) \<Longrightarrow> qc_data (snd (onMutate opts variables client)) = qc_data client"
  by (simp add: onMutate_def Let_def cancelQueries_def)

section \<open>Properties\<close>

text \<open>on a cached list the removal keeps exactly the items with another id, in order, lowers the
  total by the number of items removed (never below zero), and leaves the rest of the
  response and every other query alone.\<close>

theorem optimistic_removal:
  assumes "getListPayload (qc_data client (do_queryKey opts)) = Some payload"
    and "js_prop (qc_data client (do_queryKey opts)) ''status'' = Num (Fin 200)"
    and "snd (onMutate opts variables client) = client'"
  shows "(\<exists>payload'. getListPayload (qc_data client' (do_queryKey opts)) = Some payload'
      \<and> lp_items payload' = filter (\<lambda>item. do_getItemId opts item \<noteq> do_getDeleteId opts variables) (lp_items payload)
      \<and> lp_total payload' = num_max (Fin 0) (num_sub (lp_total payload) (Fin (of_nat (length
          (filter (\<lambda>item. do_getItemId opts item = do_getDeleteId opts variables) (lp_items payload)))))))
    \<and> (\<forall>k. k \<noteq> ''data'' \<longrightarrow> js_prop (qc_data client' (do_queryKey opts)) k = js_prop (qc_data client (do_queryKey opts)) k)
    \<and> (\<forall>k. k \<noteq> do_queryKey opts \<longrightarrow> qc_data client' k = qc_data client k)"
proof -
  from assms(1) obtain p where p: "qc_data client (do_queryKey opts) = Obj p"
    and payload: "isListPayload (get_prop p ''data'') = Some payload"
    by (auto simp: getListPayload_def split: js.splits)
  have data: "qc_data client' (do_queryKey opts) =
      Obj (map_set ''data'' (without_item (do_getItemId opts) (do_getDeleteId opts variables) payload) p)"
    using assms(2) p payload unfolding assms(3) [symmetric]
    by (simp add: onMutate_def Let_def cancelQueries_def setQueryData_def getListPayload_def)
  note wp = without_item_payload [OF isListPayload_record [OF payload]]
  have "getListPayload (qc_data client' (do_queryKey opts)) =
      isListPayload (without_item (do_getItemId opts) (do_getDeleteId opts variables) payload)"
    by (simp add: data getListPayload_def get_prop_map_set)
  then have "\<exists>payload'. getListPayload (qc_data client' (do_queryKey opts)) = Some payload'
      \<and> lp_items payload' = filter (\<lambda>item. do_getItemId opts item \<noteq> do_getDeleteId opts variables) (lp_items payload)
      \<and> lp_total payload' = num_max (Fin 0) (num_sub (lp_total payload) (Fin (of_nat (length
          (filter (\<lambda>item. do_getItemId opts item = do_getDeleteId opts variables) (lp_items payload))))))"
    by (simp add: wp)
  moreover have "\<forall>k. k \<noteq> ''data'' \<longrightarrow>
      js_prop (qc_data client' (do_queryKey opts)) k = js_prop (qc_data client (do_queryKey opts)) k"
    by (simp add: data p js_prop_def get_prop_map_set)
  moreover have "\<forall>k. k \<noteq> do_queryKey opts \<longrightarrow> qc_data client' k = qc_data client k"
    unfolding assms(3) [symmetric] using onMutate_other [of _ opts variables client] by simp
  ultimately show ?thesis by (intro conjI)
qed

definition sample_client :: query_client where
  "sample_client = \<lparr>qc_data = (\<lambda>k. if k = ''tags'' then Obj [(''status'', Num (Fin 200)),
     (''data'', Obj [(''items'', Arr [Str ''a'', Str ''b'']), (''total'', Num (Fin 2))])] else Undefined),
     qc_cancelled = [], qc_invalidated = []\<rparr>"

definition sample_options :: "string delete_options" where
  "sample_options = \<lparr>do_queryKey = ''tags'', do_getItemId = (\<lambda>v. coalesce (as_string v) []),
     do_getDeleteId = (\<lambda>v. v), do_invalidateQueryKeys = None\<rparr>"

theorem optimistic_removal_witness:
  "\<exists>payload'. getListPayload (qc_data (snd (onMutate sample_options ''a'' sample_client)) ''tags'') = Some payload'
     \<and> lp_items payload' = [Str ''b'']"
proof -
  have l: "getListPayload (qc_data sample_client (do_queryKey sample_options)) =
      Some \<lparr>lp_items = [Str ''a'', Str ''b''], lp_total = Fin 2,
            lp_record = [(''items'', Arr [Str ''a'', Str ''b'']), (''total'', Num (Fin 2))]\<rparr>"
    by (simp add: sample_client_def sample_options_def getListPayload_def isListPayload_def get_prop_def)
  have s: "js_prop (qc_data sample_client (do_queryKey sample_options)) ''status'' = Num (Fin 200)"
    by (simp add: sample_client_def sample_options_def js_prop_def get_prop_def)
  have "do_queryKey sample_options = ''tags''" by (simp add: sample_options_def)
  with optimistic_removal [OF l s refl, of "''a''"] show ?thesis
    by (auto simp: sample_options_def)
qed

text \<open>a failed deletion restores the cache: what was cached before the mutation is cached again
  after the error handler, for every response shape, and entries of other queries written
  in between are kept.\<close>

theorem failed_delete_rolls_back:
  assumes "onMutate opts variables client = (previous, client1)"
    and "\<forall>k. qc_data client2 k = (if k = do_queryKey opts then qc_data client1 k else written k)"
  shows "qc_data (onError opts (Some previous) client2) =
    (\<lambda>k. if k = do_queryKey opts then qc_data client k else written k)"
proof -
  have prev: "previous = qc_data client (do_queryKey opts)"
    using onMutate_previous [of opts variables client] assms(1) by simp
  show ?thesis
  proof (cases "truthy previous")
    case True
    with assms(2) prev show ?thesis by (auto simp: onError_def setQueryData_def)
  next
    case False
    with prev onMutate_falsy [of client opts variables] assms(1)
    have "qc_data client1 = qc_data client" by simp
    with False assms(2) show ?thesis by (auto simp: onError_def)
  qed
qed

theorem failed_delete_rolls_back_witness:
  "qc_data (onError sample_options (Some (fst (onMutate sample_options ''a'' sample_client)))
      (snd (onMutate sample_options ''a'' sample_client))) ''tags'' = qc_data sample_client ''tags''"
proof -
  have q: "do_queryKey sample_options = ''tags''" by (simp add: sample_options_def)
  have "\<forall>k. qc_data (snd (onMutate sample_options ''a'' sample_client)) k =
      (if k = do_queryKey sample_options then qc_data (snd (onMutate sample_options ''a'' sample_client)) k
       else qc_data sample_client k)"
    by (simp add: onMutate_other)
  from failed_delete_rolls_back [OF prod.collapse [symmetric] this] q show ?thesis by simp
qed

end
