(* ===== verification/GatewayForm.thy ===== *)
theory GatewayForm
  imports JsCollections
begin

text \<open>
  \<open>src/lib/gateway-form.ts\<close>: the validation of a gateway URL and the connection check.
  \<open>new URL\<close> is the argument \<open>parse_url\<close>, which gives the protocol of a URL or fails;
  the generated API call is the argument \<open>status_api\<close>.
\<close>

section \<open>Explicit ports\<close>

definition after_last :: "char \<Rightarrow> string \<Rightarrow> string" where
  "after_last c s = rev (takeWhile (\<lambda>x. x \<noteq> c) (rev s))"

definition port_segment_ok :: "string \<Rightarrow> bool" where
  "port_segment_ok seg \<longleftrightarrow>
     starts_with seg '':'' \<and> tl seg \<noteq> [] \<and> list_all is_digit (tl seg) \<and> read_nat (tl seg) \<le> 65535"

text \<open>The slice after \<open>urlString.indexOf("//") + 2\<close>; without "//" the index is -1.\<close>

definition without_scheme :: "string \<Rightarrow> string" where
  "without_scheme s = (case index_of s ''//'' of None \<Rightarrow> drop 1 s | Some i \<Rightarrow> drop (i + 2) s)"

definition authority_end :: "char \<Rightarrow> bool" where
  "authority_end c \<longleftrightarrow> c = CHR ''/'' \<or> c = CHR ''?'' \<or> c = CHR ''#''"

definition hasExplicitPort :: "string \<Rightarrow> bool" where
  "hasExplicitPort urlString =
     (let authority = takeWhile (\<lambda>c. \<not> authority_end c) (without_scheme urlString)
      in if authority = [] then False
         else (let hostPort = after_last (CHR ''@'') authority
               in if starts_with hostPort ''[''
                  then CHR '']'' \<in> set hostPort
                       \<and> port_segment_ok (tl (dropWhile (\<lambda>c. c \<noteq> CHR '']'') hostPort))
                  else CHR '':'' \<in> set hostPort
                       \<and> port_segment_ok (CHR '':'' # after_last (CHR '':'') hostPort)))"

section \<open>Validation\<close>

definition validateGatewayUrl :: "(string \<Rightarrow> string option) \<Rightarrow> string \<Rightarrow> string option" where
  "validateGatewayUrl parse_url input =
     (let trimmed = trim input
      in if trimmed = [] then Some ''Gateway URL is required.''
         else case parse_url trimmed of
                None \<Rightarrow> Some ''Enter a valid gateway URL including port.''
              | Some protocol \<Rightarrow>
                  if protocol \<noteq> ''ws:'' \<and> protocol \<noteq> ''wss:''
                  then Some ''Gateway URL must start with ws:// or wss://.''
                  else if \<not> hasExplicitPort trimmed
                  then Some ''Gateway URL must include an explicit port.''
                  else None)"

section \<open>Connection check\<close>

record gateway_form =
  gf_gatewayUrl :: string
  gf_gatewayToken :: string
  gf_gatewayDisableDevicePairing :: bool
  gf_gatewayAllowInsecureTls :: bool

record gateway_request =
  gr_gateway_url :: string
  gr_gateway_token :: "string option"
  gr_disable_device_pairing :: bool
  gr_allow_insecure_tls :: bool

text \<open>The call answers with a status and, on 200, the connection state, or throws.\<close>

datatype gateway_reply =
    Reply int bool "string option"
  | ThrowsError string
  | ThrowsOther

record check_result =
  cr_ok :: bool
  cr_message :: string

definition checkGatewayConnection :: "(gateway_request \<Rightarrow> gateway_reply) \<Rightarrow> gateway_form \<Rightarrow> check_result" where
  "checkGatewayConnection status_api params =
     (let token = trim (gf_gatewayToken params);
          request = \<lparr>gr_gateway_url = trim (gf_gatewayUrl params),
                     gr_gateway_token = (if token \<noteq> [] then Some token else None),
                     gr_disable_device_pairing = gf_gatewayDisableDevicePairing params,
                     gr_allow_insecure_tls = gf_gatewayAllowInsecureTls params\<rparr>
      in case status_api request of
           Reply status connected error \<Rightarrow>
             if status \<noteq> 200 then \<lparr>cr_ok = False, cr_message = ''Unable to reach gateway.''\<rparr>
             else if \<not> connected
             then \<lparr>cr_ok = False, cr_message = coalesce error ''Unable to reach gateway.''\<rparr>
             else \<lparr>cr_ok = True, cr_message = ''Gateway reachable.''\<rparr>
         | ThrowsError m \<Rightarrow> \<lparr>cr_ok = False, cr_message = m\<rparr>
         | ThrowsOther \<Rightarrow> \<lparr>cr_ok = False, cr_message = ''Unable to reach gateway.''\<rparr>)"

section \<open>Lemmas\<close>

lemma after_last_split: "c \<in> set s \<Longrightarrow> \<exists>p. s = p @ c # after_last c s"
proof -
  assume "c \<in> set s"
  then have "dropWhile (\<lambda>x. x \<noteq> c) (rev s) \<noteq> []" by simp
  then obtain d r where d: "dropWhile (\<lambda>x. x \<noteq> c) (rev s) = d # r" by (meson neq_Nil_conv)
  then have "d = c" using hd_dropWhile [of "\<lambda>x. x \<noteq> c" "rev s"] by simp
  then have "rev s = takeWhile (\<lambda>x. x \<noteq> c) (rev s) @ c # r"
    using takeWhile_dropWhile_id [of "\<lambda>x. x \<noteq> c" "rev s"] d by simp
  then have "s = rev r @ c # after_last c s"
    unfolding after_last_def by (metis rev_append rev_rev_ident rev.simps(2) append.assoc append_Cons append_Nil)
  then show ?thesis by blast
qed

lemma after_last_no: "c \<notin> set (after_last c s)"
  using set_takeWhileD [of c "\<lambda>x. x \<noteq> c" "rev s"] by (auto simp: after_last_def)

lemma takeWhile_rev_id: "c \<notin> set t \<Longrightarrow> takeWhile (\<lambda>x. x \<noteq> c) (rev t) = rev t"
  by (auto simp: takeWhile_eq_all_conv)

lemma after_last_append: "c \<notin> set t \<Longrightarrow> after_last c (p @ c # t) = t"
  by (simp add: after_last_def takeWhile_append2 takeWhile_tail takeWhile_rev_id)

lemma after_last_id: "c \<notin> set s \<Longrightarrow> after_last c s = s"
  by (simp add: after_last_def takeWhile_rev_id)

lemma index_of_scheme: "CHR ''/'' \<notin> set scheme \<Longrightarrow> index_of (scheme @ ''//'' @ r) ''//'' = Some (length scheme)"
  by (induction scheme) auto

lemma takeWhile_authority:
  assumes "list_all (\<lambda>c. \<not> authority_end c) a" and "tail = [] \<or> authority_end (hd tail)"
  shows "takeWhile (\<lambda>c. \<not> authority_end c) (a @ tail) = a"
  using assms by (cases tail) (auto simp: takeWhile_append2 list_all_iff)

text \<open>A well formed port: digits, at most 65535.\<close>

definition port_ok :: "string \<Rightarrow> bool" where
  "port_ok port \<longleftrightarrow> port \<noteq> [] \<and> list_all is_digit port \<and> read_nat port \<le> 65535"

lemma port_segment_ok_iff: "port_segment_ok seg \<longleftrightarrow> (\<exists>port. seg = CHR '':'' # port \<and> port_ok port)"
  by (cases seg) (auto simp: port_segment_ok_def port_ok_def)

lemma port_ok_chars: "port_ok port \<Longrightarrow> CHR '':'' \<notin> set port \<and> CHR ''@'' \<notin> set port \<and> CHR '']'' \<notin> set port"
  by (auto simp: port_ok_def list_all_iff is_digit_def char_code_def)

text \<open>The host of an authority: an IPv6 address in brackets, or anything that has no bracket in front.\<close>

definition host_form :: "string \<Rightarrow> bool" where
  "host_form host \<longleftrightarrow>
     (if starts_with host ''['' then \<exists>h. host = CHR ''['' # h @ '']'' \<and> CHR '']'' \<notin> set h else True)"

lemma dropWhile_bracket:
  "CHR '']'' \<notin> set h \<Longrightarrow> dropWhile (\<lambda>c. c \<noteq> CHR '']'') (h @ CHR '']'' # r) = CHR '']'' # r"
  by (induction h) auto

lemma host_port_iff:
  "(if starts_with hp ''[''
    then CHR '']'' \<in> set hp \<and> port_segment_ok (tl (dropWhile (\<lambda>c. c \<noteq> CHR '']'') hp))
    else CHR '':'' \<in> set hp \<and> port_segment_ok (CHR '':'' # after_last (CHR '':'') hp))
   \<longleftrightarrow> (\<exists>host port. hp = host @ CHR '':'' # port \<and> host_form host \<and> port_ok port)"
proof (cases "starts_with hp ''[''")
  case True
  then obtain r where r: "hp = CHR ''['' # r" by (cases hp) auto
  show ?thesis (is "?l \<longleftrightarrow> ?r")
  proof
    assume ?l
    with True have "CHR '']'' \<in> set r" and seg: "port_segment_ok (tl (dropWhile (\<lambda>c. c \<noteq> CHR '']'') r))"
      by (auto simp: r)
    then obtain h t where h: "r = h @ CHR '']'' # t" "CHR '']'' \<notin> set h" by (meson split_list_first)
    from seg obtain port where "t = CHR '':'' # port" "port_ok port"
      by (auto simp: h dropWhile_bracket port_segment_ok_iff)
    with h have "hp = (CHR ''['' # h @ '']'') @ CHR '':'' # port \<and> host_form (CHR ''['' # h @ '']'') \<and> port_ok port"
      by (auto simp: r host_form_def)
    then show ?r by blast
  next
    assume ?r
    then obtain host port where hp: "hp = host @ CHR '':'' # port" "host_form host" "port_ok port" by blast
    then have "starts_with host ''[''" using r by (cases host) auto
    with hp(2) obtain h where "host = CHR ''['' # h @ '']''" "CHR '']'' \<notin> set h"
      by (auto simp: host_form_def)
    with hp show ?l by (auto simp: dropWhile_bracket port_segment_ok_iff)
  qed
next
  case False
  show ?thesis (is "?l \<longleftrightarrow> ?r")
  proof
    assume ?l
    with False have colon: "CHR '':'' \<in> set hp" and seg: "port_ok (after_last (CHR '':'') hp)"
      by (simp_all add: port_segment_ok_iff)
    from after_last_split [OF colon] seg obtain p q where p: "hp = p @ CHR '':'' # q" and ok: "port_ok q"
      by blast
    have "\<not> starts_with p ''[''" using False p by (cases p) auto
    then have "host_form p" by (simp add: host_form_def)
    with p ok show ?r by blast
  next
    assume ?r
    then obtain host port where "hp = host @ CHR '':'' # port" "port_ok port" by blast
    with False show ?l by (auto simp: after_last_append port_ok_chars port_segment_ok_iff)
  qed
qed

section \<open>Properties\<close>

text \<open>A URL with an authority has an explicit port for the code exactly when its authority is
  user information (empty or ending in an at sign), a host and a colon with a decimal port
  of at most 65535; an IPv6 host must be in brackets, and colons inside them do not count.\<close>

theorem explicit_port_iff:
  assumes "CHR ''/'' \<notin> set scheme" and "authority \<noteq> []"
    and "list_all (\<lambda>c. \<not> authority_end c) authority" and "tail = [] \<or> authority_end (hd tail)"
  shows "hasExplicitPort (scheme @ ''//'' @ authority @ tail) \<longleftrightarrow>
    (\<exists>user host port. authority = user @ host @ CHR '':'' # port
       \<and> (user = [] \<or> last user = CHR ''@'') \<and> CHR ''@'' \<notin> set host
       \<and> host_form host \<and> port_ok port)"
proof -
  have "without_scheme (scheme @ ''//'' @ authority @ tail) = authority @ tail"
    by (simp add: without_scheme_def index_of_scheme [OF assms(1), simplified])
  then have "hasExplicitPort (scheme @ ''//'' @ authority @ tail) \<longleftrightarrow>
      (\<exists>host port. after_last (CHR ''@'') authority = host @ CHR '':'' # port \<and> host_form host \<and> port_ok port)"
    using assms(2) takeWhile_authority [OF assms(3,4)] host_port_iff
    by (simp add: hasExplicitPort_def Let_def)
  also have "\<dots> \<longleftrightarrow> (\<exists>user host port. authority = user @ host @ CHR '':'' # port
       \<and> (user = [] \<or> last user = CHR ''@'') \<and> CHR ''@'' \<notin> set host \<and> host_form host \<and> port_ok port)"
    (is "?l \<longleftrightarrow> ?r")
  proof
    assume ?l
    then obtain host port where hp: "after_last (CHR ''@'') authority = host @ CHR '':'' # port"
      "host_form host" "port_ok port" by blast
    have no: "CHR ''@'' \<notin> set host" using after_last_no [of "CHR ''@''" authority] hp(1) by simp
    show ?r
    proof (cases "CHR ''@'' \<in> set authority")
      case True
      then obtain p where "authority = (p @ ''@'') @ host @ CHR '':'' # port"
        using after_last_split hp(1) by fastforce
      with hp no show ?thesis by (metis last_snoc)
    next
      case False
      with hp no show ?thesis by (metis after_last_id append_Nil)
    qed
  next
    assume ?r
    then obtain user host port where a: "authority = user @ host @ CHR '':'' # port"
      "user = [] \<or> last user = CHR ''@''" "CHR ''@'' \<notin> set host" "host_form host" "port_ok port" by blast
    then have no: "CHR ''@'' \<notin> set (host @ CHR '':'' # port)" using port_ok_chars by auto
    have "after_last (CHR ''@'') authority = host @ CHR '':'' # port"
    proof (cases "user = []")
      case True
      with a(1) no show ?thesis by (simp add: after_last_id)
    next
      case False
      with a(1,2) have "authority = butlast user @ CHR ''@'' # (host @ CHR '':'' # port)"
        by (metis append_Cons append_Nil append.assoc append_butlast_last_id)
      with no show ?thesis by (simp add: after_last_append del: set_append)
    qed
    with a show ?l by blast
  qed
  finally show ?thesis .
qed

theorem explicit_port_iff_witness:
  "hasExplicitPort (''wss:'' @ ''//'' @ ''[::1]:443'' @ ''/ws'')"
proof (subst explicit_port_iff)
  have "''[::1]'' = CHR ''['' # ''::1'' @ '']'' \<and> CHR '']'' \<notin> set ''::1''" by simp
  then have "host_form ''[::1]''" unfolding host_form_def by metis
  moreover have "port_ok ''443''"
    by (simp add: port_ok_def read_nat_def digit_value_def char_code_def is_digit_def)
  ultimately show "\<exists>user host port. ''[::1]:443'' = user @ host @ CHR '':'' # port
       \<and> (user = [] \<or> last user = CHR ''@'') \<and> CHR ''@'' \<notin> set host \<and> host_form host \<and> port_ok port"
    by (intro exI [of _ "[]"] exI [of _ "''[::1]''"] exI [of _ "''443''"] conjI disjI1)
      (assumption | simp only: append.simps list.set char.inject insert_iff empty_iff | simp)+
qed (simp_all add: authority_end_def)

text \<open>a gateway URL is accepted exactly when it parses, its protocol is ws or wss, and it names
  its port; blank input is never accepted.\<close>

theorem gateway_url_accepted_iff:
  "validateGatewayUrl parse_url input = None \<longleftrightarrow>
   trim input \<noteq> [] \<and> (parse_url (trim input) = Some ''ws:'' \<or> parse_url (trim input) = Some ''wss:'')
   \<and> hasExplicitPort (trim input)"
  by (auto simp: validateGatewayUrl_def Let_def split: option.splits)

end
