(* ===== verification/WebClient.thy ===== *)
theory WebClient
  imports JsErrors JsUrl
begin

text \<open>
  How the frontend talks to the backend and keeps its sessions: \<open>src/lib/api-base.ts\<close>,
  \<open>src/auth\<close> (local token, Clerk key check, hooks, redirect after sign-in),
  \<open>src/proxy.ts\<close> and the fetch wrapper of \<open>src/api/mutator.ts\<close>. The environment
  variables, the browser (\<open>window\<close>), the URL parser, the network and the Clerk session
  are arguments.
\<close>

section \<open>API base URL\<close>

datatype client_error =
    ConfigError string
  | ApiError int string js
  | SyntaxError
  | NetworkError

record location =
  loc_protocol :: string
  loc_hostname :: string

definition getApiBaseUrl :: "string option \<Rightarrow> location option \<Rightarrow> client_error + string" where
  "getApiBaseUrl env_url window =
     (case trim_or_null env_url of
        Some raw \<Rightarrow>
          if to_lower raw \<noteq> ''auto''
          then (let normalized = strip_trailing (CHR ''/'') raw
                in if normalized = [] then Inl (ConfigError ''NEXT_PUBLIC_API_URL is invalid.'')
                   else Inr normalized)
          else (case window of
                  Some w \<Rightarrow> if loc_hostname w \<noteq> []
                    then Inr ((if loc_protocol w = ''https:'' then ''https'' else ''http'') @ ''://'' @ loc_hostname w @ '':8000'')
                    else Inl (ConfigError ''NEXT_PUBLIC_API_URL is not set and cannot be auto-resolved outside the browser.'')
                | None \<Rightarrow> Inl (ConfigError ''NEXT_PUBLIC_API_URL is not set and cannot be auto-resolved outside the browser.''))
      | None \<Rightarrow> (case window of
                  Some w \<Rightarrow> if loc_hostname w \<noteq> []
                    then Inr ((if loc_protocol w = ''https:'' then ''https'' else ''http'') @ ''://'' @ loc_hostname w @ '':8000'')
                    else Inl (ConfigError ''NEXT_PUBLIC_API_URL is not set and cannot be auto-resolved outside the browser.'')
                | None \<Rightarrow> Inl (ConfigError ''NEXT_PUBLIC_API_URL is not set and cannot be auto-resolved outside the browser.'')))"

section \<open>The local token\<close>

text \<open>\<open>sessionStorage\<close>: no window, a storage whose access throws, or the stored token.\<close>

datatype session_storage = NoWindow | Denied | Stored "string option"

record local_auth =
  la_token :: "string option"
  la_storage :: session_storage

definition isLocalAuthMode :: "string option \<Rightarrow> bool" where
  "isLocalAuthMode env_mode \<longleftrightarrow> env_mode = Some ''local''"

definition setLocalAuthToken :: "string \<Rightarrow> local_auth \<Rightarrow> local_auth" where
  "setLocalAuthToken token s =
     (let s = s\<lparr>la_token := Some token\<rparr>
      in case la_storage s of Stored _ \<Rightarrow> s\<lparr>la_storage := Stored (Some token)\<rparr> | _ \<Rightarrow> s)"

definition getLocalAuthToken :: "local_auth \<Rightarrow> string option \<times> local_auth" where
  "getLocalAuthToken s =
     (case la_token s \<bind> truthy_str of
        Some t \<Rightarrow> (Some t, s)
      | None \<Rightarrow>
          (case la_storage s of
             Stored (Some stored) \<Rightarrow>
               if stored \<noteq> [] then (Some stored, s\<lparr>la_token := Some stored\<rparr>) else (None, s)
           | _ \<Rightarrow> (None, s)))"

definition clearLocalAuthToken :: "local_auth \<Rightarrow> local_auth" where
  "clearLocalAuthToken s =
     (let s = s\<lparr>la_token := None\<rparr>
      in case la_storage s of Stored _ \<Rightarrow> s\<lparr>la_storage := Stored None\<rparr> | _ \<Rightarrow> s)"

section \<open>Clerk\<close>

definition isLikelyValidClerkPublishableKey :: "string option \<Rightarrow> bool" where
  "isLikelyValidClerkPublishableKey key =
     (case key of
        None \<Rightarrow> False
      | Some k \<Rightarrow>
          (if starts_with k ''pk_test_'' \<or> starts_with k ''pk_live_''
           then (let body = drop 8 k
                 in body \<noteq> [] \<and> list_all is_alnum body
                    \<and> \<not> length body < 16 \<and> \<not> list_all (\<lambda>c. c = CHR ''0'') body)
           else False))"

definition isClerkEnabled :: "string option \<Rightarrow> string option \<Rightarrow> bool" where
  "isClerkEnabled env_mode env_key =
     (if isLocalAuthMode env_mode then False else isLikelyValidClerkPublishableKey env_key)"

record auth_state =
  au_isLoaded :: bool
  au_isSignedIn :: bool
  au_userId :: "string option"
  au_sessionId :: "string option"
  au_token :: "string option"

definition useAuth :: "string option \<Rightarrow> string option \<Rightarrow> auth_state \<Rightarrow> local_auth \<Rightarrow> auth_state \<times> local_auth" where
  "useAuth env_mode env_key clerk s =
     (if isLocalAuthMode env_mode
      then (let (token, s') = getLocalAuthToken s
            in (\<lparr>au_isLoaded = True, au_isSignedIn = token \<noteq> None,
                 au_userId = map_option (\<lambda>_. ''local-user'') token,
                 au_sessionId = map_option (\<lambda>_. ''local-session'') token, au_token = token\<rparr>, s'))
      else if \<not> isClerkEnabled env_mode env_key
      then (\<lparr>au_isLoaded = True, au_isSignedIn = False, au_userId = None, au_sessionId = None,
             au_token = None\<rparr>, s)
      else (clerk, s))"

section \<open>Redirect after sign-in\<close>

record parsed_url =
  url_origin :: string
  url_host :: string
  url_pathname :: string
  url_search :: string
  url_hash :: string

definition DEFAULT_SIGN_IN_REDIRECT :: string where
  "DEFAULT_SIGN_IN_REDIRECT = ''/onboarding''"

definition isSafeRelativePath :: "string \<Rightarrow> bool" where
  "isSafeRelativePath v \<longleftrightarrow> starts_with v ''/'' \<and> \<not> starts_with v ''//''"

definition resolveSignInRedirectUrl ::
  "(string \<Rightarrow> string \<Rightarrow> parsed_url option) \<Rightarrow> string option \<Rightarrow> string option \<Rightarrow> string option \<Rightarrow> string" where
  "resolveSignInRedirectUrl parse_url env_fallback window_origin rawRedirect =
     (let fallback = coalesce env_fallback DEFAULT_SIGN_IN_REDIRECT
      in case rawRedirect of
           None \<Rightarrow> fallback
         | Some raw \<Rightarrow>
             if raw = [] then fallback
             else if isSafeRelativePath raw then raw
             else case window_origin of
                    None \<Rightarrow> fallback
                  | Some origin \<Rightarrow>
                      (case parse_url raw origin of
                         None \<Rightarrow> fallback
                       | Some u \<Rightarrow> if url_origin u \<noteq> origin then fallback
                                   else url_pathname u @ url_search u @ url_hash u))"

section \<open>The proxy\<close>

definition isClerkInternalPath :: "string \<Rightarrow> bool" where
  "isClerkInternalPath pathname \<longleftrightarrow> starts_with pathname ''/_clerk'' \<or> starts_with pathname ''/v1/''"

text \<open>Header names are compared in lower case.\<close>

type_synonym headers = "(string \<times> string) list"

definition header_get :: "string \<Rightarrow> headers \<Rightarrow> string option" where
  "header_get name hs = map_of hs (to_lower name)"

definition header_set :: "string \<Rightarrow> string \<Rightarrow> headers \<Rightarrow> headers" where
  "header_set name v hs = map_set (to_lower name) v hs"

record proxy_request =
  pr_url :: parsed_url
  pr_headers :: headers

definition requestOrigin :: "proxy_request \<Rightarrow> string" where
  "requestOrigin req =
     (let host = or_else (header_get ''x-forwarded-host'' (pr_headers req)) (header_get ''host'' (pr_headers req));
          proto = coalesce (header_get ''x-forwarded-proto'' (pr_headers req)) ''http''
      in case host of
           Some h \<Rightarrow> if h \<noteq> [] then proto @ ''://'' @ h else url_origin (pr_url req)
         | None \<Rightarrow> url_origin (pr_url req))"

definition returnBackUrlFor :: "proxy_request \<Rightarrow> string" where
  "returnBackUrlFor req =
     requestOrigin req @ url_pathname (pr_url req) @ url_search (pr_url req) @ url_hash (pr_url req)"

datatype proxy_result = Next | RedirectToSignIn string

definition proxy ::
  "(string \<Rightarrow> bool) \<Rightarrow> string option \<Rightarrow> string option \<Rightarrow> string option \<Rightarrow> proxy_request \<Rightarrow> proxy_result" where
  "proxy isPublicRoute env_mode env_key userId req =
     (if isClerkEnabled env_mode env_key
      then (if isClerkInternalPath (url_pathname (pr_url req)) then Next
            else if isPublicRoute (url_pathname (pr_url req)) then Next
            else if userId = None \<or> userId = Some [] then RedirectToSignIn (returnBackUrlFor req)
            else Next)
      else Next)"

section \<open>The fetch wrapper\<close>

text \<open>A response: \<open>res_json\<close> and \<open>res_text\<close> are \<open>None\<close> where reading the body fails.\<close>

record response =
  res_status :: int
  res_headers :: headers
  res_json :: "js option"
  res_text :: "string option"

datatype response_data = NoData | JsonData js | EventStream response | TextData string

record fetch_result =
  fr_data :: response_data
  fr_status :: int
  fr_headers :: headers

record request =
  rq_url :: string
  rq_headers :: headers
  rq_body :: "string option"

definition res_ok :: "response \<Rightarrow> bool" where
  "res_ok r \<longleftrightarrow> 200 \<le> res_status r \<and> res_status r \<le> 299"

definition is_json_type :: "string \<Rightarrow> bool" where
  "is_json_type t \<longleftrightarrow> str_includes t ''application/json'' \<or> str_includes t ''+json''"

definition with_bearer :: "string option \<Rightarrow> headers \<Rightarrow> headers" where
  "with_bearer token hs =
     (case token of
        Some t \<Rightarrow> if t \<noteq> [] then header_set ''Authorization'' (''Bearer '' @ t) hs else hs
      | None \<Rightarrow> hs)"

definition request_headers ::
  "bool \<Rightarrow> string option \<Rightarrow> local_auth \<Rightarrow> string option \<Rightarrow> headers \<Rightarrow> headers \<times> local_auth" where
  "request_headers local_mode body s clerk_token hs0 =
     (let hs1 = (if body \<noteq> None \<and> header_get ''Content-Type'' hs0 = None
                 then header_set ''Content-Type'' ''application/json'' hs0 else hs0);
          (hs2, s2) = (if local_mode \<and> header_get ''Authorization'' hs1 = None
                       then (let (token, s') = getLocalAuthToken s in (with_bearer token hs1, s'))
                       else (hs1, s));
          hs3 = (if header_get ''Authorization'' hs2 = None then with_bearer clerk_token hs2 else hs2)
      in (hs3, s2))"

definition error_message :: "js \<Rightarrow> string" where
  "error_message errorData =
     (case errorData of
        Str t \<Rightarrow> if t \<noteq> [] then t else ''Request failed''
      | Obj p \<Rightarrow>
          (case get_prop p ''detail'' of
             Str d \<Rightarrow> if d \<noteq> [] then d else ''Request failed''
           | Arr (first # _) \<Rightarrow>
               (case first of
                  Obj q \<Rightarrow> (case get_prop q ''msg'' of Str m \<Rightarrow> m | _ \<Rightarrow> ''Request failed'')
                | _ \<Rightarrow> ''Request failed'')
           | _ \<Rightarrow> ''Request failed'')
      | _ \<Rightarrow> ''Request failed'')"

definition read_response :: "response \<Rightarrow> client_error + fetch_result" where
  "read_response r =
     (let contentType = coalesce (header_get ''content-type'' (res_headers r)) [];
          result = (\<lambda>d. \<lparr>fr_data = d, fr_status = res_status r, fr_headers = res_headers r\<rparr>)
      in if \<not> res_ok r
         then (let errorData = (if is_json_type contentType then coalesce (res_json r) Null
                                else Str (coalesce (res_text r) []))
               in Inl (ApiError (res_status r) (error_message errorData) errorData))
         else if res_status r = 204 then Inr (result NoData)
         else if is_json_type contentType
         then (case res_json r of None \<Rightarrow> Inl SyntaxError | Some d \<Rightarrow> Inr (result (JsonData d)))
         else if str_includes contentType ''text/event-stream'' then Inr (result (EventStream r))
         else Inr (result (TextData (coalesce (res_text r) []))))"

definition customFetch ::
  "string option \<Rightarrow> location option \<Rightarrow> string option \<Rightarrow> (request \<Rightarrow> response option)
    \<Rightarrow> string option \<Rightarrow> string \<Rightarrow> request \<Rightarrow> local_auth \<Rightarrow> (client_error + fetch_result) \<times> local_auth" where
  "customFetch env_url window env_mode network clerk_token url options s =
     (case getApiBaseUrl env_url window of
        Inl e \<Rightarrow> (Inl e, s)
      | Inr baseUrl \<Rightarrow>
          (let (hs, s') = request_headers (isLocalAuthMode env_mode) (rq_body options) s clerk_token
                            (map (\<lambda>(k, v). (to_lower k, v)) (rq_headers options))
           in (case network (options\<lparr>rq_url := baseUrl @ url, rq_headers := hs\<rparr>) of
                 None \<Rightarrow> Inl NetworkError
               | Some r \<Rightarrow> read_response r, s')))"

section \<open>Lemmas\<close>

lemma header_get_set: "header_get n (header_set m v hs) = (if to_lower n = to_lower m then Some v else header_get n hs)"
  by (simp add: header_get_def header_set_def)

lemma lower_names [simp]:
  "to_lower ''Authorization'' = ''authorization''" "to_lower ''Content-Type'' = ''content-type''"
  "to_lower ''content-type'' = ''content-type''"
  by code_simp+

lemma header_get_bearer:
  "header_get n (with_bearer t hs) =
   (if to_lower n = ''authorization'' \<and> t \<noteq> None \<and> t \<noteq> Some [] then Some (''Bearer '' @ the t)
    else header_get n hs)"
  by (simp add: with_bearer_def header_get_set split: option.split)

lemma getLocalAuthToken_nonempty: "fst (getLocalAuthToken s) \<noteq> Some []"
proof (cases "la_token s \<bind> truthy_str")
  case None
  then show ?thesis by (auto simp: getLocalAuthToken_def split: session_storage.split option.split)
next
  case (Some t)
  then have "t \<noteq> []" by (cases "la_token s") auto
  with Some show ?thesis by (simp add: getLocalAuthToken_def)
qed

text \<open>The bearer token a request carries when the caller sets no header of its own.\<close>

definition bearer_token :: "bool \<Rightarrow> local_auth \<Rightarrow> string option \<Rightarrow> string option" where
  "bearer_token local_mode s clerk_token =
     (case (if local_mode then fst (getLocalAuthToken s) else None) of
        Some t \<Rightarrow> Some t
      | None \<Rightarrow> if clerk_token = Some [] then None else clerk_token)"

lemma request_headers_all:
  "header_get n (fst (request_headers local_mode body s clerk_token hs)) =
   (if to_lower n = ''authorization'' then
      (case header_get n hs of
         Some a \<Rightarrow> Some a
       | None \<Rightarrow> map_option (\<lambda>t. ''Bearer '' @ t) (bearer_token local_mode s clerk_token))
    else if to_lower n = ''content-type'' \<and> body \<noteq> None \<and> header_get n hs = None
    then Some ''application/json'' else header_get n hs)"
proof -
  obtain token s' where g: "getLocalAuthToken s = (token, s')" by fastforce
  then have t: "token \<noteq> Some []" using getLocalAuthToken_nonempty [of s] by simp
  have same: "header_get n xs = header_get m xs" if "to_lower n = to_lower m" for n m xs
    using that by (simp add: header_get_def)
  show ?thesis
  proof (cases "to_lower n = ''authorization''")
    case True
    then have "header_get n xs = header_get ''Authorization'' xs" for xs by (simp add: same)
    with t True show ?thesis
      by (auto simp: request_headers_def bearer_token_def g Let_def header_get_set header_get_bearer
          split: option.split)
  next
    case False
    then show ?thesis
    proof (cases "to_lower n = ''content-type''")
      case ct: True
      then have "header_get n xs = header_get ''Content-Type'' xs" for xs by (simp add: same)
      with False ct show ?thesis
        by (auto simp: request_headers_def g Let_def header_get_set header_get_bearer split: option.split)
    next
      case ct: False
      with False show ?thesis
        by (auto simp: request_headers_def g Let_def header_get_set header_get_bearer split: option.split)
    qed
  qed
qed

lemma error_message_empty:
  "error_message d = [] \<Longrightarrow>
   \<exists>p q rest. d = Obj p \<and> get_prop p ''detail'' = Arr (Obj q # rest) \<and> get_prop q ''msg'' = Str []"
  by (auto simp: error_message_def split: js.splits list.splits if_splits)

section \<open>Properties\<close>

text \<open>what a request carries: an Authorization header of the caller is never replaced; otherwise
  the local token is used in local mode and the Clerk token when there is none; a body gets
  a JSON content type unless the caller gave one; all other headers are the caller's.\<close>

theorem request_headers_spec:
  "header_get ''Authorization'' (fst (request_headers local_mode body s clerk_token hs)) =
     (case header_get ''Authorization'' hs of
        Some a \<Rightarrow> Some a
      | None \<Rightarrow> map_option (\<lambda>t. ''Bearer '' @ t) (bearer_token local_mode s clerk_token))
   \<and> header_get ''Content-Type'' (fst (request_headers local_mode body s clerk_token hs)) =
     (if body \<noteq> None \<and> header_get ''Content-Type'' hs = None then Some ''application/json''
      else header_get ''Content-Type'' hs)
   \<and> (to_lower name \<notin> {''authorization'', ''content-type''} \<longrightarrow>
      header_get name (fst (request_headers local_mode body s clerk_token hs)) = header_get name hs)"
  by (simp add: request_headers_all)

theorem request_headers_spec_witness:
  "to_lower ''X-Trace'' \<notin> {''authorization'', ''content-type''}
   \<and> header_get ''X-Trace'' (fst (request_headers True (Some ''{}'') \<lparr>la_token = None, la_storage = NoWindow\<rparr>
        (Some ''tok'') [(''x-trace'', ''1'')])) = header_get ''X-Trace'' [(''x-trace'', ''1'')]"
proof -
  have n: "to_lower ''X-Trace'' = ''x-trace''" by code_simp
  then show ?thesis
    using request_headers_spec [of True "Some ''{}''" "\<lparr>la_token = None, la_storage = NoWindow\<rparr>"
      "Some ''tok''" "[(''x-trace'', ''1'')]" "''X-Trace''"] by simp
qed

text \<open>the local token survives a reload: a non-empty token that was set is what the next read
  gives, also after the module state is lost when the storage works; and after clearing no
  token is read, whatever the storage.\<close>

theorem local_token_roundtrip:
  assumes "token \<noteq> []"
  shows "fst (getLocalAuthToken (setLocalAuthToken token s)) = Some token
    \<and> (la_storage s = Stored old \<longrightarrow>
       fst (getLocalAuthToken ((setLocalAuthToken token s)\<lparr>la_token := None\<rparr>)) = Some token)
    \<and> fst (getLocalAuthToken (clearLocalAuthToken s)) = None"
  using assms
  by (auto simp: getLocalAuthToken_def setLocalAuthToken_def clearLocalAuthToken_def Let_def truthy_str_def
      split: session_storage.split)

theorem local_token_roundtrip_witness:
  "fst (getLocalAuthToken ((setLocalAuthToken ''abc'' \<lparr>la_token = None, la_storage = Stored None\<rparr>)\<lparr>la_token := None\<rparr>)) = Some ''abc''"
  using local_token_roundtrip [of "''abc''" "\<lparr>la_token = None, la_storage = Stored None\<rparr>" None] by simp

text \<open>in local mode the user counts as signed in exactly when the requests of the session carry a
  local bearer token, and the token is the one they carry.\<close>

theorem signed_in_iff_bearer:
  assumes "isLocalAuthMode env_mode" and "header_get ''Authorization'' hs = None"
  shows "au_isSignedIn (fst (useAuth env_mode env_key clerk s)) \<longleftrightarrow>
      header_get ''Authorization'' (fst (request_headers True body s None hs)) \<noteq> None"
    (is "?signed \<longleftrightarrow> ?sent")
proof -
  have "?sent \<longleftrightarrow> bearer_token True s None \<noteq> None"
    using assms(2) by (simp add: request_headers_all)
  also have "\<dots> \<longleftrightarrow> fst (getLocalAuthToken s) \<noteq> None"
    by (simp add: bearer_token_def split: option.split)
  also have "\<dots> \<longleftrightarrow> ?signed"
    using assms(1) by (cases "getLocalAuthToken s") (simp add: useAuth_def)
  finally show ?thesis by simp
qed

theorem signed_in_iff_bearer_witness:
  "au_isSignedIn (fst (useAuth (Some ''local'') None undefined \<lparr>la_token = Some ''t'', la_storage = NoWindow\<rparr>)) \<longleftrightarrow>
   header_get ''Authorization'' (fst (request_headers True None \<lparr>la_token = Some ''t'', la_storage = NoWindow\<rparr> None [])) \<noteq> None"
  by (rule signed_in_iff_bearer) (simp_all add: isLocalAuthMode_def header_get_def)

text \<open>Reading a response fails exactly when its status is not 2xx (an ApiError with that status)
  or its body is announced as JSON and does not parse; the error message is never empty
  unless the first validation problem of the body has an empty text.\<close>

theorem read_response_errors:
  "((\<exists>r. read_response resp = Inr r) \<longleftrightarrow>
     res_ok resp \<and> \<not> (res_status resp \<noteq> 204
       \<and> is_json_type (coalesce (header_get ''content-type'' (res_headers resp)) []) \<and> res_json resp = None))
   \<and> (\<forall>st m d. read_response resp = Inl (ApiError st m d) \<longrightarrow> \<not> res_ok resp \<and> st = res_status resp
        \<and> (m \<noteq> [] \<or> (\<exists>p q rest. d = Obj p \<and> get_prop p ''detail'' = Arr (Obj q # rest)
             \<and> get_prop q ''msg'' = Str [])))"
proof (intro conjI allI impI)
  show "(\<exists>r. read_response resp = Inr r) \<longleftrightarrow>
     res_ok resp \<and> \<not> (res_status resp \<noteq> 204
       \<and> is_json_type (coalesce (header_get ''content-type'' (res_headers resp)) []) \<and> res_json resp = None)"
    by (auto simp: read_response_def Let_def split: option.split)
  fix st m d
  assume e: "read_response resp = Inl (ApiError st m d)"
  show "\<not> res_ok resp" using e by (auto simp: read_response_def Let_def split: if_splits option.splits)
  show "st = res_status resp" using e by (auto simp: read_response_def Let_def split: if_splits option.splits)
  have "m = error_message d" using e by (auto simp: read_response_def Let_def split: if_splits option.splits)
  then show "m \<noteq> [] \<or> (\<exists>p q rest. d = Obj p \<and> get_prop p ''detail'' = Arr (Obj q # rest)
      \<and> get_prop q ''msg'' = Str [])"
    using error_message_empty [of d] by (cases "m = []") simp_all
qed

theorem read_response_errors_witness:
  "\<exists>m. read_response \<lparr>res_status = 404, res_headers = [], res_json = None, res_text = Some ''gone''\<rparr>
     = Inl (ApiError 404 m (Str ''gone'')) \<and> m \<noteq> []"
  using read_response_errors [of "\<lparr>res_status = 404, res_headers = [], res_json = None, res_text = Some ''gone''\<rparr>"]
  by (simp add: read_response_def Let_def header_get_def is_json_type_def error_message_def res_ok_def)

text \<open>After a sign-in the user is sent to the configured fallback, to the given path when that is
  one on this site, or to the path of a URL with the origin of this site.\<close>

theorem sign_in_redirect_cases:
  "resolveSignInRedirectUrl parse_url env_fallback window_origin rawRedirect =
     coalesce env_fallback DEFAULT_SIGN_IN_REDIRECT
   \<or> (\<exists>raw. rawRedirect = Some raw \<and> isSafeRelativePath raw
        \<and> resolveSignInRedirectUrl parse_url env_fallback window_origin rawRedirect = raw)
   \<or> (\<exists>raw origin u. rawRedirect = Some raw \<and> window_origin = Some origin \<and> parse_url raw origin = Some u
        \<and> url_origin u = origin
        \<and> resolveSignInRedirectUrl parse_url env_fallback window_origin rawRedirect
            = url_pathname u @ url_search u @ url_hash u)"
  by (auto simp: resolveSignInRedirectUrl_def Let_def split: option.split)

text \<open>the path of a URL on this site is not checked again: a URL with the origin of this site and
  a path that starts with two slashes is turned into a protocol-relative redirect, which
  the check for relative paths would have refused.\<close>

theorem redirect_can_leave_site:
  assumes "parse_url raw origin = Some \<lparr>url_origin = origin, url_host = h, url_pathname = ''//evil.example'',
      url_search = [], url_hash = []\<rparr>"
    and "\<not> starts_with raw ''/''" and "raw \<noteq> []"
  shows "resolveSignInRedirectUrl parse_url env_fallback (Some origin) (Some raw) = ''//evil.example''
    \<and> \<not> isSafeRelativePath (resolveSignInRedirectUrl parse_url env_fallback (Some origin) (Some raw))"
  using assms by (simp add: resolveSignInRedirectUrl_def isSafeRelativePath_def)

definition sample_parse_url :: "string \<Rightarrow> string \<Rightarrow> parsed_url option" where
  "sample_parse_url raw base =
     (if starts_with raw base
      then Some \<lparr>url_origin = base, url_host = drop 7 base, url_pathname = drop (length base) raw,
                 url_search = [], url_hash = []\<rparr> else None)"

theorem redirect_can_leave_site_witness:
  "resolveSignInRedirectUrl sample_parse_url None (Some ''http://app'') (Some ''http://app//evil.example'') = ''//evil.example''"
  using redirect_can_leave_site [of sample_parse_url "''http://app//evil.example''" "''http://app''" "''app''" None]
  by (simp add: sample_parse_url_def)

end
