(* ===== verification/EventStream.thy ===== *)
theory EventStream
  imports JsCollections
begin

text \<open>
  The reader of server-sent events that the five streams of the board page share
  (\<open>src/app/boards/[boardId]/page.tsx\<close>: chat, approvals, tasks, agents, activity). A
  chunk is appended to the buffer, line ends are normalised in the whole buffer, and every
  complete frame (up to an empty line) is cut off and parsed. The activity stream has a
  loop of its own, which differs on frames that do not decode.

  \<open>TextDecoder\<close> with \<open>stream: true\<close> is the identity on the UTF-8 bytes: frames are
  cut at ASCII characters only, so a character split between two chunks stays whole.
\<close>

section \<open>The buffer\<close>

abbreviation LF :: char where "LF \<equiv> CHR 0x0A"
abbreviation CR :: char where "CR \<equiv> CHR 0x0D"

text \<open>\<open>buffer.replace(/\r\n/g, "\n")\<close>\<close>

fun normalize_newlines :: "string \<Rightarrow> string" where
  "normalize_newlines (c # d # s) =
     (if c = CR \<and> d = LF then LF # normalize_newlines s else c # normalize_newlines (d # s))"
| "normalize_newlines s = s"

text \<open>The first empty line: \<open>buffer.indexOf("\n\n")\<close>, as the text before it and after it.\<close>

fun cut_frame :: "string \<Rightarrow> (string \<times> string) option" where
  "cut_frame (c # d # s) =
     (if c = LF \<and> d = LF then Some ([], s)
      else map_option (\<lambda>(raw, rest). (c # raw, rest)) (cut_frame (d # s)))"
| "cut_frame s = None"

lemma cut_frame_Some: "cut_frame s = Some (raw, rest) \<Longrightarrow> s = raw @ LF # LF # rest"
  by (induction s arbitrary: raw rule: cut_frame.induct) (auto split: if_splits)

lemma cut_frame_index: "cut_frame s = map_option (\<lambda>i. (take i s, drop (i + 2) s)) (index_of s [LF, LF])"
proof (induction s rule: cut_frame.induct)
  case (1 c d s)
  then show ?case by (cases "index_of (d # s) [LF, LF]") auto
qed auto

function drain :: "string \<Rightarrow> string list \<times> string" where
  "drain buffer =
     (case cut_frame buffer of
        None \<Rightarrow> ([], buffer)
      | Some (raw, rest) \<Rightarrow> (let (raws, buffer') = drain rest in (raw # raws, buffer')))"
  by pat_completeness auto
termination
  by (relation "measure length") (auto dest!: cut_frame_Some)

declare drain.simps [simp del]

lemma drain_None: "cut_frame s = None \<Longrightarrow> drain s = ([], s)"
  by (simp add: drain.simps)

lemma drain_Some: "cut_frame s = Some (raw, rest) \<Longrightarrow> drain s = (raw # fst (drain rest), snd (drain rest))"
  by (simp add: drain.simps [of s] case_prod_beta Let_def)

section \<open>Frames\<close>

record sse_event =
  ev_type :: string
  ev_data :: string

definition parse_line :: "sse_event \<Rightarrow> string \<Rightarrow> sse_event" where
  "parse_line e line =
     (if starts_with line ''event:'' then e\<lparr>ev_type := trim (drop 6 line)\<rparr>
      else if starts_with line ''data:'' then e\<lparr>ev_data := ev_data e @ trim (drop 5 line)\<rparr>
      else e)"

definition parse_frame :: "string \<Rightarrow> sse_event" where
  "parse_frame raw = foldl parse_line \<lparr>ev_type = ''message'', ev_data = []\<rparr> (split_char LF raw)"

text \<open>One chunk: the events it completes and the buffer it leaves.\<close>

definition read_chunk :: "string \<Rightarrow> string \<Rightarrow> sse_event list \<times> string" where
  "read_chunk buffer chunk =
     (let (raws, buffer') = drain (normalize_newlines (buffer @ chunk)) in (map parse_frame raws, buffer'))"

fun read_chunks :: "string \<Rightarrow> string list \<Rightarrow> sse_event list \<times> string" where
  "read_chunks buffer [] = ([], buffer)"
| "read_chunks buffer (c # cs) =
     (let (es, buffer') = read_chunk buffer c; (es', buffer'') = read_chunks buffer' cs
      in (es @ es', buffer''))"

text \<open>The events of one kind with data, which the handlers look at.\<close>

definition handled :: "string \<Rightarrow> sse_event list \<Rightarrow> string list" where
  "handled kind es = map ev_data (filter (\<lambda>e. ev_type e = kind \<and> ev_data e \<noteq> []) es)"

section \<open>The loop of the activity stream\<close>

text \<open>
  \<open>boundary\<close> is the loop variable. When a frame does not decode, \<open>continue\<close> jumps to
  the loop test without the assignment at the end of the body, so the next round cuts the
  buffer at the old boundary.
\<close>

definition malformed :: "(string \<Rightarrow> bool) \<Rightarrow> sse_event \<Rightarrow> bool" where
  "malformed decodes e \<longleftrightarrow> ev_type e = ''activity'' \<and> ev_data e \<noteq> [] \<and> \<not> decodes (ev_data e)"

definition delivered :: "(string \<Rightarrow> bool) \<Rightarrow> sse_event \<Rightarrow> string list" where
  "delivered decodes e = (if ev_type e = ''activity'' \<and> ev_data e \<noteq> [] \<and> decodes (ev_data e) then [ev_data e] else [])"

lemma parse_frame_Nil: "parse_frame [] = \<lparr>ev_type = ''message'', ev_data = []\<rparr>"
  by (simp add: parse_frame_def parse_line_def)

lemma index_of_bound: "index_of s t = Some i \<Longrightarrow> i + length t \<le> length s"
  by (induction s arbitrary: i) (auto split: if_splits dest: starts_with_length)

function activity_loop :: "(string \<Rightarrow> bool) \<Rightarrow> string \<Rightarrow> nat option \<Rightarrow> string list \<times> string" where
  "activity_loop decodes buffer None = ([], buffer)"
| "activity_loop decodes buffer (Some boundary) =
     (let raw = take boundary buffer; rest = drop (boundary + 2) buffer; e = parse_frame raw;
          next_boundary = (if malformed decodes e then Some boundary else index_of rest [LF, LF]);
          (ds, buffer') = activity_loop decodes rest next_boundary
      in (delivered decodes e @ ds, buffer'))"
  by pat_completeness auto
termination
proof (relation "measure (\<lambda>(d, buffer, b). 2 * length buffer + (if b = None then 0 else 1))")
  fix decodes :: "string \<Rightarrow> bool" and buffer :: string and boundary raw rest e next_boundary
  assume *: "raw = take boundary buffer" "rest = drop (boundary + 2) buffer" "e = parse_frame raw"
    "next_boundary = (if malformed decodes e then Some boundary else index_of rest [LF, LF])"
  show "((decodes, rest, next_boundary), (decodes, buffer, Some boundary))
      \<in> measure (\<lambda>(d, buffer, b). 2 * length buffer + (if b = None then 0 else 1))"
  proof (cases "buffer = []")
    case True
    with * have "next_boundary = None" "rest = []"
      by (simp_all add: parse_frame_Nil malformed_def)
    with True show ?thesis by simp
  next
    case False
    then have "length rest < length buffer" using * by simp
    then show ?thesis by simp
  qed
qed simp

definition read_activity_chunk :: "(string \<Rightarrow> bool) \<Rightarrow> string \<Rightarrow> string \<Rightarrow> string list \<times> string" where
  "read_activity_chunk decodes buffer chunk =
     (let b = normalize_newlines (buffer @ chunk) in activity_loop decodes b (index_of b [LF, LF]))"

section \<open>Cutting a stream into chunks\<close>

definition no_CRCRLF :: "string \<Rightarrow> bool" where
  "no_CRCRLF s \<longleftrightarrow> \<not> str_includes s [CR, CR, LF]"

definition no_CRLF :: "string \<Rightarrow> bool" where
  "no_CRLF s \<longleftrightarrow> \<not> str_includes s [CR, LF]"

lemma no_CRLF_Cons: "no_CRLF (c # s) \<longleftrightarrow> \<not> (c = CR \<and> s \<noteq> [] \<and> hd s = LF) \<and> no_CRLF s"
  by (cases s) (auto simp: no_CRLF_def)

lemma no_CRCRLF_Cons:
  "no_CRCRLF (c # s) \<longleftrightarrow> \<not> (c = CR \<and> starts_with s [CR, LF]) \<and> no_CRCRLF s"
  by (cases s) (auto simp: no_CRCRLF_def)

lemma no_CRCRLF_append: "no_CRCRLF (s @ t) \<Longrightarrow> no_CRCRLF s"
  unfolding no_CRCRLF_def includes_iff by (metis append.assoc)

lemma hd_normalize: "normalize_newlines s = d # t \<Longrightarrow>
  (\<exists>u. s = d # u \<and> \<not> starts_with s [CR, LF]) \<or> (d = LF \<and> starts_with s [CR, LF])"
  by (cases s rule: normalize_newlines.cases) (auto split: if_splits)

lemma no_CRLF_normalize: "no_CRCRLF s \<Longrightarrow> no_CRLF (normalize_newlines s)"
proof (induction s rule: normalize_newlines.induct)
  case (1 c d s)
  show ?case
  proof (cases "c = CR \<and> d = LF")
    case True
    with 1 show ?thesis by (simp add: no_CRLF_Cons no_CRCRLF_Cons)
  next
    case False
    with 1 have ih: "no_CRLF (normalize_newlines (d # s))" by (simp add: no_CRCRLF_Cons)
    have "\<not> (c = CR \<and> normalize_newlines (d # s) \<noteq> [] \<and> hd (normalize_newlines (d # s)) = LF)"
    proof
      assume a: "c = CR \<and> normalize_newlines (d # s) \<noteq> [] \<and> hd (normalize_newlines (d # s)) = LF"
      then obtain t where "normalize_newlines (d # s) = LF # t" by (cases "normalize_newlines (d # s)") auto
      from hd_normalize [OF this] have "d = LF \<or> starts_with (d # s) [CR, LF]" by auto
      with a False "1.prems" show False by (auto simp: no_CRCRLF_Cons)
    qed
    moreover have "normalize_newlines (c # d # s) = c # normalize_newlines (d # s)"
      using False by simp
    ultimately show ?thesis using ih by (simp add: no_CRLF_Cons del: normalize_newlines.simps)
  qed
qed (auto simp: no_CRLF_def)

lemma normalize_append: "no_CRLF a \<Longrightarrow> a = [] \<or> last a \<noteq> CR \<Longrightarrow>
  normalize_newlines (a @ b) = a @ normalize_newlines b"
proof (induction a)
  case (Cons c a)
  then show ?case by (cases a; cases b) (auto simp: no_CRLF_Cons)
qed simp

text \<open>Normalising what is already normalised again, with more text behind it, changes nothing.\<close>

lemma normalize_again: "no_CRCRLF (a @ b) \<Longrightarrow> normalize_newlines (normalize_newlines a @ b) = normalize_newlines (a @ b)"
proof (induction a rule: normalize_newlines.induct)
  case (1 c d s)
  show ?case
  proof (cases "c = CR \<and> d = LF")
    case True
    have "normalize_newlines (LF # x) = LF # normalize_newlines x" for x by (cases x) auto
    with True 1 show ?thesis by (simp add: no_CRCRLF_Cons)
  next
    case False
    with 1 have ih: "normalize_newlines (normalize_newlines (d # s) @ b) = normalize_newlines ((d # s) @ b)"
      by (simp add: no_CRCRLF_Cons)
    obtain x t where x: "normalize_newlines (d # s) = x # t"
      by (cases "normalize_newlines (d # s)") (cases s; auto split: if_splits)+
    have "\<not> (c = CR \<and> x = LF)"
    proof
      assume a: "c = CR \<and> x = LF"
      with hd_normalize [OF x] have "d = LF \<or> starts_with (d # s) [CR, LF]" by auto
      with a False "1.prems" show False by (auto simp: no_CRCRLF_Cons starts_with_iff)
    qed
    then have "normalize_newlines (c # x # t @ b) = c # normalize_newlines (x # t @ b)" by simp
    moreover have "normalize_newlines (c # d # s) = c # x # t"
      "normalize_newlines (c # d # s @ b) = c # normalize_newlines (d # s @ b)"
      using False x by simp_all
    ultimately show ?thesis using ih x by simp
  qed
qed auto

lemma cut_frame_append: "cut_frame a = Some (raw, rest) \<Longrightarrow> cut_frame (a @ b) = Some (raw, rest @ b)"
  by (induction a arbitrary: raw rule: cut_frame.induct) (auto split: if_splits)

lemma drain_append:
  "drain (a @ b) = (fst (drain a) @ fst (drain (snd (drain a) @ b)), snd (drain (snd (drain a) @ b)))"
proof (induction a rule: drain.induct)
  case (1 a)
  show ?case
  proof (cases "cut_frame a")
    case None
    then show ?thesis by (simp add: drain_None)
  next
    case (Some p)
    then obtain raw rest where p: "cut_frame a = Some (raw, rest)" by (cases p) auto
    from 1 [OF p refl] show ?thesis
      by (simp add: drain_Some [OF p] drain_Some [OF cut_frame_append [OF p]])
  qed
qed

lemma cut_frame_prefix: "cut_frame s = Some (raw, rest) \<Longrightarrow> cut_frame (raw @ LF # LF # y) = Some (raw, y)"
proof (induction s arbitrary: raw rule: cut_frame.induct)
  case (1 c d s)
  show ?case
  proof (cases "c = LF \<and> d = LF")
    case True
    with "1.prems" show ?thesis by simp
  next
    case False
    with "1.prems" obtain raw' where r: "cut_frame (d # s) = Some (raw', rest)" "raw = c # raw'"
      by (auto split: if_splits)
    from "1.IH" [OF False r(1)] have ih: "cut_frame (raw' @ LF # LF # y) = Some (raw', y)" .
    have "raw' @ LF # LF # rest = d # s" using cut_frame_Some [OF r(1)] by simp
    then obtain t where "raw' @ LF # LF # y = d # t" by (cases raw') auto
    with ih False r(2) show ?thesis by simp
  qed
qed auto

text \<open>
  The text splits into a part the cuts consume, which ends in a line feed, and the rest;
  whatever comes after the consumed part, the same frames are cut from it.
\<close>

lemma drain_consumed:
  "\<exists>p. s = p @ snd (drain s) \<and> (p = [] \<or> last p = LF)
     \<and> (\<forall>x. drain (p @ x) = (fst (drain s) @ fst (drain x), snd (drain x)))"
proof (induction s rule: drain.induct)
  case (1 s)
  show ?case
  proof (cases "cut_frame s")
    case None
    then show ?thesis by (intro exI [of _ "[]"]) (simp add: drain_None)
  next
    case (Some q)
    then obtain raw rest where q: "cut_frame s = Some (raw, rest)" by (cases q) auto
    from 1 [OF q refl] obtain p where p: "rest = p @ snd (drain rest)" "p = [] \<or> last p = LF"
      "\<And>x. drain (p @ x) = (fst (drain rest) @ fst (drain x), snd (drain x))" by blast
    let ?p = "raw @ LF # LF # p"
    have "s = ?p @ snd (drain rest)"
      using cut_frame_Some [OF q] p(1) by (metis append.assoc append_Cons)
    moreover have "?p = [] \<or> last ?p = LF" using p(2) by auto
    moreover have "drain (?p @ x) = (fst (drain s) @ fst (drain x), snd (drain x))" for x
      using drain_Some [OF cut_frame_prefix [OF q, of "p @ x"]] p(3) [of x]
      by (simp add: drain_Some [OF q])
    ultimately show ?thesis unfolding drain_Some [OF q] snd_conv by blast
  qed
qed

lemma drain_normalize_step:
  assumes "no_CRCRLF (s @ c)"
  shows "drain (normalize_newlines (s @ c)) =
    (fst (drain (normalize_newlines s))
       @ fst (drain (normalize_newlines (snd (drain (normalize_newlines s)) @ c))),
     snd (drain (normalize_newlines (snd (drain (normalize_newlines s)) @ c))))"
proof -
  let ?n = "normalize_newlines s"
  obtain p where p: "?n = p @ snd (drain ?n)" "p = [] \<or> last p = LF"
    and cut: "\<And>x. drain (p @ x) = (fst (drain ?n) @ fst (drain x), snd (drain x))"
    using drain_consumed [of ?n] by blast
  have "no_CRLF ?n" using assms by (simp add: no_CRLF_normalize no_CRCRLF_append)
  then have clean: "no_CRLF p" using p(1) unfolding no_CRLF_def includes_iff by (metis append.assoc)
  have "normalize_newlines (s @ c) = normalize_newlines (?n @ c)"
    by (rule normalize_again [OF assms, symmetric])
  also have "?n @ c = p @ (snd (drain ?n) @ c)" using p(1) by (metis append.assoc)
  also have "normalize_newlines (p @ (snd (drain ?n) @ c)) = p @ normalize_newlines (snd (drain ?n) @ c)"
    using p(2) by (intro normalize_append clean) auto
  finally show ?thesis using cut by simp
qed

lemma read_chunks_from:
  assumes "no_CRCRLF (s @ concat cs)"
  shows "read_chunks (snd (drain (normalize_newlines s))) cs =
     (map parse_frame (drop (length (fst (drain (normalize_newlines s)))) (fst (drain (normalize_newlines (s @ concat cs))))),
      snd (drain (normalize_newlines (s @ concat cs))))
    \<and> take (length (fst (drain (normalize_newlines s)))) (fst (drain (normalize_newlines (s @ concat cs))))
      = fst (drain (normalize_newlines s))"
  using assms
proof (induction cs arbitrary: s)
  case Nil
  then show ?case by simp
next
  case (Cons c cs)
  let ?d = "\<lambda>t. drain (normalize_newlines t)"
  have clean: "no_CRCRLF ((s @ c) @ concat cs)" using Cons.prems by simp
  then have "no_CRCRLF (s @ c)" by (rule no_CRCRLF_append)
  note step = drain_normalize_step [OF this]
  let ?new = "fst (?d (snd (?d s) @ c))"
  have fst_step: "fst (?d (s @ c)) = fst (?d s) @ ?new" and snd_step: "snd (?d (s @ c)) = snd (?d (snd (?d s) @ c))"
    using step by simp_all
  from Cons.IH [OF clean] have ih:
    "read_chunks (snd (?d (s @ c))) cs =
       (map parse_frame (drop (length (fst (?d (s @ c)))) (fst (?d (s @ c @ concat cs)))), snd (?d (s @ c @ concat cs)))"
    "take (length (fst (?d (s @ c)))) (fst (?d (s @ c @ concat cs))) = fst (?d (s @ c))"
    by simp_all
  obtain tail where tail: "fst (?d (s @ c @ concat cs)) = fst (?d s) @ ?new @ tail"
    using ih(2) fst_step by (metis append.assoc append_take_drop_id)
  have "read_chunks (snd (?d s)) (c # cs) =
      (map parse_frame ?new @ fst (read_chunks (snd (?d (s @ c))) cs), snd (read_chunks (snd (?d (s @ c))) cs))"
    by (simp add: read_chunk_def case_prod_beta Let_def snd_step)
  also have "\<dots> = (map parse_frame (?new @ tail), snd (?d (s @ c @ concat cs)))"
    unfolding ih(1) by (simp add: tail fst_step)
  finally show ?case using tail by simp
qed

section \<open>Events as the server writes them\<close>

text \<open>
  The text/event-stream format in which \<open>EventSourceResponse\<close> (sse_starlette) sends what
  the generators of the backend yield: an event has one line for its type and one for its
  data (JSON has no line breaks), and every fifteen seconds a comment is sent as a ping. A
  line ends in CR LF; the format also allows LF alone.
\<close>

datatype server_frame = Event sse_event | Ping string

fun frame_lines :: "server_frame \<Rightarrow> string" where
  "frame_lines (Event e) = ''event: '' @ ev_type e @ LF # ''data: '' @ ev_data e"
| "frame_lines (Ping c) = '': '' @ c"

definition stream_text :: "server_frame list \<Rightarrow> string" where
  "stream_text frames = concat (map (\<lambda>f. frame_lines f @ [LF, LF]) frames)"

definition with_crlf :: "string \<Rightarrow> string" where
  "with_crlf s = concat (map (\<lambda>c. if c = LF then [CR, LF] else [c]) s)"

definition event_ok :: "sse_event \<Rightarrow> bool" where
  "event_ok e \<longleftrightarrow> LF \<notin> set (ev_type e) \<and> CR \<notin> set (ev_type e) \<and> LF \<notin> set (ev_data e) \<and> CR \<notin> set (ev_data e)
     \<and> trim (ev_type e) = ev_type e \<and> trim (ev_data e) = ev_data e \<and> ev_data e \<noteq> []"

fun frame_ok :: "server_frame \<Rightarrow> bool" where
  "frame_ok (Event e) = event_ok e"
| "frame_ok (Ping c) = (LF \<notin> set c \<and> CR \<notin> set c)"

fun event_of :: "server_frame \<Rightarrow> sse_event option" where
  "event_of (Event e) = Some e"
| "event_of (Ping c) = None"

lemma trim_space: "trim (CHR '' '' # s) = trim s"
proof -
  have "drop_token js_whitespace (CHR '' '' # s) = Some s" by (simp add: js_whitespace_def)
  then have "trim_start (CHR '' '' # s) = trim_start s" by (simp add: trim_start_def strip.simps [of _ "CHR '' '' # s"])
  then show ?thesis by (simp add: trim_def)
qed

lemma split_two_lines: "LF \<notin> set u \<Longrightarrow> LF \<notin> set v \<Longrightarrow> split_char LF (u @ LF # v) = [u, v]"
  by (induction u) (auto simp: split_char_id)

lemma parse_printed:
  assumes "event_ok e"
  shows "parse_frame (''event: '' @ ev_type e @ LF # ''data: '' @ ev_data e) = e"
proof -
  have "split_char LF ((''event: '' @ ev_type e) @ LF # (''data: '' @ ev_data e)) =
      [''event: '' @ ev_type e, ''data: '' @ ev_data e]"
    using assms by (intro split_two_lines) (auto simp: event_ok_def)
  then show ?thesis
    using assms by (simp add: parse_frame_def parse_line_def trim_space event_ok_def)
qed

lemma cut_one_line: "LF \<notin> set v \<Longrightarrow> cut_frame (v @ LF # LF # r) = Some (v, r)"
proof (induction v)
  case (Cons c v)
  then obtain d t where "v @ LF # LF # r = d # t" by (cases v) auto
  with Cons show ?case by auto
qed simp

lemma cut_two_lines:
  "LF \<notin> set u \<Longrightarrow> LF \<notin> set v \<Longrightarrow> v \<noteq> [] \<Longrightarrow> cut_frame (u @ LF # v @ LF # LF # r) = Some (u @ LF # v, r)"
proof (induction u)
  case Nil
  then obtain d t where "v = d # t" "d \<noteq> LF" by (cases v) auto
  with Nil cut_one_line [of v r] show ?case by simp
next
  case (Cons c u)
  then obtain d t where "u @ LF # v @ LF # LF # r = d # t" by (cases u) auto
  with Cons show ?case by auto
qed

lemma normalize_no_CR: "CR \<notin> set s \<Longrightarrow> normalize_newlines s = s"
  by (induction s rule: normalize_newlines.induct) auto

lemma cut_frame_lines: "frame_ok f \<Longrightarrow> cut_frame (frame_lines f @ LF # LF # r) = Some (frame_lines f, r)"
proof (cases f)
  case (Event e)
  assume "frame_ok f"
  then have "cut_frame ((''event: '' @ ev_type e) @ LF # (''data: '' @ ev_data e) @ LF # LF # r)
      = Some ((''event: '' @ ev_type e) @ LF # (''data: '' @ ev_data e), r)"
    using Event by (intro cut_two_lines) (auto simp: event_ok_def)
  with Event show ?thesis by simp
next
  case (Ping c)
  assume "frame_ok f"
  with Ping cut_one_line [of "frame_lines f" r] show ?thesis by simp
qed

lemma drain_printed: "list_all frame_ok fs \<Longrightarrow> drain (stream_text fs) = (map frame_lines fs, [])"
proof (induction fs)
  case Nil
  then show ?case by (simp add: stream_text_def drain_None)
next
  case (Cons f fs)
  then have "cut_frame (stream_text (f # fs)) = Some (frame_lines f, stream_text fs)"
    by (simp add: stream_text_def cut_frame_lines)
  from drain_Some [OF this] Cons show ?case by simp
qed

lemma parse_frame_lines:
  assumes "frame_ok f"
  shows "parse_frame (frame_lines f) = (case f of Event e \<Rightarrow> e | Ping c \<Rightarrow> \<lparr>ev_type = ''message'', ev_data = []\<rparr>)"
proof (cases f)
  case (Ping c)
  with assms show ?thesis by (simp add: parse_frame_def parse_line_def split_char_id)
qed (use assms parse_printed in simp)

lemma handled_frames:
  "list_all frame_ok fs \<Longrightarrow> handled kind (map (parse_frame \<circ> frame_lines) fs) =
     map ev_data (filter (\<lambda>e. ev_type e = kind) (List.map_filter event_of fs))"
  by (induction fs)
    (auto simp: handled_def parse_frame_lines event_ok_def List.map_filter_def split: server_frame.split)

lemma printed_no_CR: "list_all frame_ok fs \<Longrightarrow> CR \<notin> set (stream_text fs)"
proof -
  have "CR \<notin> set (frame_lines f)" if "frame_ok f" for f
    using that by (cases f) (auto simp: event_ok_def)
  then show "list_all frame_ok fs \<Longrightarrow> ?thesis" by (auto simp: stream_text_def list_all_iff)
qed

lemma no_CR_no_CRCRLF: "CR \<notin> set s \<Longrightarrow> no_CRCRLF s"
  by (auto simp: no_CRCRLF_def includes_iff)

lemma with_crlf_simps [simp]:
  "with_crlf [] = []" "with_crlf (c # s) = (if c = LF then CR # LF # with_crlf s else c # with_crlf s)"
  by (simp_all add: with_crlf_def)

lemma with_crlf_start: "CR \<notin> set s \<Longrightarrow> with_crlf s = d # t \<Longrightarrow> d \<noteq> LF"
  by (cases s) (auto split: if_splits)

lemma normalize_with_crlf: "CR \<notin> set s \<Longrightarrow> normalize_newlines (with_crlf s) = s"
proof (induction s)
  case (Cons c s)
  then show ?case by (cases "with_crlf s") auto
qed simp

lemma clean_with_crlf: "CR \<notin> set s \<Longrightarrow> no_CRCRLF (with_crlf s)"
proof (induction s)
  case Nil
  then show ?case by (simp add: no_CRCRLF_def)
next
  case (Cons c s)
  then show ?case by (auto simp: no_CRCRLF_Cons)
qed

lemma read_whole: "read_chunks [] [s] = (map parse_frame (fst (drain (normalize_newlines s))), snd (drain (normalize_newlines s)))"
  by (simp add: read_chunk_def case_prod_beta Let_def)

lemma chunks_do_not_matter: "no_CRCRLF (concat chunks) \<Longrightarrow> read_chunks [] chunks = read_chunks [] [concat chunks]"
  unfolding read_whole using read_chunks_from [of "[]" chunks] by (simp add: drain_None)

lemma activity_loop_ok:
  "\<forall>raw \<in> set (fst (drain b)). \<not> malformed decodes (parse_frame raw) \<Longrightarrow>
   activity_loop decodes b (index_of b [LF, LF]) =
   (concat (map (\<lambda>raw. delivered decodes (parse_frame raw)) (fst (drain b))), snd (drain b))"
proof (induction b rule: drain.induct)
  case (1 b)
  show ?case
  proof (cases "cut_frame b")
    case None
    then have "index_of b [LF, LF] = None" by (simp add: cut_frame_index)
    with None show ?thesis by (simp add: drain_None)
  next
    case (Some q)
    then obtain raw rest where q: "cut_frame b = Some (raw, rest)" by (cases q) auto
    then obtain i where i: "index_of b [LF, LF] = Some i" "raw = take i b" "rest = drop (i + 2) b"
      by (auto simp: cut_frame_index)
    from "1.prems" have ok: "\<not> malformed decodes (parse_frame raw)"
      and rest: "\<forall>raw \<in> set (fst (drain rest)). \<not> malformed decodes (parse_frame raw)"
      by (simp_all add: drain_Some [OF q])
    from "1.IH" [OF q refl rest] ok i show ?thesis
      by (simp add: drain_Some [OF q] Let_def)
  qed
qed

section \<open>Properties\<close>

text \<open>C24: how the network cuts a stream into chunks does not matter: unless a line ends in two carriage
  returns, the events read from the chunks and the buffer left over are those of the whole
  text read at once, also when a line end or an empty line is split between chunks.\<close>

theorem chunk_invariance:
  "no_CRCRLF (concat chunks) \<Longrightarrow> read_chunks [] chunks = read_chunks [] [concat chunks]"
  by (rule chunks_do_not_matter)

theorem chunk_invariance_witness:
  "read_chunks [] [''event: a'' @ [CR], [LF] @ ''data: 1'' @ [LF, CR], [LF]] =
   read_chunks [] [concat [''event: a'' @ [CR], [LF] @ ''data: 1'' @ [LF, CR], [LF]]]"
  by (rule chunk_invariance) code_simp

text \<open>C38: what the server's streams send is handled completely: however the text is cut into chunks, and
  whether lines end in CR LF or LF, the events of a kind reach its handler with their data, in the order they
  were written, the pings between them are skipped and nothing stays in the buffer.\<close>

theorem server_events_handled:
  assumes "list_all frame_ok frames"
    and "concat chunks = with_crlf (stream_text frames) \<or> concat chunks = stream_text frames"
  shows "handled kind (fst (read_chunks [] chunks)) =
      map ev_data (filter (\<lambda>e. ev_type e = kind) (List.map_filter event_of frames))
    \<and> snd (read_chunks [] chunks) = []"
proof -
  note cr = printed_no_CR [OF assms(1)]
  have clean: "no_CRCRLF (concat chunks)" and normal: "normalize_newlines (concat chunks) = stream_text frames"
    using assms(2) clean_with_crlf [OF cr] no_CR_no_CRCRLF [OF cr] normalize_with_crlf [OF cr] normalize_no_CR [OF cr]
    by auto
  have "read_chunks [] chunks = (map (parse_frame \<circ> frame_lines) frames, [])"
    unfolding chunks_do_not_matter [OF clean] read_whole normal drain_printed [OF assms(1)] by simp
  then show ?thesis by (simp add: handled_frames [OF assms(1)])
qed

theorem server_events_handled_witness:
  "handled ''task'' (fst (read_chunks [] [''event: ta'', ''sk'' @ [CR], [LF] @ ''data: {}'' @ [CR, LF, CR],
       [LF] @ '': ping'' @ [CR, LF, CR, LF]])) = [''{}'']"
  using server_events_handled [of "[Event \<lparr>ev_type = ''task'', ev_data = ''{}''\<rparr>, Ping ''ping'']"
      "[''event: ta'', ''sk'' @ [CR], [LF] @ ''data: {}'' @ [CR, LF, CR], [LF] @ '': ping'' @ [CR, LF, CR, LF]]" "''task''"]
  by (simp add: stream_text_def List.map_filter_def) (code_simp)

text \<open>on a buffer whose activity frames all decode, the loop of the activity stream handles exactly
  the frames the other streams would.\<close>

theorem activity_stream_agrees:
  assumes "\<forall>raw \<in> set (fst (drain (normalize_newlines (buffer @ chunk)))). \<not> malformed decodes (parse_frame raw)"
  shows "read_activity_chunk decodes buffer chunk =
    (filter decodes (handled ''activity'' (fst (read_chunk buffer chunk))), snd (read_chunk buffer chunk))"
proof -
  have "concat (map (\<lambda>raw. delivered decodes (parse_frame raw)) raws) =
      filter decodes (handled ''activity'' (map parse_frame raws))" for raws
    by (induction raws) (auto simp: delivered_def handled_def)
  then show ?thesis
    using activity_loop_ok [OF assms]
    by (simp add: read_activity_chunk_def read_chunk_def Let_def case_prod_beta)
qed

theorem activity_stream_agrees_witness:
  "read_activity_chunk (\<lambda>d. True) [] ''event: activity'' =
    (filter (\<lambda>d. True) (handled ''activity'' (fst (read_chunk [] ''event: activity''))), snd (read_chunk [] ''event: activity''))"
  by (rule activity_stream_agrees) (simp add: malformed_def)

text \<open>A frame of the activity stream that does not decode takes the next one with it: the next
  frame, which the shared loop delivers, is cut at the old boundary and lost.\<close>

definition bad_then_good :: string where
  "bad_then_good = stream_text
     [Event \<lparr>ev_type = ''activity'', ev_data = ''{''\<rparr>, Event \<lparr>ev_type = ''activity'', ev_data = ''{activity: 1}''\<rparr>]"

theorem malformed_frame_loses_next:
  "handled ''activity'' (fst (read_chunk [] bad_then_good)) = [''{'', ''{activity: 1}'']
   \<and> fst (read_activity_chunk (\<lambda>d. ends_with d ''}'') [] bad_then_good) = []"
  by code_simp

end
