(* ===== verification/JsJson.thy ===== *)
theory JsJson
  imports JsErrors JsUrl
begin

text \<open>
  \<open>JSON.stringify\<close> and \<open>JSON.parse\<close> on values without functions, cycles and \<open>toJSON\<close>.
  Members keep the order of the text (JavaScript moves keys that are array indices to the
  front). Strings are UTF-8, so an escaped code unit is encoded; a surrogate pair is one
  code point.
\<close>

section \<open>JSON.stringify\<close>

definition json_escape :: "char \<Rightarrow> string" where
  "json_escape c =
     (if c = CHR 0x22 then [CHR 0x5C, CHR 0x22]
      else if c = CHR 0x5C then [CHR 0x5C, CHR 0x5C]
      else if c = CHR 0x08 then [CHR 0x5C, CHR ''b'']
      else if c = CHR 0x0C then [CHR 0x5C, CHR ''f'']
      else if c = CHR 0x0A then [CHR 0x5C, CHR ''n'']
      else if c = CHR 0x0D then [CHR 0x5C, CHR ''r'']
      else if c = CHR 0x09 then [CHR 0x5C, CHR ''t'']
      else if char_code c < 32 then
        [CHR 0x5C, CHR ''u'', CHR ''0'', CHR ''0'', to_lower [hex_digit (char_code c div 16)] ! 0,
         to_lower [hex_digit (char_code c mod 16)] ! 0]
      else [c])"

definition json_quote :: "string \<Rightarrow> string" where
  "json_quote s = CHR 0x22 # concat (map json_escape s) @ [CHR 0x22]"

definition newline :: "string \<Rightarrow> string \<Rightarrow> string" where
  "newline gap indent = (if gap = [] then [] else CHR 0x0A # indent)"

text \<open>
  \<open>gap\<close> is the third argument as a string of spaces, \<open>indent\<close> the indentation so far.
  \<open>None\<close> is \<open>undefined\<close>.
\<close>

definition bracketed :: "string \<Rightarrow> string \<Rightarrow> char \<Rightarrow> string list \<Rightarrow> char \<Rightarrow> string" where
  "bracketed gap indent l items r =
     (if items = [] then [l, r]
      else l # newline gap (indent @ gap) @ join (CHR '','' # newline gap (indent @ gap)) items
             @ newline gap indent @ [r])"

fun json_text :: "string \<Rightarrow> string \<Rightarrow> js \<Rightarrow> string option"
  and json_items :: "string \<Rightarrow> string \<Rightarrow> js list \<Rightarrow> string list"
  and json_members :: "string \<Rightarrow> string \<Rightarrow> (string \<times> js) list \<Rightarrow> string list" where
  "json_text gap indent Undefined = None"
| "json_text gap indent Null = Some ''null''"
| "json_text gap indent (Bool b) = Some (if b then ''true'' else ''false'')"
| "json_text gap indent (Num n) = Some (if is_finite n then show_num n else ''null'')"
| "json_text gap indent (Str s) = Some (json_quote s)"
| "json_text gap indent (Arr xs) =
     Some (bracketed gap indent (CHR ''['') (json_items gap (indent @ gap) xs) (CHR '']''))"
| "json_text gap indent (Obj ps) =
     Some (bracketed gap indent (CHR ''{'') (json_members gap (indent @ gap) ps) (CHR ''}''))"
| "json_items gap indent [] = []"
| "json_items gap indent (x # xs) = coalesce (json_text gap indent x) ''null'' # json_items gap indent xs"
| "json_members gap indent [] = []"
| "json_members gap indent ((k, v) # ps) =
     (case json_text gap indent v of
        None \<Rightarrow> json_members gap indent ps
      | Some t \<Rightarrow> (json_quote k @ '':'' @ (if gap = [] then [] else '' '') @ t) # json_members gap indent ps)"

definition json_stringify :: "js \<Rightarrow> string option" where
  "json_stringify v = json_text [] [] v"

text \<open>\<open>JSON.stringify(value, null, 2)\<close>\<close>

definition json_pretty :: "js \<Rightarrow> string option" where
  "json_pretty v = json_text ''  '' [] v"

section \<open>JSON.parse\<close>

definition json_space :: "char \<Rightarrow> bool" where
  "json_space c \<longleftrightarrow> c = CHR 0x20 \<or> c = CHR 0x0A \<or> c = CHR 0x0D \<or> c = CHR 0x09"

definition skip_space :: "string \<Rightarrow> string" where
  "skip_space = dropWhile json_space"

definition hex4 :: "string \<Rightarrow> (nat \<times> string) option" where
  "hex4 s =
     (case s of
        a # b # c # d # r \<Rightarrow>
          (case (hex_value a, hex_value b, hex_value c, hex_value d) of
             (Some w, Some x, Some y, Some z) \<Rightarrow> Some (w * 4096 + x * 256 + y * 16 + z, r)
           | _ \<Rightarrow> None)
      | _ \<Rightarrow> None)"

definition utf8 :: "nat \<Rightarrow> string" where
  "utf8 n =
     (if n < 0x80 then [char_of n]
      else if n < 0x800 then [char_of (0xC0 + n div 64), char_of (0x80 + n mod 64)]
      else if n < 0x10000
      then [char_of (0xE0 + n div 4096), char_of (0x80 + n div 64 mod 64), char_of (0x80 + n mod 64)]
      else [char_of (0xF0 + n div 262144), char_of (0x80 + n div 4096 mod 64),
            char_of (0x80 + n div 64 mod 64), char_of (0x80 + n mod 64)])"

text \<open>The code unit after \<open>\u\<close>, with a low surrogate that follows a high one.\<close>

definition unicode_escape :: "string \<Rightarrow> (string \<times> string) option" where
  "unicode_escape s =
     (case hex4 s of
        None \<Rightarrow> None
      | Some (n, r) \<Rightarrow>
          if 0xD800 \<le> n \<and> n < 0xDC00 \<and> starts_with r [CHR 0x5C, CHR ''u'']
          then (case hex4 (drop 2 r) of
                  Some (m, r') \<Rightarrow>
                    if 0xDC00 \<le> m \<and> m < 0xE000
                    then Some (utf8 (0x10000 + (n - 0xD800) * 1024 + (m - 0xDC00)), r')
                    else Some (utf8 n, r)
                | None \<Rightarrow> Some (utf8 n, r))
          else Some (utf8 n, r))"

definition simple_escape :: "char \<Rightarrow> char option" where
  "simple_escape c =
     (if c = CHR 0x22 \<or> c = CHR 0x5C \<or> c = CHR ''/'' then Some c
      else if c = CHR ''b'' then Some (CHR 0x08) else if c = CHR ''f'' then Some (CHR 0x0C)
      else if c = CHR ''n'' then Some (CHR 0x0A) else if c = CHR ''r'' then Some (CHR 0x0D)
      else if c = CHR ''t'' then Some (CHR 0x09) else None)"

lemma hex4_shorter: "hex4 s = Some (n, r) \<Longrightarrow> length r < length s"
  by (auto simp: hex4_def split: list.splits option.splits)

lemma unicode_escape_shorter: "unicode_escape s = Some (u, r) \<Longrightarrow> length r < length s"
  by (auto simp: unicode_escape_def dest!: hex4_shorter split: option.splits if_splits)

text \<open>The rest of a string literal, after its first quote.\<close>

function json_string :: "string \<Rightarrow> (string \<times> string) option" where
  "json_string s =
     (case s of
        [] \<Rightarrow> None
      | c # cs \<Rightarrow>
          if c = CHR 0x22 then Some ([], cs)
          else if char_code c < 32 then None
          else if c \<noteq> CHR 0x5C then map_option (\<lambda>(t, r). (c # t, r)) (json_string cs)
          else (case cs of
                  [] \<Rightarrow> None
                | e # r \<Rightarrow>
                    (case simple_escape e of
                       Some d \<Rightarrow> map_option (\<lambda>(t, r'). (d # t, r')) (json_string r)
                     | None \<Rightarrow>
                         if e = CHR ''u''
                         then (case unicode_escape r of
                                 None \<Rightarrow> None
                               | Some (u, r') \<Rightarrow> map_option (\<lambda>(t, r''). (u @ t, r'')) (json_string r'))
                         else None)))"
  by pat_completeness auto
termination
  by (relation "measure length") (auto dest!: unicode_escape_shorter)

declare json_string.simps [simp del]

definition json_unsigned :: "string \<Rightarrow> (rat \<times> string) option" where
  "json_unsigned s1 =
     (let ds = (if starts_with s1 ''0'' then ''0'' else takeWhile is_digit s1);
          s2 = drop (length ds) s1
      in if ds = [] then None
         else (let fs = (if starts_with s2 ''.'' then takeWhile is_digit (tl s2) else []);
                   s3 = (if starts_with s2 ''.'' then dropWhile is_digit (tl s2) else s2);
                   has_e = starts_with s3 ''e'' \<or> starts_with s3 ''E'';
                   t = (if has_e then tl s3 else []); eneg = starts_with t ''-'';
                   t1 = (if eneg \<or> starts_with t ''+'' then tl t else t); es = takeWhile is_digit t1;
                   m = of_nat (read_nat (ds @ fs)) / 10 ^ length fs;
                   q = (if eneg then m / 10 ^ read_nat es else m * 10 ^ read_nat es)
               in if starts_with s2 ''.'' \<and> fs = [] \<or> has_e \<and> es = [] then None
                  else Some (q, if has_e then dropWhile is_digit t1 else s3)))"

definition json_number :: "string \<Rightarrow> (rat \<times> string) option" where
  "json_number s =
     (if starts_with s ''-'' then map_option (\<lambda>(q, r). (- q, r)) (json_unsigned (tl s)) else json_unsigned s)"

text \<open>
  Values by recursive descent. The fuel bounds the number of nested calls; twice the length
  of the text is always enough, because every other call consumes a char.
\<close>

fun json_value :: "nat \<Rightarrow> string \<Rightarrow> (js \<times> string) option"
  and json_elements :: "nat \<Rightarrow> string \<Rightarrow> (js list \<times> string) option"
  and json_pairs :: "nat \<Rightarrow> string \<Rightarrow> (string \<times> js) list \<Rightarrow> ((string \<times> js) list \<times> string) option" where
  "json_value 0 s = None"
| "json_value (Suc n) s =
     (case skip_space s of
        [] \<Rightarrow> None
      | c # r \<Rightarrow>
          if c = CHR 0x22 then map_option (\<lambda>(t, r'). (Str t, r')) (json_string r)
          else if c = CHR ''['' then
            (case skip_space r of
               d # r' \<Rightarrow> if d = CHR '']'' then Some (Arr [], r')
                         else map_option (\<lambda>(xs, r''). (Arr xs, r'')) (json_elements n (d # r'))
             | [] \<Rightarrow> None)
          else if c = CHR ''{'' then
            (case skip_space r of
               d # r' \<Rightarrow> if d = CHR ''}'' then Some (Obj [], r')
                         else map_option (\<lambda>(ps, r''). (Obj ps, r'')) (json_pairs n (d # r') [])
             | [] \<Rightarrow> None)
          else if starts_with (c # r) ''null'' then Some (Null, drop 4 (c # r))
          else if starts_with (c # r) ''true'' then Some (Bool True, drop 4 (c # r))
          else if starts_with (c # r) ''false'' then Some (Bool False, drop 5 (c # r))
          else map_option (\<lambda>(q, r'). (Num (to_number q), r')) (json_number (c # r)))"
| "json_elements 0 s = None"
| "json_elements (Suc n) s =
     (case json_value n s of
        None \<Rightarrow> None
      | Some (x, r) \<Rightarrow>
          (case skip_space r of
             [] \<Rightarrow> None
           | c # r' \<Rightarrow>
               if c = CHR '','' then map_option (\<lambda>(xs, r''). (x # xs, r'')) (json_elements n r')
               else if c = CHR '']'' then Some ([x], r') else None))"
| "json_pairs 0 s acc = None"
| "json_pairs (Suc n) s acc =
     (case skip_space s of
        [] \<Rightarrow> None
      | c # r \<Rightarrow>
          if c \<noteq> CHR 0x22 then None
          else (case json_string r of
                  None \<Rightarrow> None
                | Some (k, r1) \<Rightarrow>
                    (case skip_space r1 of
                       [] \<Rightarrow> None
                     | d # r2 \<Rightarrow>
                         if d \<noteq> CHR '':'' then None
                         else (case json_value n r2 of
                                 None \<Rightarrow> None
                               | Some (v, r3) \<Rightarrow>
                                   (case skip_space r3 of
                                      [] \<Rightarrow> None
                                    | e # r4 \<Rightarrow>
                                        if e = CHR '','' then json_pairs n r4 (map_set k v acc)
                                        else if e = CHR ''}'' then Some (map_set k v acc, r4)
                                        else None)))))"

text \<open>\<open>None\<close> is the \<open>SyntaxError\<close>.\<close>

definition json_parse :: "string \<Rightarrow> js option" where
  "json_parse s =
     (case json_value (Suc (2 * length s)) s of
        Some (v, r) \<Rightarrow> if skip_space r = [] then Some v else None
      | None \<Rightarrow> None)"

lemma json_parse_example:
  "json_parse ('' [null, {'' @ json_quote ''a'' @ '' : true}] '') = Some (Arr [Null, Obj [(''a'', Bool True)]])"
  by code_simp

section \<open>Numbers\<close>

lemma to_number_safe_int: "\<bar>q\<bar> \<le> 2 ^ 53 \<Longrightarrow> to_number q = Fin q"
proof -
  assume q: "\<bar>q\<bar> \<le> 2 ^ 53"
  have "(2 :: rat) ^ 53 < 2 ^ 970 * (2 ^ 54 - 1)" by simp
  also have "(2 :: rat) ^ 970 * (2 ^ 54 - 1) = 2 ^ 1024 - 2 ^ 970"
    by (simp add: right_diff_distrib flip: power_add)
  finally have "(2 :: rat) ^ 53 < 2 ^ 1024 - 2 ^ 970" .
  moreover define M :: rat where "M = 2 ^ 1024 - 2 ^ 970"
  ultimately have "\<not> M \<le> q" "\<not> q \<le> - M" using q by simp_all
  then show ?thesis unfolding to_number_def M_def [symmetric] by (simp only: if_False)
qed

lemma takeWhile_digits:
  "\<forall>c \<in> set ds. is_digit c \<Longrightarrow> r = [] \<or> \<not> is_digit (hd r) \<Longrightarrow> takeWhile is_digit (ds @ r) = ds"
  by (cases r) (auto simp: takeWhile_append2)

definition number_end :: "string \<Rightarrow> bool" where
  "number_end r \<longleftrightarrow> r = [] \<or> \<not> is_digit (hd r) \<and> hd r \<noteq> CHR ''.'' \<and> hd r \<noteq> CHR ''e'' \<and> hd r \<noteq> CHR ''E''"

lemma show_nat_leading:
  "hd (show_nat n) = CHR ''0'' \<longleftrightarrow> n = 0"
proof (induction n rule: show_nat.induct)
  case (1 n)
  show ?case
  proof (cases "n < 10")
    case True
    have "digit_value (CHR ''0'') = 0" "digit_char 0 = CHR ''0''" by code_simp+
    then have "digit_char n = CHR ''0'' \<longleftrightarrow> n = 0" using digit_char_value [OF True] by metis
    with True show ?thesis by (simp add: show_nat.simps [of n])
  next
    case False
    with 1 have "hd (show_nat (n div 10)) = CHR ''0'' \<longleftrightarrow> n div 10 = 0" by simp
    with False show ?thesis by (simp add: show_nat.simps [of n] hd_append)
  qed
qed

lemma read_nat_Nil: "read_nat [] = 0"
  by (simp add: read_nat_def)

lemma show_nat_0: "show_nat 0 = ''0''"
  by code_simp

lemma show_nat_Cons:
  obtains c cs where "show_nat n = c # cs" and "is_digit c" and "c = CHR ''0'' \<longleftrightarrow> n = 0"
proof (cases "show_nat n")
  case (Cons c cs)
  then have "is_digit c" using show_nat_digits [of c n] by simp
  with Cons that show thesis using show_nat_leading [of n] by simp
qed simp

lemma digit_not_sign: "is_digit c \<Longrightarrow> c \<notin> {CHR ''-'', CHR 0x22, CHR ''['', CHR ''{'', CHR ''n'', CHR ''t'', CHR ''f''}"
proof -
  have "\<forall>d \<in> set [CHR ''-'', CHR 0x22, CHR ''['', CHR ''{'', CHR ''n'', CHR ''t'', CHR ''f'']. \<not> is_digit d"
    by code_simp
  then show "is_digit c \<Longrightarrow> ?thesis" by auto
qed

lemma json_unsigned_digits:
  assumes "number_end r"
  shows "json_unsigned (show_nat n @ r) = Some (of_nat n, r)"
proof -
  have digits: "\<forall>c \<in> set (show_nat n). is_digit c" using show_nat_digits by blast
  have r: "r = [] \<or> \<not> is_digit (hd r)" using assms by (auto simp: number_end_def)
  have dot: "\<not> starts_with r ''.''" "\<not> starts_with r ''e''" "\<not> starts_with r ''E''"
    using assms by (auto simp: number_end_def starts_with_iff)
  obtain c cs where c: "show_nat n = c # cs" "c = CHR ''0'' \<longleftrightarrow> n = 0" by (rule show_nat_Cons)
  have ds: "(if starts_with (show_nat n @ r) ''0'' then ''0'' else takeWhile is_digit (show_nat n @ r)) = show_nat n"
  proof (cases "n = 0")
    case False
    with c show ?thesis using takeWhile_digits [OF digits r] by simp
  qed (simp add: show_nat_0)
  show ?thesis unfolding json_unsigned_def Let_def ds using dot c(1) read_show_nat [of n] by (simp add: read_nat_Nil)
qed

lemma json_number_int:
  assumes "number_end r"
  shows "json_number (show_int i @ r) = Some (of_int i, r)"
proof (cases "i < 0")
  case True
  then show ?thesis using json_unsigned_digits [OF assms, of "nat (- i)"]
    by (simp add: show_int_def json_number_def)
next
  case False
  obtain c cs where "show_nat (nat i) = c # cs" "is_digit c" by (rule show_nat_Cons)
  then have "\<not> starts_with (show_nat (nat i) @ r) ''-''" using digit_not_sign [of c] by auto
  with False show ?thesis using json_unsigned_digits [OF assms, of "nat i"]
    by (simp add: show_int_def json_number_def)
qed

section \<open>Strings\<close>

lemma lower_hex_value: "k < 16 \<Longrightarrow> hex_value (to_lower [hex_digit k] ! 0) = Some k"
proof -
  assume k: "k < 16"
  show ?thesis
  proof (cases "k < 10")
    case True
    then have "char_code (char_of (48 + k)) = 48 + k" by (simp add: char_code_def)
    with True show ?thesis
      by (simp add: hex_digit_def to_lower_def lower_char_def hex_value_def Let_def)
  next
    case False
    with k have "char_code (char_of (55 + k)) = 55 + k" "char_code (char_of (55 + k + 32)) = 55 + k + 32"
      by (simp_all add: char_code_def)
    with False k show ?thesis
      by (simp add: hex_digit_def to_lower_def lower_char_def hex_value_def Let_def)
  qed
qed

lemma hex4_control: "n < 32 \<Longrightarrow>
  hex4 (CHR ''0'' # CHR ''0'' # to_lower [hex_digit (n div 16)] ! 0 # to_lower [hex_digit (n mod 16)] ! 0 # r) = Some (n, r)"
proof -
  have zero: "hex_value (CHR ''0'') = Some 0" by code_simp
  assume "n < 32"
  then have "n div 16 < 16" "n mod 16 < 16" by auto
  then show ?thesis by (simp add: hex4_def zero lower_hex_value)
qed

lemma json_string_plain:
  "c \<noteq> CHR 0x22 \<Longrightarrow> c \<noteq> CHR 0x5C \<Longrightarrow> \<not> char_code c < 32 \<Longrightarrow>
   json_string (c # s) = map_option (\<lambda>(t, r). (c # t, r)) (json_string s)"
  by (simp add: json_string.simps [of "c # s"])

lemma json_string_simple:
  "simple_escape e = Some d \<Longrightarrow>
   json_string (CHR 0x5C # e # s) = map_option (\<lambda>(t, r). (d # t, r)) (json_string s)"
  by (simp add: json_string.simps [of "CHR 0x5C # e # s"] char_code_def)

lemma json_string_control:
  assumes "char_code c < 32"
  shows "json_string (CHR 0x5C # CHR ''u'' # CHR ''0'' # CHR ''0'' # to_lower [hex_digit (char_code c div 16)] ! 0
      # to_lower [hex_digit (char_code c mod 16)] ! 0 # s) = map_option (\<lambda>(t, r). (c # t, r)) (json_string s)"
proof -
  have "simple_escape (CHR ''u'') = None" by code_simp
  then show ?thesis
    using assms hex4_control [OF assms, of s]
    by (subst json_string.simps) (simp add: unicode_escape_def utf8_def char_code_def split: option.split)
qed

lemma json_string_escape:
  "json_string (json_escape c @ s) = map_option (\<lambda>(t, r). (c # t, r)) (json_string s)"
proof -
  consider "c \<in> {CHR 0x22, CHR 0x5C, CHR 0x08, CHR 0x0C, CHR 0x0A, CHR 0x0D, CHR 0x09}"
    | "c \<notin> {CHR 0x22, CHR 0x5C, CHR 0x08, CHR 0x0C, CHR 0x0A, CHR 0x0D, CHR 0x09}" "char_code c < 32"
    | "c \<notin> {CHR 0x22, CHR 0x5C, CHR 0x08, CHR 0x0C, CHR 0x0A, CHR 0x0D, CHR 0x09}" "\<not> char_code c < 32"
    by blast
  then show ?thesis
  proof cases
    case 1
    then show ?thesis by (auto simp: json_escape_def json_string_simple simple_escape_def)
  next
    case 2
    then show ?thesis by (simp add: json_escape_def json_string_control)
  next
    case 3
    then show ?thesis by (simp add: json_escape_def json_string_plain)
  qed
qed

lemma json_string_quoted: "json_string (concat (map json_escape s) @ CHR 0x22 # r) = Some (s, r)"
proof (induction s)
  case Nil
  then show ?case by (simp add: json_string.simps [of "CHR 0x22 # r"])
next
  case (Cons c s)
  then show ?case by (simp add: json_string_escape)
qed

section \<open>Reading what was written\<close>

text \<open>
  The values that survive: no \<open>undefined\<close> inside, integers that a double holds exactly, and
  no key twice.
\<close>

fun json_ok :: "js \<Rightarrow> bool" where
  "json_ok Undefined = False"
| "json_ok Null = True"
| "json_ok (Bool b) = True"
| "json_ok (Num n) = (case n of Fin q \<Rightarrow> q = of_int \<lfloor>q\<rfloor> \<and> \<bar>q\<bar> \<le> 2 ^ 53 | _ \<Rightarrow> False)"
| "json_ok (Str s) = True"
| "json_ok (Arr xs) = (\<forall>x \<in> set xs. json_ok x)"
| "json_ok (Obj ps) = (distinct (map fst ps) \<and> (\<forall>kv \<in> set ps. json_ok (snd kv)))"

abbreviation blank :: "string \<Rightarrow> bool" where
  "blank ws \<equiv> \<forall>c \<in> set ws. json_space c"

lemma skip_blank: "blank ws \<Longrightarrow> skip_space (ws @ s) = skip_space s"
  by (simp add: skip_space_def)

lemma skip_none: "\<not> json_space c \<Longrightarrow> skip_space (c # s) = c # s"
  by (simp add: skip_space_def)

lemma blank_newline: "blank indent \<Longrightarrow> blank (newline gap indent)"
  by (simp add: newline_def json_space_def)

lemma json_value_blank: "blank ws \<Longrightarrow> json_value n (ws @ s) = json_value n s"
  by (cases n) (simp_all add: skip_blank)

lemma punctuation: "\<not> json_space (CHR '','')" "\<not> json_space (CHR '']'')" "\<not> json_space (CHR ''}'')"
  "\<not> json_space (CHR '':'')" "\<not> json_space (CHR 0x22)" "\<not> json_space (CHR ''['')" "\<not> json_space (CHR ''{'')"
  "\<not> json_space (CHR ''n'')" "\<not> json_space (CHR ''t'')" "\<not> json_space (CHR ''f'')" "\<not> json_space (CHR ''-'')"
  by (simp_all add: json_space_def)

lemma digit_not_space: "is_digit c \<Longrightarrow> \<not> json_space c"
  by (auto simp: json_space_def is_digit_def char_code_def)

text \<open>Texts start with a char that is neither blank nor a closing bracket.\<close>

definition opens :: "char \<Rightarrow> bool" where
  "opens c \<longleftrightarrow> \<not> json_space c \<and> c \<noteq> CHR '']'' \<and> c \<noteq> CHR ''}''"

lemma opens_digit: "is_digit c \<Longrightarrow> opens c"
proof -
  have "\<not> is_digit (CHR '']'')" "\<not> is_digit (CHR ''}'')" by code_simp+
  then show "is_digit c \<Longrightarrow> opens c" by (auto simp: opens_def digit_not_space)
qed

lemma show_int_Cons:
  obtains c cs where "show_int i = c # cs" and "c = CHR ''-'' \<or> is_digit c"
proof (cases "i < 0")
  case True
  then show thesis by (intro that [of "CHR ''-''" "show_nat (nat (- i))"]) (simp_all add: show_int_def)
next
  case False
  obtain c cs where "show_nat (nat i) = c # cs" "is_digit c" by (rule show_nat_Cons)
  with False show thesis by (intro that [of c cs]) (simp_all add: show_int_def)
qed

lemma opens_brackets: "opens (CHR ''['')" "opens (CHR ''{'')" "opens (CHR 0x22)" "opens (CHR ''n'')"
  "opens (CHR ''t'')" "opens (CHR ''f'')" "opens (CHR ''-'')"
  by (simp_all add: opens_def punctuation)

lemma bracketed_Cons: "\<exists>cs. bracketed gap indent l items r = l # cs"
  by (simp add: bracketed_def)

lemma show_num_int: "json_ok (Num n) \<Longrightarrow> \<exists>i. n = Fin (of_int i) \<and> \<bar>i\<bar> \<le> 2 ^ 53 \<and> show_num n = show_int i"
proof -
  assume "json_ok (Num n)"
  then obtain q where q: "n = Fin q" "q = of_int \<lfloor>q\<rfloor>" "\<bar>q\<bar> \<le> 2 ^ 53" by (cases n) auto
  then have "\<bar>of_int \<lfloor>q\<rfloor> :: rat\<bar> \<le> of_int (2 ^ 53)" by simp
  then have "\<bar>\<lfloor>q\<rfloor>\<bar> \<le> 2 ^ 53" by linarith
  moreover have "show_num n = show_int \<lfloor>q\<rfloor>" using q(1,2) show_rat_of_int [of "\<lfloor>q\<rfloor>"] by simp
  ultimately show ?thesis using q(1,2) by metis
qed

lemma json_text_opens:
  assumes "json_text gap indent v = Some t" and "json_ok v"
  shows "\<exists>c cs. t = c # cs \<and> opens c"
proof (cases v)
  case (Num n)
  with assms(2) obtain i where i: "n = Fin (of_int i)" "show_num n = show_int i" using show_num_int by blast
  obtain c cs where "show_int i = c # cs" "c = CHR ''-'' \<or> is_digit c" by (rule show_int_Cons)
  then show ?thesis using assms(1) Num i opens_digit opens_brackets(7) by auto
next
  case (Bool b)
  with assms(1) opens_brackets show ?thesis by (cases b) auto
next
  case (Arr xs)
  with assms(1) bracketed_Cons opens_brackets(1) show ?thesis by (metis json_text.simps(6) option.inject)
next
  case (Obj ps)
  with assms(1) bracketed_Cons opens_brackets(2) show ?thesis by (metis json_text.simps(7) option.inject)
next
  case (Str u)
  with assms(1) opens_brackets(3) show ?thesis by (simp add: json_quote_def) blast
next
  case Null
  with assms(1) opens_brackets(4) show ?thesis by simp blast
next
  case Undefined
  with assms(1) show ?thesis by simp
qed

lemma json_ok_text: "json_ok v \<Longrightarrow> json_text gap indent v \<noteq> None"
  by (cases v) auto

lemma map_set_new: "k \<notin> set (map fst m) \<Longrightarrow> map_set k v m = m @ [(k, v)]"
  by (induction m) (auto simp: map_set_def)

lemma join_rest: "join sep (x # ys) = x @ (if ys = [] then [] else sep @ join sep ys)"
  by (cases ys) simp_all

text \<open>What follows an item: a comma and the next one, or the closing bracket.\<close>

definition after_item :: "string \<Rightarrow> string \<Rightarrow> string list \<Rightarrow> string \<Rightarrow> char \<Rightarrow> string" where
  "after_item sep close items r b =
     (if items = [] then close @ b # r else CHR '','' # sep @ join (CHR '','' # sep) items @ close @ b # r)"

lemma join_after: "join (CHR '','' # sep) (t # items) @ close @ b # r = t @ after_item sep close items r b"
  by (simp add: join_rest after_item_def)

lemma blank_hd: "blank (c # ws) \<Longrightarrow> number_end (c # s)"
proof -
  assume "blank (c # ws)"
  then have "c = CHR 0x20 \<or> c = CHR 0x0A \<or> c = CHR 0x0D \<or> c = CHR 0x09" by (simp add: json_space_def)
  moreover have "\<not> is_digit (CHR 0x20)" "\<not> is_digit (CHR 0x0A)" "\<not> is_digit (CHR 0x0D)" "\<not> is_digit (CHR 0x09)"
    by code_simp+
  ultimately show ?thesis by (elim disjE) (simp_all add: number_end_def)
qed

lemma number_end_punctuation:
  "number_end (CHR '']'' # s)" "number_end (CHR ''}'' # s)" "number_end (CHR '','' # s)"
proof -
  have "\<not> is_digit (CHR '']'')" "\<not> is_digit (CHR ''}'')" "\<not> is_digit (CHR '','')" by code_simp+
  then show "number_end (CHR '']'' # s)" "number_end (CHR ''}'' # s)" "number_end (CHR '','' # s)"
    by (simp_all add: number_end_def)
qed

lemma number_end_after:
  assumes "blank close" and "b \<in> {CHR '']'', CHR ''}''}"
  shows "number_end (after_item sep close items r b)"
proof (cases "items = []")
  case True
  show ?thesis
  proof (cases close)
    case Nil
    with True assms(2) show ?thesis by (auto simp: after_item_def number_end_punctuation)
  next
    case (Cons c ws)
    with assms(1) have "blank (c # ws)" by simp
    from blank_hd [OF this] True Cons show ?thesis by (simp add: after_item_def)
  qed
next
  case False
  then show ?thesis by (simp add: after_item_def number_end_punctuation)
qed

lemma skip_after:
  "blank close \<Longrightarrow> b \<in> {CHR '']'', CHR ''}''} \<Longrightarrow>
   skip_space (after_item sep close items r b) =
     (if items = [] then b # r else CHR '','' # sep @ join (CHR '','' # sep) items @ close @ b # r)"
  by (auto simp: after_item_def skip_blank skip_none punctuation)

lemma json_value_number:
  assumes "json_ok (Num v)" and "number_end r"
  shows "json_value (Suc n) (show_num v @ r) = Some (Num v, r)"
proof -
  obtain i where i: "v = Fin (of_int i)" "\<bar>i\<bar> \<le> 2 ^ 53" "show_num v = show_int i"
    using show_num_int [OF assms(1)] by blast
  have "\<bar>of_int i :: rat\<bar> \<le> of_int (2 ^ 53)" using i(2) by linarith
  then have small: "to_number (of_int i) = Fin (of_int i)" by (intro to_number_safe_int) simp
  obtain c cs where c: "show_int i = c # cs" "c = CHR ''-'' \<or> is_digit c" by (rule show_int_Cons)
  then have "c \<notin> {CHR 0x22, CHR ''['', CHR ''{'', CHR ''n'', CHR ''t'', CHR ''f''}" "\<not> json_space c"
    using digit_not_sign [of c] digit_not_space [of c] punctuation by auto
  then show ?thesis
    using json_number_int [OF assms(2), of i] small
    unfolding i(3) c(1) by (simp add: i(1) skip_none)
qed

lemma json_value_array:
  assumes "blank nl" and "opens c"
  shows "json_value (Suc n) (CHR ''['' # nl @ c # s) =
    map_option (\<lambda>(xs, r). (Arr xs, r)) (json_elements n (c # s))"
  using assms by (simp add: skip_none punctuation skip_blank opens_def)

lemma json_value_object:
  assumes "blank nl"
  shows "json_value (Suc n) (CHR ''{'' # nl @ CHR 0x22 # s) =
    map_option (\<lambda>(xs, r). (Obj xs, r)) (json_pairs n (CHR 0x22 # s) [])"
  using assms by (simp add: skip_none punctuation skip_blank)

lemma json_value_empty:
  "json_value (Suc n) (CHR ''['' # CHR '']'' # r) = Some (Arr [], r)"
  "json_value (Suc n) (CHR ''{'' # CHR ''}'' # r) = Some (Obj [], r)"
  by (simp_all add: skip_none punctuation)

lemma json_value_literal:
  "json_value (Suc n) (CHR ''n'' # CHR ''u'' # CHR ''l'' # CHR ''l'' # r) = Some (Null, r)"
  "json_value (Suc n) (CHR ''t'' # CHR ''r'' # CHR ''u'' # CHR ''e'' # r) = Some (Bool True, r)"
  "json_value (Suc n) (CHR ''f'' # CHR ''a'' # CHR ''l'' # CHR ''s'' # CHR ''e'' # r) = Some (Bool False, r)"
  by (simp_all add: skip_none punctuation starts_with_iff)

lemma json_elements_step:
  assumes "json_value n (t @ after_item sep close items r (CHR '']'')) = Some (x, after_item sep close items r (CHR '']''))"
    and "blank close"
  shows "json_elements (Suc n) (t @ after_item sep close items r (CHR '']'')) =
    (if items = [] then Some ([x], r)
     else map_option (\<lambda>(xs, r'). (x # xs, r')) (json_elements n (sep @ join (CHR '','' # sep) items @ close @ CHR '']'' # r)))"
  using assms by (simp add: skip_after)

lemma json_pairs_step:
  assumes "json_value n (sp @ t @ after_item sep close items r (CHR ''}'')) = Some (v, after_item sep close items r (CHR ''}''))"
    and "blank close"
  shows "json_pairs (Suc n) (json_quote k @ CHR '':'' # sp @ t @ after_item sep close items r (CHR ''}'')) acc =
    (if items = [] then Some (map_set k v acc, r)
     else json_pairs n (sep @ join (CHR '','' # sep) items @ close @ CHR ''}'' # r) (map_set k v acc))"
  using assms json_string_quoted [of k]
  by (simp add: json_quote_def skip_none punctuation skip_after)

lemma json_quote_Cons: "json_quote k = CHR 0x22 # concat (map json_escape k) @ [CHR 0x22]"
  by (simp add: json_quote_def)

lemma json_value_string: "json_value (Suc n) (json_quote s @ r) = Some (Str s, r)"
  using json_string_quoted [of s r] by (simp add: json_quote_Cons skip_none punctuation)

lemma json_items_Nil [simp]: "json_items gap indent xs = [] \<longleftrightarrow> xs = []"
  by (cases xs) simp_all

lemma json_members_Nil: "\<forall>kv \<in> set ps. json_ok (snd kv) \<Longrightarrow> json_members gap indent ps = [] \<longleftrightarrow> ps = []"
proof (cases ps)
  case (Cons kv qs)
  moreover obtain k v where "kv = (k, v)" by (cases kv)
  moreover assume "\<forall>kv \<in> set ps. json_ok (snd kv)"
  ultimately show ?thesis using json_ok_text [of v gap indent] by auto
qed simp

lemma items_open:
  assumes "xs \<noteq> []" and "\<forall>x \<in> set xs. json_ok x"
  shows "\<exists>c cs. join sep (json_items gap indent xs) = c # cs \<and> opens c"
proof -
  obtain x ys where xs: "xs = x # ys" using assms(1) by (cases xs) auto
  with assms(2) obtain t where t: "json_text gap indent x = Some t" using json_ok_text [of x gap indent] by auto
  with xs assms(2) json_text_opens [OF t] show ?thesis by (auto simp: join_rest)
qed

lemma json_reads_back:
  shows "blank gap \<Longrightarrow> blank indent \<Longrightarrow> json_ok v \<Longrightarrow> json_text gap indent v = Some t \<Longrightarrow>
      number_end r \<Longrightarrow> 2 * length t \<le> n \<Longrightarrow> json_value n (t @ r) = Some (v, r)"
    and "blank gap \<Longrightarrow> blank indent \<Longrightarrow> \<forall>x \<in> set xs. json_ok x \<Longrightarrow> xs \<noteq> [] \<Longrightarrow> blank sep \<Longrightarrow> blank close \<Longrightarrow>
      2 * length (join (CHR '','' # sep) (json_items gap indent xs)) + 2 \<le> n \<Longrightarrow>
      json_elements n (join (CHR '','' # sep) (json_items gap indent xs) @ close @ CHR '']'' # r) = Some (xs, r)"
    and "blank gap \<Longrightarrow> blank indent \<Longrightarrow> \<forall>kv \<in> set ps. json_ok (snd kv) \<Longrightarrow> ps \<noteq> [] \<Longrightarrow> blank sep \<Longrightarrow> blank close \<Longrightarrow>
      distinct (map fst (acc @ ps)) \<Longrightarrow>
      2 * length (join (CHR '','' # sep) (json_members gap indent ps)) + 2 \<le> n \<Longrightarrow>
      json_pairs n (join (CHR '','' # sep) (json_members gap indent ps) @ close @ CHR ''}'' # r) acc = Some (acc @ ps, r)"
proof (induction gap indent v and gap indent xs and gap indent ps
    arbitrary: t r n and sep close r n and sep close r n acc
    rule: json_text_json_items_json_members.induct)
  case (6 gap indent xs)
  show ?case
  proof (cases xs)
    case Nil
    with 6 show ?thesis by (cases n) (auto simp: bracketed_def json_value_empty simp del: json_value.simps)
  next
    case (Cons x ys)
    define body where "body = join (CHR '','' # newline gap (indent @ gap)) (json_items gap (indent @ gap) xs)"
    have t: "t = CHR ''['' # newline gap (indent @ gap) @ body @ newline gap indent @ [CHR '']'']"
      using 6 Cons by (simp add: bracketed_def body_def)
    have ok: "\<forall>x \<in> set xs. json_ok x" using 6 by simp
    obtain c cs where c: "body = c # cs" "opens c"
      using items_open [OF _ ok] Cons unfolding body_def by blast
    obtain m where m: "n = Suc m" using 6(7) t by (cases n) auto
    have "2 * length body + 2 \<le> m" using 6(7) t m by simp
    moreover have blanks: "blank (indent @ gap)" using 6(2,3) by auto
    moreover have "xs \<noteq> []" by (simp add: Cons)
    ultimately have "json_elements m (body @ newline gap indent @ CHR '']'' # r) = Some (xs, r)"
      unfolding body_def using 6(1) [OF 6(2) _ ok _ blank_newline blank_newline] 6(3) by blast
    moreover have "json_value n (t @ r) = map_option (\<lambda>(xs, r). (Arr xs, r)) (json_elements m (body @ newline gap indent @ CHR '']'' # r))"
      using json_value_array [OF blank_newline [OF blanks] c(2), where n = m and s = "cs @ newline gap indent @ CHR '']'' # r"]
      by (simp add: t m c(1) del: json_value.simps json_elements.simps)
    ultimately show ?thesis by simp
  qed
next
  case (7 gap indent ps)
  show ?case
  proof (cases ps)
    case Nil
    with 7 show ?thesis by (cases n) (auto simp: bracketed_def json_value_empty simp del: json_value.simps)
  next
    case (Cons kv qs)
    define body where "body = join (CHR '','' # newline gap (indent @ gap)) (json_members gap (indent @ gap) ps)"
    have ok: "\<forall>kv \<in> set ps. json_ok (snd kv)" "distinct (map fst ps)" using 7 by simp_all
    then have t: "t = CHR ''{'' # newline gap (indent @ gap) @ body @ newline gap indent @ [CHR ''}'']"
      using 7 Cons json_members_Nil [OF ok(1)] by (simp add: bracketed_def body_def)
    obtain k v where kv: "kv = (k, v)" by (cases kv)
    have "json_ok v" using ok(1) Cons kv by simp
    then obtain cs where c: "body = CHR 0x22 # cs"
      using json_ok_text [of v gap "indent @ gap"] by (auto simp: body_def Cons kv join_rest json_quote_Cons)
    obtain m where m: "n = Suc m" using 7(7) t by (cases n) auto
    have "2 * length body + 2 \<le> m" using 7(7) t m by simp
    moreover have blanks: "blank (indent @ gap)" using 7(2,3) by auto
    moreover have "ps \<noteq> []" by (simp add: Cons)
    moreover have "distinct (map fst ([] @ ps))" using ok(2) by simp
    ultimately have "json_pairs m (body @ newline gap indent @ CHR ''}'' # r) [] = Some ([] @ ps, r)"
      unfolding body_def using 7(1) [OF 7(2) _ ok(1) _ blank_newline blank_newline] 7(3) by blast
    moreover have "json_value n (t @ r) = map_option (\<lambda>(xs, r). (Obj xs, r)) (json_pairs m (body @ newline gap indent @ CHR ''}'' # r) [])"
      using json_value_object [OF blank_newline [OF blanks], where n = m and s = "cs @ newline gap indent @ CHR ''}'' # r"]
      by (simp add: t m c del: json_value.simps json_pairs.simps)
    ultimately show ?thesis by simp
  qed
next
  case (9 gap indent x xs)
  obtain t where t: "json_text gap indent x = Some t" using 9(5) json_ok_text [of x gap indent] by auto
  obtain m where m: "n = Suc m" using 9(9) by (cases n) auto
  let ?rest = "after_item sep close (json_items gap indent xs) r (CHR '']'')"
  have "2 * length t \<le> m" using 9(9) m t by (simp add: join_rest)
  then have "json_value m (t @ ?rest) = Some (x, ?rest)"
    using 9(1) [OF 9(3,4) _ t] 9(5,8) number_end_after by simp
  note step = json_elements_step [OF this 9(8)]
  show ?case
  proof (cases "xs = []")
    case True
    with step show ?thesis by (simp add: m t after_item_def)
  next
    case False
    with 9(9) m t have "2 * length (join (CHR '','' # sep) (json_items gap indent xs)) + 2 \<le> m"
      by (simp add: join_rest)
    from 9(2) [OF 9(3,4) _ False 9(7,8) this, of r] 9(5)
    have "json_elements m (join (CHR '','' # sep) (json_items gap indent xs) @ close @ CHR '']'' # r) = Some (xs, r)"
      by simp
    moreover have "json_elements m (sep @ s) = json_elements m s" for s
      using 9(7) by (cases m) (simp_all add: json_value_blank)
    ultimately show ?thesis using step False by (simp add: m t join_after)
  qed
next
  case (11 gap indent k v ps)
  have "json_ok v" using 11(6) by simp
  then obtain t where t: "json_text gap indent v = Some t" using json_ok_text [of v gap indent] by auto
  obtain m where m: "n = Suc m" using 11(11) by (cases n) auto
  let ?rest = "after_item sep close (json_members gap indent ps) r (CHR ''}'')"
  let ?sp = "if gap = [] then [] else '' ''"
  have members: "json_members gap indent ((k, v) # ps) = (json_quote k @ '':'' @ ?sp @ t) # json_members gap indent ps"
    by (simp add: t)
  have "blank ?sp" by (simp add: json_space_def)
  have "2 * length t \<le> m" using 11(11) m unfolding members by (simp add: join_rest)
  then have "json_value m (?sp @ t @ ?rest) = Some (v, ?rest)"
    using 11(1) [OF 11(4,5) \<open>json_ok v\<close> t] 11(9) number_end_after json_value_blank [OF \<open>blank ?sp\<close>] by simp
  note step = json_pairs_step [OF this 11(9), of k acc]
  have new: "map_set k v acc = acc @ [(k, v)]" using 11(10) by (intro map_set_new) auto
  have whole: "join (CHR '','' # sep) (json_members gap indent ((k, v) # ps)) @ close @ CHR ''}'' # r
      = json_quote k @ CHR '':'' # ?sp @ t @ ?rest"
    unfolding members by (simp add: join_after [of sep _ "json_members gap indent ps" close "CHR ''}''" r, simplified])
  show ?case
  proof (cases "ps = []")
    case True
    with step new show ?thesis unfolding whole by (simp add: m)
  next
    case False
    have ok: "\<forall>kv \<in> set ps. json_ok (snd kv)" using 11(6) by simp
    with False have ne: "json_members gap indent ps \<noteq> []" by (simp add: json_members_Nil)
    have "2 * length (join (CHR '','' # sep) (json_members gap indent ps)) + 2 \<le> m"
      using 11(11) m ne unfolding members by (simp add: join_rest)
    from 11(3) [OF t 11(4,5) ok False 11(8,9) _ this, of "acc @ [(k, v)]" r] 11(10)
    have "json_pairs m (join (CHR '','' # sep) (json_members gap indent ps) @ close @ CHR ''}'' # r) (acc @ [(k, v)])
        = Some (acc @ (k, v) # ps, r)"
      by (simp add: t)
    moreover have "json_pairs m (sep @ s) a = json_pairs m s a" for s a
      using 11(8) by (cases m) (simp_all add: skip_blank)
    ultimately show ?thesis using step new ne unfolding whole by (simp add: m)
  qed
next
  case (2 gap indent)
  then have t: "t = ''null''" by simp
  with 2(6) obtain k where "n = Suc k" by (cases n) auto
  then show ?case unfolding t using json_value_literal(1) [of k r] by (simp del: json_value.simps)
next
  case (3 gap indent b)
  then have t: "t = (if b then ''true'' else ''false'')" by simp
  with 3(6) obtain k where "n = Suc k" by (cases n) (auto split: if_splits)
  then show ?case unfolding t using json_value_literal(2,3) [of k r] by (cases b) (simp_all del: json_value.simps)
next
  case (4 gap indent m)
  then have "show_num m \<noteq> []" using show_num_int [of m] show_int_Cons by (metis list.discI)
  moreover have "t = show_num m" using 4(3,4) by (cases m) auto
  moreover have "n \<noteq> 0" using calculation 4(6) by (cases "show_num m") auto
  then obtain k where "n = Suc k" by (cases n) auto
  ultimately show ?case using json_value_number [OF 4(3,5)] by simp
next
  case (5 gap indent s)
  moreover have "n \<noteq> 0" using 5 by (auto simp: json_quote_def)
  then obtain k where "n = Suc k" by (cases n) auto
  ultimately show ?case using json_value_string [of k s r] by simp
qed simp_all

lemma json_parse_text:
  assumes "json_text gap [] v = Some t" and "blank gap" and "json_ok v"
  shows "json_parse t = Some v"
  using json_reads_back(1) [OF assms(2) _ assms(3,1), of "[]" "Suc (2 * length t)"]
  by (simp add: json_parse_def number_end_def skip_space_def)

theorem json_round_trip:
  assumes "json_ok v" and "json_stringify v = Some t"
  shows "json_parse t = Some v"
  using json_parse_text [OF _ _ assms(1), of "[]" t] assms(2) by (simp add: json_stringify_def)

theorem json_pretty_round_trip:
  assumes "json_ok v" and "json_pretty v = Some t"
  shows "json_parse t = Some v"
  using json_parse_text [OF _ _ assms(1), of _ t] assms(2) by (simp add: json_pretty_def json_space_def)

end
