(* ===== verification/JsDecimals.thy ===== *)
theory JsDecimals
  imports JsJson
begin

text \<open>
  Decimal fractions as text: \<open>String(x)\<close> writes them exactly, and \<open>parseFloat\<close> and
  \<open>parseInt\<close> read them back.
\<close>

section \<open>Digits\<close>

text \<open>\<open>/^-?\d+$/\<close> and \<open>/^-?\d+(\.\d+)?$/\<close>\<close>

definition all_digits :: "string \<Rightarrow> bool" where
  "all_digits s \<longleftrightarrow> s \<noteq> [] \<and> list_all is_digit s"

definition unsigned_part :: "string \<Rightarrow> string" where
  "unsigned_part s = (if starts_with s ''-'' then tl s else s)"

definition INTEGER_RE :: "string \<Rightarrow> bool" where
  "INTEGER_RE s = all_digits (unsigned_part s)"

definition DECIMAL_RE :: "string \<Rightarrow> bool" where
  "DECIMAL_RE s =
     (let body = unsigned_part s; rest = dropWhile is_digit body
      in takeWhile is_digit body \<noteq> [] \<and> (rest = [] \<or> starts_with rest ''.'' \<and> all_digits (tl rest)))"

text \<open>\<open>Number.parseInt(s, 10)\<close>\<close>

definition parse_int :: "string \<Rightarrow> jsnum" where
  "parse_int input =
     (let s = trim_start input;
          body = (if starts_with s ''-'' \<or> starts_with s ''+'' then tl s else s);
          ds = takeWhile is_digit body
      in if ds = [] then NaN
         else to_number ((if starts_with s ''-'' then - 1 else 1) * of_nat (read_nat ds)))"

lemma read_nat_acc: "foldl (\<lambda>a c. 10 * a + digit_value c) n s = n * 10 ^ length s + read_nat s"
proof (induction s arbitrary: n)
  case (Cons c s)
  have "read_nat (c # s) = digit_value c * 10 ^ length s + read_nat s"
    unfolding read_nat_def [of "c # s"] using Cons.IH [of "digit_value c"] by simp
  moreover have "foldl (\<lambda>a c. 10 * a + digit_value c) n (c # s) = (10 * n + digit_value c) * 10 ^ length s + read_nat s"
    using Cons.IH [of "10 * n + digit_value c"] by simp
  ultimately show ?case by (simp add: algebra_simps)
qed (simp add: read_nat_def)

lemma read_nat_Cons: "read_nat (c # s) = digit_value c * 10 ^ length s + read_nat s"
  using read_nat_acc [of "digit_value c" s] by (simp add: read_nat_def)

lemma read_nat_append: "read_nat (s @ t) = read_nat s * 10 ^ length t + read_nat t"
  using read_nat_acc [of "read_nat s" t] by (simp add: read_nat_def)

text \<open>A rational with at most \<open>k\<close> decimals.\<close>

definition decimals :: "nat \<Rightarrow> rat \<Rightarrow> bool" where
  "decimals k q \<longleftrightarrow> q * 10 ^ k = of_int \<lfloor>q * 10 ^ k\<rfloor>"

lemma decimals_iff: "decimals k q \<longleftrightarrow> (\<exists>i. q * 10 ^ k = of_int i)"
  unfolding decimals_def by (metis floor_of_int)

lemma show_frac_exact:
  assumes "0 \<le> r" "r < 1" "decimals k r" "k \<le> fuel"
  shows "list_all is_digit (show_frac fuel r)
     \<and> of_nat (read_nat (show_frac fuel r)) = r * 10 ^ length (show_frac fuel r)
     \<and> (show_frac fuel r = [] \<longleftrightarrow> r = 0)"
  using assms
proof (induction fuel arbitrary: r k)
  case 0
  then obtain i where "r = of_int i" by (auto simp: decimals_iff)
  with 0 have "r = 0" by simp
  then show ?case by (simp add: read_nat_def)
next
  case (Suc fuel)
  show ?case
  proof (cases "r = 0")
    case True
    then show ?thesis by (simp add: read_nat_def)
  next
    case False
    define d where "d = \<lfloor>10 * r\<rfloor>"
    define r' where "r' = 10 * r - of_int d"
    obtain i where i: "r * 10 ^ k = of_int i" using Suc.prems(3) by (auto simp: decimals_iff)
    obtain k' where k: "k = Suc k'"
    proof (cases k)
      case 0
      with i Suc.prems(1,2) False have False by simp
      then show thesis ..
    qed (rule that)
    have "0 \<le> d" "d < 10" unfolding d_def using Suc.prems(1,2) by (simp_all add: le_floor_iff floor_less_iff)
    then have d: "nat d < 10" "of_nat (nat d) = (of_int d :: rat)" by simp_all
    have r': "0 \<le> r'" "r' < 1" unfolding r'_def d_def by linarith+
    have "r' * 10 ^ k' = of_int (i - d * 10 ^ k')" using i by (simp add: r'_def k algebra_simps)
    then have "decimals k' r'" unfolding decimals_iff by blast
    with Suc.IH [OF r' this] Suc.prems(4) k have IH: "list_all is_digit (show_frac fuel r')"
      "of_nat (read_nat (show_frac fuel r')) = r' * 10 ^ length (show_frac fuel r')" by simp_all
    have eq: "show_frac (Suc fuel) r = digit_char (nat d) # show_frac fuel r'"
      using False by (simp add: d_def r'_def)
    show ?thesis unfolding eq using IH d False
      by (simp add: digit_char_is_digit digit_char_value read_nat_Cons r'_def algebra_simps)
  qed
qed

lemma show_nat_all_digits: "list_all is_digit (show_nat n)"
  using show_nat_digits by (auto simp: list_all_iff)

lemma takeWhile_all: "list_all p s \<Longrightarrow> takeWhile p s = s"
  by (induction s) auto

lemma dropWhile_all: "list_all p s \<Longrightarrow> dropWhile p s = []"
  by (induction s) auto

lemma point_not_digit: "\<not> is_digit (CHR ''.'')" "\<not> is_digit (CHR ''-'')" "\<not> is_digit (CHR ''+'')"
  by code_simp+

lemma takeWhile_point:
  "list_all is_digit s \<Longrightarrow> takeWhile is_digit (s @ CHR ''.'' # t) = s"
  "list_all is_digit s \<Longrightarrow> dropWhile is_digit (s @ CHR ''.'' # t) = CHR ''.'' # t"
  by (induction s) (auto simp: point_not_digit)

section \<open>Reading back\<close>

lemma show_rat_parts:
  assumes "decimals 17 q"
  obtains w fs where "show_rat q = (if q < 0 then ''-'' else []) @ w @ (if fs = [] then [] else ''.'' @ fs)"
    and "w \<noteq> []" "list_all is_digit w" "list_all is_digit fs"
    and "of_nat (read_nat (w @ fs)) = \<bar>q\<bar> * 10 ^ length fs"
proof -
  define i where "i = \<lfloor>\<bar>q\<bar>\<rfloor>"
  define fs where "fs = show_frac 17 (\<bar>q\<bar> - of_int i)"
  have i: "0 \<le> i" by (simp add: i_def)
  obtain m where "q * 10 ^ 17 = of_int m" using assms by (auto simp: decimals_iff)
  then have "\<bar>q\<bar> * 10 ^ 17 = of_int \<bar>m\<bar>" by (metis abs_mult abs_of_nonneg of_int_abs zero_le_numeral zero_le_power)
  then have "(\<bar>q\<bar> - of_int i) * 10 ^ 17 = of_int (\<bar>m\<bar> - i * 10 ^ 17)" by (simp add: left_diff_distrib)
  then have "decimals 17 (\<bar>q\<bar> - of_int i)" unfolding decimals_iff by blast
  moreover have "0 \<le> \<bar>q\<bar> - of_int i" "\<bar>q\<bar> - of_int i < 1" unfolding i_def by linarith+
  ultimately have fs: "list_all is_digit fs" "of_nat (read_nat fs) = (\<bar>q\<bar> - of_int i) * 10 ^ length fs"
    using show_frac_exact [of "\<bar>q\<bar> - of_int i" 17 17] by (simp_all add: fs_def)
  have w: "show_int i = show_nat (nat i)" using i by (simp add: show_int_def)
  show thesis
  proof (rule that [of "show_nat (nat i)" fs])
    show "show_rat q = (if q < 0 then ''-'' else []) @ show_nat (nat i) @ (if fs = [] then [] else ''.'' @ fs)"
      by (simp add: show_rat_def Let_def i_def [symmetric] fs_def [symmetric] w)
    show "of_nat (read_nat (show_nat (nat i) @ fs)) = \<bar>q\<bar> * 10 ^ length fs"
      using fs(2) i by (simp add: read_nat_append algebra_simps)
  qed (simp_all add: fs(1) show_nat_all_digits)
qed

lemma digit_plain: "is_digit c \<Longrightarrow> plain_char c"
  by (simp add: is_digit_def plain_char_def)

lemma last_digits: "list_all is_digit s \<Longrightarrow> s \<noteq> [] \<Longrightarrow> is_digit (last s)"
  by (simp add: list_all_iff)

lemma hd_digits: "list_all is_digit s \<Longrightarrow> s \<noteq> [] \<Longrightarrow> is_digit (hd s)"
  by (simp add: list_all_iff)

lemma digits_sign: "list_all is_digit w \<Longrightarrow> w \<noteq> [] \<Longrightarrow> \<not> starts_with (w @ s) ''-'' \<and> \<not> starts_with (w @ s) ''+''"
  by (cases w) (auto simp: point_not_digit)

lemma digits_not_infinity: "list_all is_digit w \<Longrightarrow> w \<noteq> [] \<Longrightarrow> \<not> starts_with (w @ s) ''Infinity''"
proof -
  have "\<not> is_digit (CHR ''I'')" by code_simp
  then show "list_all is_digit w \<Longrightarrow> w \<noteq> [] \<Longrightarrow> ?thesis" by (cases w) auto
qed

lemma plain_signs: "plain_char (CHR ''-'')" "plain_char (CHR ''.'')"
  by code_simp+

lemma trim_number:
  assumes "w \<noteq> []" "list_all is_digit w" "list_all is_digit fs"
  shows "trim ((if neg then ''-'' else []) @ w @ (if fs = [] then [] else ''.'' @ fs))
    = (if neg then ''-'' else []) @ w @ (if fs = [] then [] else ''.'' @ fs)" (is "trim ?s = ?s")
proof (rule trim_plain)
  show "?s \<noteq> []" using assms(1) by simp
  show "plain_char (hd ?s)" using assms hd_digits [of w] by (auto simp: hd_append plain_signs intro: digit_plain)
  have "is_digit (last ?s)"
    using assms last_digits [of w] last_digits [of fs] by (simp add: last_append)
  then show "plain_char (last ?s)" by (rule digit_plain)
qed

lemma DECIMAL_RE_number:
  assumes "w \<noteq> []" "list_all is_digit w" "list_all is_digit fs"
  shows "DECIMAL_RE ((if neg then ''-'' else []) @ w @ (if fs = [] then [] else ''.'' @ fs))" (is "DECIMAL_RE ?s")
proof -
  have "unsigned_part ?s = w @ (if fs = [] then [] else ''.'' @ fs)"
    using digits_sign [OF assms(2,1)] by (simp add: unsigned_part_def)
  then show ?thesis using assms
    by (simp add: DECIMAL_RE_def Let_def takeWhile_all dropWhile_all takeWhile_point all_digits_def) (simp add: list_all_iff)
qed

lemma parse_unsigned_number:
  assumes "w \<noteq> []" "list_all is_digit w" "list_all is_digit fs"
    and "of_nat (read_nat (w @ fs)) = a * 10 ^ length fs"
  shows "parse_unsigned (w @ (if fs = [] then [] else ''.'' @ fs)) = Some a"
  using assms by (cases "fs = []")
    (simp_all add: parse_unsigned_def Let_def takeWhile_all dropWhile_all takeWhile_point exponent_part_def)

lemma parse_float_show:
  assumes "decimals 17 q" and "\<bar>q\<bar> \<le> 10 ^ 20"
  shows "parse_float (show_rat q) = Fin q" and "DECIMAL_RE (show_rat q)" and "trim (show_rat q) = show_rat q"
proof -
  obtain w fs where eq: "show_rat q = (if q < 0 then ''-'' else []) @ w @ (if fs = [] then [] else ''.'' @ fs)"
    and w: "w \<noteq> []" "list_all is_digit w" "list_all is_digit fs"
    and val: "of_nat (read_nat (w @ fs)) = \<bar>q\<bar> * 10 ^ length fs"
    by (rule show_rat_parts [OF assms(1)])
  show trim: "trim (show_rat q) = show_rat q" unfolding eq by (rule trim_number [OF w])
  show "DECIMAL_RE (show_rat q)" unfolding eq by (rule DECIMAL_RE_number [OF w])
  define rest where "rest = (if fs = [] then [] else ''.'' @ fs)"
  note eq = eq [folded rest_def]
  have start: "trim_start ((if q < 0 then ''-'' else []) @ w @ rest) = (if q < 0 then ''-'' else []) @ w @ rest"
    using trim unfolding eq by (metis trim_start_trim)
  have "(2 :: rat) ^ 1024 - 2 ^ 970 > 10 ^ 20" by simp
  then have "to_number q = Fin q" using assms(2) unfolding to_number_def by (auto simp: abs_le_iff)
  moreover have "parse_unsigned (w @ rest) = Some \<bar>q\<bar>" unfolding rest_def by (rule parse_unsigned_number [OF w val])
  ultimately show "parse_float (show_rat q) = Fin q"
    unfolding parse_float_def Let_def eq start
    using digits_sign [OF w(2,1), of rest] digits_not_infinity [OF w(2,1), of rest] by simp
qed

lemma parse_int_show:
  assumes "\<bar>i\<bar> \<le> 10 ^ 20"
  shows "parse_int (show_int i) = Fin (of_int i)" and "INTEGER_RE (show_int i)" and "trim (show_int i) = show_int i"
proof -
  define w where "w = show_nat (nat \<bar>i\<bar>)"
  have w: "w \<noteq> []" "list_all is_digit w" by (simp_all add: w_def show_nat_all_digits)
  have eq: "show_int i = (if i < 0 then ''-'' else []) @ w" by (simp add: show_int_def w_def)
  show trim: "trim (show_int i) = show_int i"
    unfolding eq using trim_number [OF w, of "[]" "i < 0"] by simp
  then have start: "trim_start ((if i < 0 then ''-'' else []) @ w) = (if i < 0 then ''-'' else []) @ w"
    unfolding eq by (metis trim_start_trim)
  show "INTEGER_RE (show_int i)" unfolding eq using w digits_sign [OF w(2,1), of "[]"]
    by (simp add: INTEGER_RE_def unsigned_part_def all_digits_def)
  have "\<bar>of_int i :: rat\<bar> \<le> of_int (10 ^ 20)" using assms by (metis of_int_abs of_int_le_iff)
  moreover have "(2 :: rat) ^ 1024 - 2 ^ 970 > 10 ^ 20" by simp
  ultimately have "to_number (of_int i) = Fin (of_int i)" unfolding to_number_def by (auto simp: abs_le_iff)
  moreover have "read_nat w = nat \<bar>i\<bar>" by (simp add: w_def)
  ultimately show "parse_int (show_int i) = Fin (of_int i)"
    unfolding parse_int_def Let_def eq start
    using digits_sign [OF w(2,1), of "[]"] w by (simp add: takeWhile_all)
qed

end
