(* ===== verification/JsCalendar.thy ===== *)
theory JsCalendar
  imports JsDecimals JsDate
begin

text \<open>
  The calendar in the other direction: the date of a time value, \<open>Date.toISOString\<close>, the
  constructor \<open>new Date(y, m, d)\<close> and the two conversions of \<open>lib/datetime.ts\<close> between
  timestamps and date inputs. Local time is given by \<open>tz\<close> (local time value to UTC) and
  \<open>lt\<close> (UTC to local time value).
\<close>

section \<open>Years\<close>

text \<open>The last year that starts on or before a day, from an estimate that is off by one at most.\<close>

definition year_of_day :: "int \<Rightarrow> int" where
  "year_of_day days =
     (let y = 1970 + (400 * days) div 146097
      in if days < day_from_year y then y - 1 else if day_from_year (y + 1) \<le> days then y + 1 else y)"

lemma div_bounds: "k * (a div k) \<le> a" "a < k * (a div k) + k" if "0 < k" for a k :: int
  using that mult_div_mod_eq [of k a] pos_mod_sign [of k a] pos_mod_bound [of k a] by linarith+

lemma div_succ:
  assumes "0 < (k :: int)"
  shows "(a + 1) div k = a div k + (if (a + 1) mod k = 0 then 1 else 0)"
proof -
  note r = mult_div_mod_eq [of k a] pos_mod_sign [OF assms, of a] pos_mod_bound [OF assms, of a]
  show ?thesis
  proof (cases "a mod k + 1 = k")
    case True
    with r have "a + 1 = k * (a div k) + k" by linarith
    then have "a + 1 = k * (a div k + 1)" by (simp only: distrib_left mult_1_right)
    then show ?thesis using assms by simp
  next
    case False
    with r have eq: "a + 1 = k * (a div k) + (a mod k + 1)" "0 \<le> a mod k + 1" "a mod k + 1 < k" by linarith+
    have "(a + 1) div k = a div k" "(a + 1) mod k = a mod k + 1"
      by (rule int_div_pos_eq [OF eq], rule int_mod_pos_eq [OF eq])
    with r show ?thesis by simp
  qed
qed

lemma mod_shift: "(y - k * c) mod k = y mod (k :: int)"
  using mod_mult_self2 [of y k "- c"] by simp

lemma year_length: "day_from_year (y + 1) = day_from_year y + (if leap y then 366 else 365)"
proof -
  have next_year: "(y + 1 - c) div k = (y - c) div k + (if (y - (c - 1)) mod k = 0 then 1 else 0)" if "0 < k" for c k
    using div_succ [OF that, of "y - c"] by (simp only: diff_diff_eq2 diff_add_eq)
  have shift: "(y - (1969 - 1)) mod 4 = y mod 4" "(y - (1901 - 1)) mod 100 = y mod 100" "(y - (1601 - 1)) mod 400 = y mod 400"
    using mod_shift [of y 4 492] mod_shift [of y 100 19] mod_shift [of y 400 4] by simp_all
  have steps: "(y + 1 - 1969) div 4 = (y - 1969) div 4 + (if y mod 4 = 0 then 1 else 0)"
    "(y + 1 - 1901) div 100 = (y - 1901) div 100 + (if y mod 100 = 0 then 1 else 0)"
    "(y + 1 - 1601) div 400 = (y - 1601) div 400 + (if y mod 400 = 0 then 1 else 0)"
    by (rule next_year [where k = 4 and c = 1969, unfolded shift], simp)
      (rule next_year [where k = 100 and c = 1901, unfolded shift], simp,
       rule next_year [where k = 400 and c = 1601, unfolded shift], simp)
  have "y mod 4 = 0" if "y mod 100 = 0"
    using that dvd_trans [of 4 100 y] by (simp add: mod_eq_0_iff_dvd)
  moreover have "y mod 100 = 0" if "y mod 400 = 0"
    using that dvd_trans [of 100 400 y] by (simp add: mod_eq_0_iff_dvd)
  ultimately show ?thesis unfolding day_from_year_def steps leap_def
    by (cases "y mod 4 = 0"; cases "y mod 100 = 0"; cases "y mod 400 = 0") simp_all
qed

lemma year_starts_increase:
  assumes "x < y"
  shows "day_from_year x < day_from_year y"
proof -
  have "day_from_year x < day_from_year (x + 1 + int n)" for n
  proof (induction n)
    case 0
    then show ?case by (simp add: year_length)
  next
    case (Suc n)
    then show ?case using year_length [of "x + 1 + int n"] by (simp add: algebra_simps split: if_splits)
  qed
  from this [of "nat (y - x - 1)"] assms show ?thesis by simp
qed

lemma year_starts_mono: "x \<le> y \<Longrightarrow> day_from_year x \<le> day_from_year y"
  using year_starts_increase [of x y] by (cases "x = y") (simp_all add: less_le)

lemma estimate_low:
  assumes "146097 * (y - 1970) \<le> 400 * days" "4 * a \<le> y - 1 - 1969" "y - 1 - 1901 < 100 * b + 100" "400 * c \<le> y - 1 - 1601"
  shows "365 * (y - 1 - 1970) + a - b + c \<le> (days :: int)"
proof -
  have "400 * a \<le> 100 * y - 197000" "4 * y - 8008 < 400 * b" using assms(2,3) by linarith+
  then have "400 * (365 * (y - 1 - 1970) + a - b + c) \<le> 146097 * y - 287956594"
    using assms(4) by (simp add: algebra_simps)
  then have "400 * (365 * (y - 1 - 1970) + a - b + c) \<le> 400 * days" using assms(1) by simp
  then show ?thesis by simp
qed

lemma estimate_high:
  assumes "400 * days < 146097 * (y - 1969)" "y + 2 - 1969 < 4 * a + 4" "100 * b \<le> y + 2 - 1901" "y + 2 - 1601 < 400 * c + 400"
  shows "(days :: int) < 365 * (y + 2 - 1970) + a - b + c"
proof -
  have "100 * y - 197100 < 400 * a" "400 * b \<le> 4 * y - 7596" using assms(2,3) by linarith+
  then have "146097 * y - 287519503 < 400 * (365 * (y + 2 - 1970) + a - b + c)"
    using assms(4) by (simp add: algebra_simps)
  then have "400 * days < 400 * (365 * (y + 2 - 1970) + a - b + c)" using assms(1) by simp
  then show ?thesis by simp
qed

lemma year_of_day_bounds:
  "day_from_year (year_of_day days) \<le> days \<and> days < day_from_year (year_of_day days + 1)"
proof -
  define y where "y = 1970 + (400 * days) div 146097"
  have q: "146097 * (y - 1970) \<le> 400 * days" "400 * days < 146097 * (y - 1969)"
    unfolding y_def using div_bounds [of 146097 "400 * days"] by simp_all
  have d: "4 * ((x - 1969) div 4) \<le> x - 1969" "x - 1969 < 4 * ((x - 1969) div 4) + 4"
    "100 * ((x - 1901) div 100) \<le> x - 1901" "x - 1901 < 100 * ((x - 1901) div 100) + 100"
    "400 * ((x - 1601) div 400) \<le> x - 1601" "x - 1601 < 400 * ((x - 1601) div 400) + 400" for x :: int
    by (rule div_bounds, simp)+
  have "day_from_year (y - 1) \<le> days"
    unfolding day_from_year_def by (rule estimate_low [OF q(1)]) (use d [of "y - 1"] in linarith)+
  moreover have "days < day_from_year (y + 2)"
    unfolding day_from_year_def by (rule estimate_high [OF q(2)]) (use d [of "y + 2"] in linarith)+
  ultimately show ?thesis unfolding year_of_day_def Let_def y_def [symmetric] by (auto simp: algebra_simps)
qed

lemma year_of_day_unique:
  assumes "day_from_year y \<le> days" and "days < day_from_year (y + 1)"
  shows "year_of_day days = y"
proof (rule ccontr)
  note year_of_day_bounds [of days]
  moreover assume "year_of_day days \<noteq> y"
  then have "year_of_day days + 1 < y \<or> year_of_day days + 1 = y \<or> y + 1 < year_of_day days \<or> y + 1 = year_of_day days"
    by linarith
  moreover note assms year_starts_increase [of "year_of_day days + 1" y] year_starts_increase [of "y + 1" "year_of_day days"]
  ultimately show False by auto
qed

section \<open>Dates\<close>

definition month_of_day :: "int \<Rightarrow> int \<Rightarrow> int" where
  "month_of_day y doy = int (length (filter (\<lambda>m. month_start y m \<le> doy) [1, 2, 3, 4, 5, 6, 7, 8, 9, 10, 11, 12]))"

definition civil_from_days :: "int \<Rightarrow> int \<times> int \<times> int" where
  "civil_from_days days =
     (let y = year_of_day days; doy = days - day_from_year y; m = month_of_day y doy
      in (y, m, doy - month_start y m + 1))"

definition month_length :: "int \<Rightarrow> int \<Rightarrow> int" where
  "month_length y m =
     [31, 28, 31, 30, 31, 30, 31, 31, 30, 31, 30, 31] ! nat (m - 1) + (if leap y \<and> m = 2 then 1 else 0)"

definition valid_date :: "int \<Rightarrow> int \<Rightarrow> int \<Rightarrow> bool" where
  "valid_date y m d \<longleftrightarrow> 1 \<le> m \<and> m \<le> 12 \<and> 1 \<le> d \<and> d \<le> month_length y m"

lemma month_cases:
  assumes "1 \<le> m" "m \<le> (12 :: int)"
  obtains "m = 1" | "m = 2" | "m = 3" | "m = 4" | "m = 5" | "m = 6" | "m = 7" | "m = 8" | "m = 9" | "m = 10" | "m = 11" | "m = 12"
proof -
  have "m = 1 \<or> m = 2 \<or> m = 3 \<or> m = 4 \<or> m = 5 \<or> m = 6 \<or> m = 7 \<or> m = 8 \<or> m = 9 \<or> m = 10 \<or> m = 11 \<or> m = 12"
    using assms by presburger
  then show thesis using that by blast
qed

text \<open>\<open>k\<close> is the leap day.\<close>

lemma month_starts:
  assumes "k = (if leap y then 1 else 0)"
  shows "month_start y 1 = 0" "month_start y 2 = 31" "month_start y 3 = 59 + k" "month_start y 4 = 90 + k"
    "month_start y 5 = 120 + k" "month_start y 6 = 151 + k" "month_start y 7 = 181 + k" "month_start y 8 = 212 + k"
    "month_start y 9 = 243 + k" "month_start y 10 = 273 + k" "month_start y 11 = 304 + k" "month_start y 12 = 334 + k"
  using assms by (simp_all add: month_start_def)

lemma month_lengths:
  assumes "k = (if leap y then 1 else 0)"
  shows "month_length y 1 = 31" "month_length y 2 = 28 + k" "month_length y 3 = 31" "month_length y 4 = 30"
    "month_length y 5 = 31" "month_length y 6 = 30" "month_length y 7 = 31" "month_length y 8 = 31"
    "month_length y 9 = 30" "month_length y 10 = 31" "month_length y 11 = 30" "month_length y 12 = 31"
  using assms by (simp_all add: month_length_def)

lemma day_of_year_range:
  assumes "valid_date y m d"
  shows "0 \<le> month_start y m + d - 1 \<and> month_start y m + d - 1 < (if leap y then 366 else 365)"
proof -
  define k :: int where "k = (if leap y then 1 else 0)"
  have "0 \<le> k" "(if leap y then 366 else 365) = 365 + k" by (simp_all add: k_def)
  moreover have m: "1 \<le> m" "m \<le> 12" and "1 \<le> d" "d \<le> month_length y m" using assms by (simp_all add: valid_date_def)
  ultimately have facts: "0 \<le> k" "(if leap y then 366 else 365) = 365 + k" "1 \<le> d" "d \<le> month_length y m" by simp_all
  show ?thesis
    by (rule month_cases [OF m]; use facts in \<open>simp add: month_starts [OF k_def] month_lengths [OF k_def]\<close>)
qed

lemma month_of_valid:
  assumes "valid_date y m d"
  shows "month_of_day y (month_start y m + d - 1) = m"
proof -
  define k :: int where "k = (if leap y then 1 else 0)"
  have "0 \<le> k" "k \<le> 1" by (simp_all add: k_def)
  moreover have m: "1 \<le> m" "m \<le> 12" and "1 \<le> d" "d \<le> month_length y m" using assms by (simp_all add: valid_date_def)
  ultimately have facts: "0 \<le> k" "k \<le> 1" "1 \<le> d" "d \<le> month_length y m" by simp_all
  show ?thesis
    by (rule month_cases [OF m];
        use facts in \<open>simp add: month_of_day_def month_starts [OF k_def] month_lengths [OF k_def]\<close>)
qed

lemma day_has_month:
  assumes "0 \<le> doy" and "doy < (if leap y then 366 else 365)"
  shows "\<exists>m d. valid_date y m d \<and> doy = month_start y m + d - 1"
proof -
  define k :: int where "k = (if leap y then 1 else 0)"
  have k: "0 \<le> k" "k \<le> 1" "doy < 365 + k" using assms(2) by (simp_all add: k_def split: if_splits)
  have found: "?thesis" if "month_start y m \<le> doy" "doy < month_start y m + month_length y m" "1 \<le> m" "m \<le> 12" for m
    using that by (intro exI [of _ m] exI [of _ "doy - month_start y m + 1"]) (simp add: valid_date_def)
  show ?thesis
  proof (rule ccontr)
    assume none: "\<not> ?thesis"
    have out: "doy < month_start y m \<or> month_start y m + month_length y m \<le> doy" if "1 \<le> m" "m \<le> 12" for m
      using found [of m] that none by (meson not_le)
    note out = out [of 1] out [of 2] out [of 3] out [of 4] out [of 5] out [of 6]
      out [of 7] out [of 8] out [of 9] out [of 10] out [of 11] out [of 12]
    note found = out [simplified month_starts [OF k_def] month_lengths [OF k_def], simplified]
    have "31 \<le> doy" using found(1) assms(1) by linarith
    then have "59 + k \<le> doy" using found(2) by linarith
    then have "90 + k \<le> doy" using found(3) by linarith
    then have "120 + k \<le> doy" using found(4) by linarith
    then have "151 + k \<le> doy" using found(5) by linarith
    then have "181 + k \<le> doy" using found(6) by linarith
    then have "212 + k \<le> doy" using found(7) by linarith
    then have "243 + k \<le> doy" using found(8) by linarith
    then have "273 + k \<le> doy" using found(9) by linarith
    then have "304 + k \<le> doy" using found(10) by linarith
    then have "334 + k \<le> doy" using found(11) by linarith
    then show False using found(12) k by linarith
  qed
qed

lemma date_of_make_day:
  assumes "valid_date y m d"
  shows "civil_from_days (make_day y m d) = (y, m, d)"
proof -
  have "year_of_day (make_day y m d) = y"
    by (rule year_of_day_unique) (use day_of_year_range [OF assms] in \<open>simp_all add: make_day_def year_length\<close>)
  moreover have "make_day y m d - day_from_year y = month_start y m + d - 1" by (simp add: make_day_def)
  ultimately show ?thesis by (simp add: civil_from_days_def Let_def month_of_valid [OF assms])
qed

lemma make_day_of_date:
  assumes "civil_from_days days = (y, m, d)"
  shows "make_day y m d = days" and "valid_date y m d"
proof -
  define x where "x = year_of_day days"
  have "0 \<le> days - day_from_year x" "days - day_from_year x < (if leap x then 366 else 365)"
    using year_of_day_bounds [of days] by (simp_all add: x_def year_length)
  then obtain m' d' where v: "valid_date x m' d'" and "days - day_from_year x = month_start x m' + d' - 1"
    using day_has_month by blast
  then have "days = make_day x m' d'" by (simp add: make_day_def)
  moreover from this date_of_make_day [OF v] assms have "y = x" "m = m'" "d = d'" by simp_all
  ultimately show "make_day y m d = days" and "valid_date y m d" using v by simp_all
qed

section \<open>Dates as text\<close>

definition pad :: "nat \<Rightarrow> int \<Rightarrow> string" where
  "pad n i = (let s = show_int i in replicate (n - length s) (CHR ''0'') @ s)"

text \<open>\<open>new Date(ms).toISOString()\<close> for years 0 to 9999.\<close>

definition toISOString :: "int \<Rightarrow> string" where
  "toISOString ms =
     (let (y, m, d) = civil_from_days (ms div ms_per_day); t = ms mod ms_per_day
      in pad 4 y @ ''-'' @ pad 2 m @ ''-'' @ pad 2 d @ ''T'' @ pad 2 (t div 3600000) @ '':''
         @ pad 2 (t div 60000 mod 60) @ '':'' @ pad 2 (t div 1000 mod 60) @ ''.'' @ pad 3 (t mod 1000) @ ''Z'')"

lemma toISOString_example: "toISOString 1772359200123 = ''2026-03-01T10:00:00.123Z''"
  by code_simp

lemma toISOString_leap_example: "toISOString 1709164800000 = ''2024-02-29T00:00:00.000Z''"
  by code_simp

lemma length_show_nat: "0 < n \<Longrightarrow> k < 10 ^ n \<Longrightarrow> length (show_nat k) \<le> n"
proof (induction n arbitrary: k)
  case (Suc n)
  show ?case
  proof (cases "k < 10")
    case True
    then show ?thesis by (simp add: show_nat.simps [of k])
  next
    case False
    with Suc.prems have "k div 10 < 10 ^ n" "0 < n" by (auto simp: div_less_iff_less_mult mult.commute intro: gr0I)
    with Suc.IH [of "k div 10"] False show ?thesis by (simp add: show_nat.simps [of k])
  qed
qed simp

lemma read_zeros: "read_nat (replicate k (CHR ''0'') @ s) = read_nat s"
proof -
  have "digit_value (CHR ''0'') = 0" by code_simp
  then show ?thesis by (induction k) (simp_all add: read_nat_Cons)
qed

lemma pad_digits:
  assumes "0 \<le> i" and "i < 10 ^ n" and "0 < n"
  shows "length (pad n i) = n" and "list_all is_digit (pad n i)" and "read_nat (pad n i) = nat i"
proof -
  have s: "show_int i = show_nat (nat i)" using assms(1) by (simp add: show_int_def)
  have "nat i < 10 ^ n" using assms(1,2) by (simp add: nat_less_iff)
  then have "length (show_nat (nat i)) \<le> n" by (rule length_show_nat [OF assms(3)])
  then show "length (pad n i) = n" by (simp add: pad_def s Let_def)
  have "is_digit (CHR ''0'')" by code_simp
  then show "list_all is_digit (pad n i)" using show_nat_all_digits [of "nat i"]
    by (auto simp: pad_def s Let_def list_all_iff)
  show "read_nat (pad n i) = nat i" by (simp add: pad_def s Let_def read_zeros)
qed

lemma take_pad:
  "0 \<le> i \<Longrightarrow> i < 10 ^ n \<Longrightarrow> 0 < n \<Longrightarrow> take_digits n (pad n i @ r) = Some (i, r)"
  using pad_digits [of i n] by (simp add: take_digits_def)

lemma take_pad2: "0 \<le> i \<Longrightarrow> i < 100 \<Longrightarrow> take_digits 2 (pad 2 i @ r) = Some (i, r)"
  by (rule take_pad) simp_all

lemma expect_simps [simp]:
  "expect cs [] = None" "expect cs (c # r) = (if c \<in> set cs then Some r else None)"
  by (simp_all add: expect_def)

lemma parse_pad_fraction:
  assumes "0 \<le> i" and "i < 1000"
  shows "parse_fraction (CHR ''.'' # pad 3 i @ ''Z'') = Some (i, ''Z'')"
proof -
  note p = pad_digits [of i 3]
  have z: "\<not> is_digit (CHR ''Z'')" by code_simp
  have "takeWhile is_digit (pad 3 i @ ''Z'') = pad 3 i" using p assms z by (simp add: takeWhile_append2 list_all_iff)
  moreover have "frac_ms (pad 3 i) = i" using p assms by (simp add: frac_ms_def)
  moreover have "pad 3 i \<noteq> []" using p(1) assms by auto
  ultimately show ?thesis using p(1) assms by (simp add: parse_fraction_def)
qed

lemma time_parts:
  assumes "0 \<le> t" and "t < ms_per_day"
  shows "((t div 3600000 * 60 + t div 60000 mod 60) * 60 + t div 1000 mod 60) * 1000 + t mod 1000 = t"
    and "0 \<le> t div 3600000" and "t div 3600000 < 24"
proof -
  have "t div 60000 = t div 1000 div 60" "t div 3600000 = t div 60000 div 60"
    by (simp_all add: zdiv_zmult2_eq [symmetric])
  then show "((t div 3600000 * 60 + t div 60000 mod 60) * 60 + t div 1000 mod 60) * 1000 + t mod 1000 = t"
    by (simp add: div_mult_mod_eq)
  show "0 \<le> t div 3600000" using assms(1) by (simp add: pos_imp_zdiv_nonneg_iff)
  show "t div 3600000 < 24" using assms(2) by (simp add: ms_per_day_def div_less_iff_less_mult)
qed

lemma month_length_le: "valid_date y m d \<Longrightarrow> d \<le> 31"
proof -
  assume v: "valid_date y m d"
  then have m: "1 \<le> m" "m \<le> 12" and "d \<le> month_length y m" by (simp_all add: valid_date_def)
  note d = this(3)
  show ?thesis
    by (rule month_cases [OF m]; use d in \<open>simp add: month_lengths [OF refl] split: if_splits\<close>)
qed

lemma parse_padded_date:
  assumes "valid_date y m d" and "0 \<le> y" and "y \<le> 9999" and "expect ''-'' r = None"
  shows "parse_date (pad 4 y @ ''-'' @ pad 2 m @ ''-'' @ pad 2 d @ r) = Some ((y, m, d), r)"
proof -
  have v: "1 \<le> m" "m \<le> 12" "1 \<le> d" "d \<le> 31" using assms(1) month_length_le [OF assms(1)] by (simp_all add: valid_date_def)
  have "take_digits 4 (pad 4 y @ ''-'' @ pad 2 m @ ''-'' @ pad 2 d @ r) = Some (y, ''-'' @ pad 2 m @ ''-'' @ pad 2 d @ r)"
    by (rule take_pad) (use assms in simp_all)
  then show ?thesis using v by (simp add: parse_date_def take_pad2)
qed

lemma date_parse_iso:
  assumes "civil_from_days (ms div ms_per_day) = (y, m, d)" and "0 \<le> y" and "y \<le> 9999"
  shows "date_parse tz (toISOString ms) = Some ms"
proof -
  define t where "t = ms mod ms_per_day"
  have t: "0 \<le> t" "t < ms_per_day" by (simp_all add: t_def ms_per_day_def)
  define h mi sec f where "h = t div 3600000" and "mi = t div 60000 mod 60" and "sec = t div 1000 mod 60" and "f = t mod 1000"
  have bounds: "0 \<le> h" "h < 24" "0 \<le> mi" "mi < 60" "0 \<le> sec" "sec < 60" "0 \<le> f" "f < 1000"
    unfolding h_def mi_def sec_def f_def by (rule time_parts [OF t], rule time_parts [OF t]) simp_all
  define clock where "clock = pad 2 h @ '':'' @ pad 2 mi @ '':'' @ pad 2 sec @ ''.'' @ pad 3 f @ ''Z''"
  have off: "parse_offset ''Z'' = Some (Some 0)" by (simp add: parse_offset_def)
  have "parse_time clock = Some (((h * 60 + mi) * 60 + sec) * 1000 + f, Some 0)"
    using bounds by (simp add: clock_def parse_time_def take_pad2 parse_pad_fraction off)
  then have time: "parse_time clock = Some (t, Some 0)"
    unfolding h_def mi_def sec_def f_def time_parts(1) [OF t] .
  note date = make_day_of_date [OF assms(1)]
  have "toISOString ms = pad 4 y @ ''-'' @ pad 2 m @ ''-'' @ pad 2 d @ ''T'' @ clock"
    by (simp add: toISOString_def assms(1) clock_def t_def [symmetric] h_def mi_def sec_def f_def)
  moreover have "parse_date (pad 4 y @ ''-'' @ pad 2 m @ ''-'' @ pad 2 d @ ''T'' @ clock) = Some ((y, m, d), ''T'' @ clock)"
    by (rule parse_padded_date [OF date(2) assms(2,3)]) simp
  ultimately show ?thesis
    using time date(1) by (simp add: date_parse_def t_def)
qed

section \<open>Date inputs\<close>

text \<open>
  \<open>new Date(year, monthIndex, day)\<close> as a local time value: months and days overflow into
  the next, two-digit years are in the twentieth century.
\<close>

definition local_midnight :: "int \<Rightarrow> int \<Rightarrow> int \<Rightarrow> int" where
  "local_midnight year monthIndex day =
     (let y = (if 0 \<le> year \<and> year \<le> 99 then 1900 + year else year)
      in (make_day (y + monthIndex div 12) (monthIndex mod 12 + 1) 1 + day - 1) * ms_per_day)"

definition toLocalDateInput :: "(int \<Rightarrow> int) \<Rightarrow> (int \<Rightarrow> int) \<Rightarrow> string option \<Rightarrow> string" where
  "toLocalDateInput tz lt v =
     (case parseApiDatetime tz v of
        None \<Rightarrow> []
      | Some date \<Rightarrow>
          (let (year, month, day) = civil_from_days (lt date div ms_per_day)
           in show_int year @ ''-'' @ pad 2 month @ ''-'' @ pad 2 day))"

text \<open>\<open>/^(\d{4})-(\d{2})-(\d{2})$/\<close> with the numbers of its groups\<close>

definition date_groups :: "string \<Rightarrow> (int \<times> int \<times> int) option" where
  "date_groups s =
     do { (y, r1) \<leftarrow> take_digits 4 s; r2 \<leftarrow> expect ''-'' r1; (m, r3) \<leftarrow> take_digits 2 r2;
          r4 \<leftarrow> expect ''-'' r3; (d, r5) \<leftarrow> take_digits 2 r4;
          if r5 = [] then Some (y, m, d) else None }"

definition localDateInputToUtcIso :: "(int \<Rightarrow> int) \<Rightarrow> string option \<Rightarrow> string option" where
  "localDateInputToUtcIso tz v =
     (case v of
        None \<Rightarrow> None
      | Some s \<Rightarrow>
          (let trimmed = trim s
           in if s = [] \<or> trimmed = [] then None
              else case date_groups trimmed of
                     None \<Rightarrow> None
                   | Some (y, m, d) \<Rightarrow> Some (toISOString (tz (local_midnight y (m - 1) d)))))"

lemma local_midnight_valid:
  assumes "valid_date y m d" and "100 \<le> y"
  shows "local_midnight y (m - 1) d = make_day y m d * ms_per_day"
proof -
  have "(m - 1) div 12 = 0" "(m - 1) mod 12 = m - 1" using assms(1) by (simp_all add: valid_date_def)
  then show ?thesis using assms(2) by (simp add: local_midnight_def make_day_def)
qed

definition date_text :: "int \<Rightarrow> int \<Rightarrow> int \<Rightarrow> string" where
  "date_text y m d = pad 4 y @ ''-'' @ pad 2 m @ ''-'' @ pad 2 d"

lemma padded_bounds: "valid_date y m d \<Longrightarrow> 0 \<le> m \<and> m < 100 \<and> 0 \<le> d \<and> d < 100"
  using month_length_le [of y m d] by (simp add: valid_date_def)

lemma date_text_trimmed:
  assumes "valid_date y m d" and "0 \<le> y" and "y \<le> 9999"
  shows "trim (date_text y m d) = date_text y m d" and "date_text y m d \<noteq> []"
proof -
  have y: "pad 4 y \<noteq> []" "list_all is_digit (pad 4 y)" using pad_digits [of y 4] assms(2,3) by auto
  have d: "pad 2 d \<noteq> []" "list_all is_digit (pad 2 d)" using pad_digits [of d 2] padded_bounds [OF assms(1)] by auto
  show ne: "date_text y m d \<noteq> []" using y(1) by (simp add: date_text_def)
  have "plain_char (hd (date_text y m d))" "plain_char (last (date_text y m d))"
    using y d digit_plain hd_digits [of "pad 4 y"] last_digits [of "pad 2 d"] by (simp_all add: date_text_def)
  with ne show "trim (date_text y m d) = date_text y m d" by (rule trim_plain)
qed

lemma date_groups_text:
  assumes "valid_date y m d" and "0 \<le> y" and "y \<le> 9999"
  shows "date_groups (date_text y m d) = Some (y, m, d)"
proof -
  have "take_digits 4 (pad 4 y @ r) = Some (y, r)" for r by (rule take_pad) (use assms in simp_all)
  then show ?thesis using padded_bounds [OF assms(1)] take_pad2 [of d "[]"]
    by (simp add: date_groups_def date_text_def take_pad2)
qed

lemma ends_in_Z: "\<not> DATE_ONLY_RE (p @ ''Z'')"
proof
  assume "DATE_ONLY_RE (p @ ''Z'')"
  then have "length p = 9" "is_digit ((p @ ''Z'') ! 9)" by (simp_all add: DATE_ONLY_RE_def)
  then have "is_digit (CHR ''Z'')" by (simp add: nth_append)
  moreover have "\<not> is_digit (CHR ''Z'')" by code_simp
  ultimately show False by simp
qed

lemma iso_is_normal:
  assumes "civil_from_days (ms div ms_per_day) = (y, m, d)" and "0 \<le> y" and "y \<le> 9999"
  shows "normalizeApiDatetime (toISOString ms) = toISOString ms" and "toISOString ms \<noteq> []"
proof -
  have z: "\<exists>p. toISOString ms = pad 4 y @ p @ ''Z''" by (auto simp: toISOString_def assms(1) Let_def)
  then obtain p where p: "toISOString ms = pad 4 y @ p @ ''Z''" ..
  have year: "pad 4 y \<noteq> []" "list_all is_digit (pad 4 y)" using pad_digits [of y 4] assms(2,3) by auto
  then have "plain_char (hd (pad 4 y))" using digit_plain hd_digits by blast
  moreover have "plain_char (CHR ''Z'')" by code_simp
  ultimately have trim: "trim (toISOString ms) = toISOString ms" unfolding p using year(1) by (intro trim_plain) simp_all
  show "toISOString ms \<noteq> []" by (simp add: p)
  show "normalizeApiDatetime (toISOString ms) = toISOString ms"
    unfolding normalizeApiDatetime_def Let_def trim using ends_in_Z [of "pad 4 y @ p"] by (simp add: p HAS_TZ_RE_def)
qed

text \<open>A time value a timestamp of the backend has is read back from its text.\<close>

lemma parse_iso:
  assumes "civil_from_days (ms div ms_per_day) = (y, m, d)" and "0 \<le> y" and "y \<le> 9999"
  shows "parseApiDatetime tz (Some (toISOString ms)) = Some ms"
  using iso_is_normal [OF assms] date_parse_iso [OF assms] by (simp add: parseApiDatetime_def)

lemma show_year: "1000 \<le> y \<Longrightarrow> y \<le> 9999 \<Longrightarrow> show_int y = pad 4 y"
proof -
  assume y: "1000 \<le> y" "y \<le> 9999"
  have "1000 \<le> nat y" "nat y < 10000" using y by simp_all
  then have "\<not> nat y < 10" "\<not> nat y div 10 < 10" "\<not> nat y div 10 div 10 < 10" "nat y div 10 div 10 div 10 < 10"
    by simp_all
  then have "length (show_nat (nat y)) = 4"
    by (simp add: show_nat.simps [of "nat y"] show_nat.simps [of "nat y div 10"]
        show_nat.simps [of "nat y div 10 div 10"] show_nat.simps [of "nat y div 10 div 10 div 10"])
  with y show ?thesis by (simp add: pad_def show_int_def Let_def)
qed

lemma near_year:
  assumes "civil_from_days n = (y', m', d')" and "valid_date y m d" and "\<bar>n - make_day y m d\<bar> \<le> 2"
  shows "y - 1 \<le> y'" and "y' \<le> y + 1"
proof -
  have "y' = year_of_day n" using assms(1) by (simp add: civil_from_days_def Let_def)
  then have bounds: "day_from_year y' \<le> n" "n < day_from_year (y' + 1)" using year_of_day_bounds [of n] by simp_all
  have day: "day_from_year y \<le> make_day y m d" "make_day y m d < day_from_year (y + 1)"
    using day_of_year_range [OF assms(2)] by (simp_all add: make_day_def year_length)
  have steps: "day_from_year (y - 1) + 365 \<le> day_from_year y" "day_from_year (y + 1) + 365 \<le> day_from_year (y + 2)"
    using year_length [of "y - 1"] year_length [of "y + 1"] by (simp_all add: add.commute)
  show "y - 1 \<le> y'"
  proof (rule ccontr)
    assume "\<not> y - 1 \<le> y'"
    then have "day_from_year (y' + 1) \<le> day_from_year (y - 1)"
      by (intro year_starts_mono) simp
    with bounds day(1) steps(1) assms(3) show False by linarith
  qed
  show "y' \<le> y + 1"
  proof (rule ccontr)
    assume "\<not> y' \<le> y + 1"
    then have "day_from_year (y + 2) \<le> day_from_year y'"
      by (intro year_starts_mono) simp
    with bounds day(2) steps(2) assms(3) show False by linarith
  qed
qed

text \<open>
  What a browser's time zone does at the start of a day: the offset is at most a day, and
  the instant is on that day (at a gap it is the first instant after it).
\<close>

definition regular_day :: "(int \<Rightarrow> int) \<Rightarrow> (int \<Rightarrow> int) \<Rightarrow> int \<Rightarrow> bool" where
  "regular_day tz lt day \<longleftrightarrow>
     \<bar>tz (day * ms_per_day) - day * ms_per_day\<bar> \<le> ms_per_day \<and> lt (tz (day * ms_per_day)) div ms_per_day = day"

lemma date_input_sent:
  assumes "valid_date y m d" and "1000 \<le> y" and "y \<le> 9998" and "regular_day tz lt (make_day y m d)"
  obtains u where "localDateInputToUtcIso tz (Some (date_text y m d)) = Some (toISOString u)"
    and "fst (civil_from_days (u div ms_per_day)) \<in> {1..9999}"
    and "lt u div ms_per_day = make_day y m d"
proof -
  define day where "day = make_day y m d"
  define u where "u = tz (day * ms_per_day)"
  obtain y' m' d' where c: "civil_from_days (u div ms_per_day) = (y', m', d')" by (metis prod_cases3)
  have reg: "\<bar>u - day * ms_per_day\<bar> \<le> ms_per_day" "lt u div ms_per_day = day"
    using assms(4) by (simp_all add: regular_day_def u_def day_def)
  have "\<bar>u div ms_per_day - day\<bar> \<le> 2"
    using reg(1) div_bounds [of ms_per_day u] unfolding ms_per_day_def by linarith
  then have year: "1 \<le> y'" "y' \<le> 9999" using near_year [OF c assms(1)] assms(2,3) by (simp_all add: day_def)
  have "local_midnight y (m - 1) d = day * ms_per_day"
    using local_midnight_valid [OF assms(1)] assms(2) by (simp add: day_def)
  then have "localDateInputToUtcIso tz (Some (date_text y m d)) = Some (toISOString u)"
    using date_text_trimmed [OF assms(1)] date_groups_text [OF assms(1)] assms(2,3)
    by (simp add: localDateInputToUtcIso_def Let_def u_def)
  with reg(2) year c show thesis by (intro that) (simp_all add: day_def)
qed

end
