(* ===== verification/JsObjects.thy ===== *)
theory JsObjects
  imports JsErrors JsCalendar
begin

text \<open>
  Rows of the live collections (tasks, agents, approvals, comments, chat messages) as the
  code has them: JSON objects of which it reads some fields. \<open>spread\<close> is
  \<open>{ ...a, ...b }\<close>, in the order of JavaScript's own properties.
\<close>

section \<open>Spread\<close>

definition spread :: "js_record \<Rightarrow> js_record \<Rightarrow> js_record" where
  "spread a b =
     map (\<lambda>(k, v). (k, case map_of b k of None \<Rightarrow> v | Some w \<Rightarrow> w)) a
     @ filter (\<lambda>(k, v). k \<notin> set (map fst a)) b"

lemma map_of_spread: "map_of (spread a b) = map_of a ++ map_of b"
proof
  fix k
  have left: "map_of (map (\<lambda>(k, v). (k, case map_of b k of None \<Rightarrow> v | Some w \<Rightarrow> w)) xs) k
      = (case map_of xs k of None \<Rightarrow> None | Some v \<Rightarrow> Some (case map_of b k of None \<Rightarrow> v | Some w \<Rightarrow> w))" for xs
    by (induction xs) (auto split: option.split)
  have right: "map_of (filter (\<lambda>(k, v). k \<notin> K) xs) k = (if k \<in> K then None else map_of xs k)"
    for K and xs :: js_record
    by (induction xs) auto
  show "map_of (spread a b) k = (map_of a ++ map_of b) k"
  proof (cases "map_of a k")
    case None
    then have "k \<notin> set (map fst a)" by (simp add: map_of_eq_None_iff)
    with None show ?thesis by (simp add: spread_def map_add_def left right split: option.split)
  next
    case (Some v)
    then have "k \<in> set (map fst a)" using map_of_SomeD by force
    with Some show ?thesis by (simp add: spread_def map_add_def left split: option.split)
  qed
qed

lemma get_prop_spread: "get_prop (spread a b) k = (case map_of b k of None \<Rightarrow> get_prop a k | Some w \<Rightarrow> w)"
  by (simp add: get_prop_def map_of_spread map_add_def split: option.split)

lemma get_prop_spread_defined: "get_prop b k \<noteq> Undefined \<Longrightarrow> get_prop (spread a b) k = get_prop b k"
  unfolding get_prop_spread by (auto simp: get_prop_def split: option.splits)

lemma get_prop_spread_same:
  "get_prop b k = get_prop a k \<Longrightarrow> get_prop (spread a b) k = get_prop a k"
  unfolding get_prop_spread by (auto simp: get_prop_def split: option.splits)

text \<open>\<open>{ ...r, key: v }\<close>\<close>

definition with_prop :: "string \<Rightarrow> js \<Rightarrow> js_record \<Rightarrow> js_record" where
  "with_prop k v r = map_set k v r"

lemma get_prop_with [simp]: "get_prop (with_prop k v r) k' = (if k' = k then v else get_prop r k')"
  by (simp add: get_prop_def with_prop_def)

section \<open>Fields\<close>

definition nullish :: "js \<Rightarrow> bool" where
  "nullish v \<longleftrightarrow> v = Undefined \<or> v = Null"

text \<open>\<open>a ?? b\<close> on values\<close>

definition js_coalesce :: "js \<Rightarrow> js \<Rightarrow> js" where
  "js_coalesce a b = (if nullish a then b else a)"

definition str_prop :: "js_record \<Rightarrow> string \<Rightarrow> string option" where
  "str_prop r k = as_string (get_prop r k)"

text \<open>A field in a template: \<open>`${row.key}`\<close>\<close>

definition prop_text :: "js_record \<Rightarrow> string \<Rightarrow> string" where
  "prop_text r k = coalesce (to_string_js (get_prop r k)) []"

text \<open>\<open>apiDatetimeToMs(row.created_at) ?? 0\<close>\<close>

definition row_time :: "(int \<Rightarrow> int) \<Rightarrow> js_record \<Rightarrow> int" where
  "row_time tz r = coalesce (apiDatetimeToMs tz (str_prop r ''created_at'')) 0"

lemma js_coalesce_idem [simp]: "js_coalesce (js_coalesce a b) b = js_coalesce a b"
  by (simp add: js_coalesce_def)

end
