(* ===== verification/LiveFeed.thy ===== *)
theory LiveFeed
  imports JsObjects ActivityEvents
begin

text \<open>
  The live feed of the board page (\<open>src/app/boards/[boardId]/page.tsx\<close>): which activity
  events it takes, the items made from events, comments, chat messages, agents and
  approvals, their labels, the bounded list they are pushed to, and the history that fills
  it when the feed is opened.
\<close>

section \<open>Items\<close>

record LiveFeedItem =
  lf_id :: string
  lf_created_at :: string
  lf_message :: "string option"
  lf_payload :: js
  lf_agent_id :: "string option"
  lf_actor_name :: "string option"
  lf_task_id :: "string option"
  lf_title :: "string option"
  lf_event_type :: string

record ActivityEventRead =
  ae_id :: string
  ae_event_type :: string
  ae_created_at :: string
  ae_message :: "string option"
  ae_payload :: js
  ae_agent_id :: "string option"
  ae_task_id :: "string option"
  ae_board_id :: "string option"

definition LIVE_FEED_EVENT_TYPES :: "string list" where
  "LIVE_FEED_EVENT_TYPES =
     [''task.comment'', ''task.assignee_notified'', ''task.assignee_notify_failed'', 
      ''task.rework_notified'', ''task.rework_notify_failed'', ''task.lead_notified'', 
      ''task.lead_notify_failed'', ''task.lead_unassigned_notified'', 
      ''task.lead_unassigned_notify_failed'', ''task.execution_run.created'', 
      ''task.execution_run.dispatched'', ''task.execution_run.retried'', 
      ''task.execution_run.updated'', ''task.execution_run.report'', 
      ''task.execution_run.acknowledged'', ''task.execution_run.escalated'', 
      ''silo.request.created'', ''silo.request.planned'', ''silo.request.cancelled'', 
      ''silo.request.materialized'', ''task.created'', ''task.updated'', 
      ''task.status_changed'', ''board.chat'', ''board.command'', ''agent.created'', 
      ''agent.online'', ''agent.offline'', ''agent.updated'', ''agent.heartbeat'', 
      ''agent.wakeup.sent'', ''agent.nudge.sent'', ''agent.nudge.failed'', 
      ''agent.soul.updated'', ''approval.created'', ''approval.updated'', 
      ''approval.approved'', ''approval.rejected'', ''board.lead_notified'', 
      ''board.lead_notify_failed'', ''gateway.lead.ask_user.sent'', 
      ''gateway.lead.ask_user.failed'', ''gateway.main.lead_message.sent'', 
      ''gateway.main.lead_message.failed'', ''gateway.main.lead_broadcast.sent'', 
      ''queue.worker.success'', ''queue.worker.failed'', ''queue.worker.dequeue_failed'', 
      ''queue.worker.batch_complete'', ''webhook.dispatch.success'', 
      ''webhook.dispatch.failed'', ''webhook.dispatch.requeued'', 
      ''webhook.dispatch.batch_complete'', ''webhook.dispatch.batch_finished'', 
      ''silo.runtime.validate'', ''silo.runtime.apply'']"

definition isLiveFeedEventType :: "string \<Rightarrow> bool" where
  "isLiveFeedEventType v \<longleftrightarrow>
     v \<in> set LIVE_FEED_EVENT_TYPES
     \<or> starts_with v ''agent.'' \<and> (ends_with v ''.direct'' \<or> ends_with v ''.failed'')
     \<or> starts_with v ''board.group.'' \<and> (ends_with v ''.notified'' \<or> ends_with v ''.notify_failed'')"

text \<open>\<open>event.payload && typeof event.payload === "object" ? event.payload : null\<close>: arrays pass.\<close>

fun object_or_null :: "js \<Rightarrow> js" where
  "object_or_null (Obj p) = Obj p"
| "object_or_null (Arr xs) = Arr xs"
| "object_or_null _ = Null"

definition toLiveFeedFromActivity :: "ActivityEventRead \<Rightarrow> LiveFeedItem option" where
  "toLiveFeedFromActivity event =
     (if \<not> isLiveFeedEventType (ae_event_type event) then None
      else Some \<lparr>lf_id = ae_id event, lf_created_at = ae_created_at event, lf_message = ae_message event,
                 lf_payload = object_or_null (ae_payload event), lf_agent_id = ae_agent_id event,
                 lf_actor_name = None, lf_task_id = ae_task_id event, lf_title = None,
                 lf_event_type = ae_event_type event\<rparr>)"

section \<open>Which events belong to a board\<close>

definition toPayloadRecord :: "js \<Rightarrow> js_record option" where
  "toPayloadRecord v = as_record v"

definition readPayloadString :: "js_record option \<Rightarrow> string \<Rightarrow> string option" where
  "readPayloadString payload key =
     (case payload of None \<Rightarrow> None | Some p \<Rightarrow> trimmed_string (get_prop p key))"

definition payloadListIncludes :: "js_record option \<Rightarrow> string \<Rightarrow> string option \<Rightarrow> bool" where
  "payloadListIncludes payload key expected =
     (case expected of
        None \<Rightarrow> False
      | Some e \<Rightarrow>
          if e = [] then False
          else case readPayloadString payload key of
                 None \<Rightarrow> False
               | Some v \<Rightarrow> e \<in> set (filter (\<lambda>w. w \<noteq> []) (map trim (split_char (CHR '','') v))))"

definition isBoardRelevantActivity ::
  "ActivityEventRead \<Rightarrow> string \<Rightarrow> string list \<Rightarrow> string option \<Rightarrow> bool" where
  "isBoardRelevantActivity event boardId boardTaskIds boardGatewayId =
     (if (case ae_task_id event of None \<Rightarrow> False | Some t \<Rightarrow> t \<noteq> [] \<and> t \<in> set boardTaskIds) then True
      else if ae_board_id event = Some boardId then True
      else (let payload = toPayloadRecord (ae_payload event)
            in if readPayloadString payload ''board_id'' = Some boardId then True
               else case boardGatewayId of
                      None \<Rightarrow> False
                    | Some g \<Rightarrow> g \<noteq> [] \<and> (readPayloadString payload ''gateway_id'' = Some g
                                  \<or> payloadListIncludes payload ''gateway_ids'' (Some g))))"

section \<open>Comments and chat\<close>

definition toLiveFeedFromComment :: "js_record \<Rightarrow> LiveFeedItem" where
  "toLiveFeedFromComment comment =
     \<lparr>lf_id = prop_text comment ''id'', lf_created_at = prop_text comment ''created_at'',
      lf_message = str_prop comment ''message'', lf_payload = Undefined,
      lf_agent_id = str_prop comment ''agent_id'', lf_actor_name = None,
      lf_task_id = str_prop comment ''task_id'', lf_title = None, lf_event_type = ''task.comment''\<rparr>"

text \<open>\<open>byId.set(comment.id, \<dots>)\<close>: the newer of two versions wins field by field, the newcomer on a tie.\<close>

definition merge_comment ::
  "(int \<Rightarrow> int) \<Rightarrow> (js \<times> js_record) list \<Rightarrow> js_record \<Rightarrow> (js \<times> js_record) list" where
  "merge_comment tz byId comment =
     (let i = get_prop comment ''id''
      in case map_of byId i of
           None \<Rightarrow> map_set i comment byId
         | Some existing \<Rightarrow>
             map_set i (if row_time tz comment \<ge> row_time tz existing
                        then spread existing comment else spread comment existing) byId)"

definition mergeCommentsById :: "(int \<Rightarrow> int) \<Rightarrow> js_record list list \<Rightarrow> js_record list" where
  "mergeCommentsById tz collections =
     js_sort (descending (row_time tz))
       (map snd (foldl (merge_comment tz) [] (concat collections)))"

definition DEFAULT_HUMAN_LABEL :: string where
  "DEFAULT_HUMAN_LABEL = ''User''"

definition normalizeDisplayName :: "string option \<Rightarrow> string option" where
  "normalizeDisplayName v = truthy_str (trim (coalesce v []))"

definition resolveHumanActorName :: "string option \<Rightarrow> string \<Rightarrow> string" where
  "resolveHumanActorName v fallbackName =
     (case normalizeDisplayName v of
        None \<Rightarrow> fallbackName
      | Some normalized \<Rightarrow>
          (let lowered = to_lower normalized
           in if lowered = ''admin'' \<or> lowered = ''user'' then fallbackName else normalized))"

definition toLiveFeedFromBoardChat :: "js_record \<Rightarrow> LiveFeedItem" where
  "toLiveFeedFromBoardChat memory =
     (let content = trim (coalesce (str_prop memory ''content'') []);
          isCommand = starts_with content ''/''
      in \<lparr>lf_id = ''chat:'' @ prop_text memory ''id'', lf_created_at = prop_text memory ''created_at'',
          lf_message = truthy_str content, lf_payload = Undefined, lf_agent_id = None,
          lf_actor_name = Some (resolveHumanActorName (str_prop memory ''source'') DEFAULT_HUMAN_LABEL),
          lf_task_id = None, lf_title = Some (if isCommand then ''Board command'' else ''Board chat''),
          lf_event_type = (if isCommand then ''board.command'' else ''board.chat'')\<rparr>)"

section \<open>Agents\<close>

definition normalizeAgentStatus :: "string option \<Rightarrow> string" where
  "normalizeAgentStatus v = (let status = to_lower (trim (coalesce v [])) in text_or status ''offline'')"

definition humanizeAgentStatus :: "string \<Rightarrow> string" where
  "humanizeAgentStatus v = text_or (trim (replace_char (CHR ''_'') (CHR '' '') v)) ''offline''"

definition agent_stamp :: "js_record \<Rightarrow> string" where
  "agent_stamp agent =
     coalesce (str_prop agent ''last_seen_at'')
       (coalesce (str_prop agent ''updated_at'') (prop_text agent ''created_at''))"

definition agent_item :: "js_record \<Rightarrow> string \<Rightarrow> string \<Rightarrow> string \<Rightarrow> LiveFeedItem" where
  "agent_item agent i message eventType =
     \<lparr>lf_id = i, lf_created_at = agent_stamp agent, lf_message = Some message, lf_payload = Undefined,
      lf_agent_id = Some (prop_text agent ''id''), lf_actor_name = None, lf_task_id = None,
      lf_title = Some (''Agent '' @ MIDDOT @ '' '' @ prop_text agent ''name''), lf_event_type = eventType\<rparr>"

definition toLiveFeedFromAgentSnapshot :: "js_record \<Rightarrow> LiveFeedItem" where
  "toLiveFeedFromAgentSnapshot agent =
     (let status = normalizeAgentStatus (str_prop agent ''status'');
          eventType = (if status = ''online'' then ''agent.online''
                       else if status = ''offline'' then ''agent.offline'' else ''agent.updated'')
      in agent_item agent
           (''agent:'' @ prop_text agent ''id'' @ '':snapshot:'' @ status @ '':'' @ agent_stamp agent)
           (prop_text agent ''name'' @ '' is '' @ humanizeAgentStatus status @ ''.'') eventType)"

text \<open>
  \<open>JSON.stringify(a ?? {}) !== JSON.stringify(b ?? {})\<close>: the texts of two JSON values
  differ exactly when the values do.
\<close>

definition profile_differs :: "js \<Rightarrow> js \<Rightarrow> bool" where
  "profile_differs a b \<longleftrightarrow> js_coalesce a (Obj []) \<noteq> js_coalesce b (Obj [])"

definition agent_update_type :: "js_record \<Rightarrow> js_record option \<Rightarrow> string option" where
  "agent_update_type agent previous =
     (case previous of
        None \<Rightarrow> Some ''agent.created''
      | Some p \<Rightarrow>
          (let nextStatus = normalizeAgentStatus (str_prop agent ''status'');
               statusChanged = nextStatus \<noteq> normalizeAgentStatus (str_prop p ''status'');
               profileChanged = get_prop p ''name'' \<noteq> get_prop agent ''name''
                 \<or> get_prop p ''is_board_lead'' \<noteq> get_prop agent ''is_board_lead''
                 \<or> profile_differs (get_prop p ''identity_profile'') (get_prop agent ''identity_profile'')
           in if statusChanged \<and> nextStatus = ''online'' then Some ''agent.online''
              else if statusChanged \<and> nextStatus = ''offline'' then Some ''agent.offline''
              else if statusChanged \<or> profileChanged then Some ''agent.updated'' else None))"

definition toLiveFeedFromAgentUpdate :: "js_record \<Rightarrow> js_record option \<Rightarrow> LiveFeedItem option" where
  "toLiveFeedFromAgentUpdate agent previous =
     (case agent_update_type agent previous of
        None \<Rightarrow> None
      | Some eventType \<Rightarrow>
          (let name = prop_text agent ''name'';
               message = (if eventType = ''agent.created'' then name @ '' joined this board.''
                          else if eventType = ''agent.online'' then name @ '' is online.''
                          else if eventType = ''agent.offline'' then name @ '' is offline.''
                          else name @ '' updated ('' @ humanizeAgentStatus
                                 (normalizeAgentStatus (str_prop agent ''status'')) @ '').'')
           in Some (agent_item agent
                (''agent:'' @ prop_text agent ''id'' @ '':'' @ eventType @ '':'' @ agent_stamp agent)
                message eventType)))"

section \<open>Approvals\<close>

text \<open>\<open>value.replace(/[._-]+/g, " ")\<close>\<close>

fun collapse_separators :: "string \<Rightarrow> string" where
  "collapse_separators [] = []"
| "collapse_separators (c # s) =
     (if c \<in> set ''._-''
      then (case s of
              d # _ \<Rightarrow> if d \<in> set ''._-'' then collapse_separators s else CHR '' '' # collapse_separators s
            | [] \<Rightarrow> [CHR '' ''])
      else c # collapse_separators s)"

definition capitalize :: "string \<Rightarrow> string" where
  "capitalize s = (case s of [] \<Rightarrow> [] | c # cs \<Rightarrow> upper_char c # cs)"

definition humanizeLiveFeedApprovalAction :: "string \<Rightarrow> string" where
  "humanizeLiveFeedApprovalAction v =
     (let cleaned = trim (collapse_separators v)
      in if cleaned = [] then ''Approval'' else capitalize cleaned)"

definition approval_event_type :: "string \<Rightarrow> string option \<Rightarrow> string" where
  "approval_event_type nextStatus previousStatus =
     (case previousStatus of
        None \<Rightarrow> if nextStatus = ''approved'' then ''approval.approved''
                else if nextStatus = ''rejected'' then ''approval.rejected'' else ''approval.created''
      | Some p \<Rightarrow> if nextStatus \<noteq> p
                 then (if nextStatus = ''approved'' then ''approval.approved''
                       else if nextStatus = ''rejected'' then ''approval.rejected'' else ''approval.updated'')
                 else ''approval.updated'')"

definition toLiveFeedFromApproval :: "js_record \<Rightarrow> js_record option \<Rightarrow> LiveFeedItem" where
  "toLiveFeedFromApproval approval previous =
     (let nextStatus = coalesce (str_prop approval ''status'') ''pending'';
          previousStatus = (case previous of None \<Rightarrow> None | Some p \<Rightarrow> str_prop p ''status'');
          eventType = approval_event_type nextStatus previousStatus;
          stamp = (if eventType = ''approval.created'' then prop_text approval ''created_at''
                   else coalesce (str_prop approval ''resolved_at'') (prop_text approval ''created_at''));
          action = humanizeLiveFeedApprovalAction (prop_text approval ''action_type'');
          statusText = (if nextStatus = ''approved'' then ''approved''
                        else if nextStatus = ''rejected'' then ''rejected'' else ''pending'');
          confidence = prop_text approval ''confidence'';
          message = (if eventType = ''approval.created''
                     then action @ '' requested ('' @ confidence @ ''% confidence).''
                     else if eventType = ''approval.approved''
                     then action @ '' approved ('' @ confidence @ ''% confidence).''
                     else if eventType = ''approval.rejected''
                     then action @ '' rejected ('' @ confidence @ ''% confidence).''
                     else action @ '' updated ('' @ statusText @ '', '' @ confidence @ ''% confidence).'')
      in \<lparr>lf_id = ''approval:'' @ prop_text approval ''id'' @ '':'' @ eventType @ '':'' @ stamp,
          lf_created_at = stamp, lf_message = Some message, lf_payload = Undefined,
          lf_agent_id = str_prop approval ''agent_id'', lf_actor_name = None,
          lf_task_id = str_prop approval ''task_id'',
          lf_title = Some (''Approval '' @ MIDDOT @ '' '' @ action), lf_event_type = eventType\<rparr>)"

section \<open>Labels\<close>

definition liveFeedEventLabel :: "string \<Rightarrow> string" where
  "liveFeedEventLabel eventType =
     (if eventType = ''task.comment'' then ''Comment''
      else if eventType = ''task.assignee_notified'' then ''Assigned''
      else if eventType = ''task.assignee_notify_failed'' then ''Assign failed''
      else if eventType = ''task.rework_notified'' then ''Rework''
      else if eventType = ''task.rework_notify_failed'' then ''Rework failed''
      else if eventType = ''task.lead_notified'' then ''Lead notified''
      else if eventType = ''task.lead_notify_failed'' then ''Lead failed''
      else if eventType = ''task.lead_unassigned_notified'' then ''Lead inbox''
      else if eventType = ''task.lead_unassigned_notify_failed'' then ''Lead inbox failed''
      else if eventType = ''task.execution_run.created'' then ''Run queued''
      else if eventType = ''task.execution_run.dispatched'' then ''Run sent''
      else if eventType = ''task.execution_run.retried'' then ''Run retried''
      else if eventType = ''task.execution_run.updated'' then ''Run update''
      else if eventType = ''task.execution_run.report'' then ''Run report''
      else if eventType = ''task.execution_run.acknowledged'' then ''Run acknowledged''
      else if eventType = ''task.execution_run.escalated'' then ''Run escalated''
      else if eventType = ''task.created'' then ''Created''
      else if eventType = ''task.status_changed'' then ''Status''
      else if eventType = ''board.chat'' then ''Chat''
      else if eventType = ''board.command'' then ''Command''
      else if eventType = ''agent.created'' then ''Agent''
      else if eventType = ''agent.online'' then ''Online''
      else if eventType = ''agent.offline'' then ''Offline''
      else if eventType = ''agent.updated'' then ''Agent update''
      else if eventType = ''agent.heartbeat'' then ''Heartbeat''
      else if eventType = ''agent.wakeup.sent'' then ''Wakeup''
      else if eventType = ''agent.nudge.sent'' then ''Nudge''
      else if eventType = ''agent.nudge.failed'' then ''Nudge failed''
      else if eventType = ''agent.soul.updated'' then ''SOUL updated''
      else if starts_with eventType ''agent.'' \<and> ends_with eventType ''.direct'' then ''Lifecycle''
      else if starts_with eventType ''agent.'' \<and> ends_with eventType ''.failed'' then ''Lifecycle failed''
      else if eventType = ''approval.created'' then ''Approval''
      else if eventType = ''approval.updated'' then ''Approval update''
      else if eventType = ''approval.approved'' then ''Approved''
      else if eventType = ''approval.rejected'' then ''Rejected''
      else if starts_with eventType ''board.group.'' \<and> ends_with eventType ''.notified'' then ''Group notified''
      else if starts_with eventType ''board.group.'' \<and> ends_with eventType ''.notify_failed'' then ''Group failed''
      else if eventType = ''board.lead_notified'' then ''Board lead''
      else if eventType = ''board.lead_notify_failed'' then ''Board lead failed''
      else if eventType = ''gateway.lead.ask_user.sent'' then ''Ask user''
      else if eventType = ''gateway.lead.ask_user.failed'' then ''Ask user failed''
      else if eventType = ''gateway.main.lead_message.sent'' then ''Lead message''
      else if eventType = ''gateway.main.lead_message.failed'' then ''Lead message failed''
      else if eventType = ''gateway.main.lead_broadcast.sent'' then ''Lead broadcast''
      else if eventType = ''queue.worker.success'' then ''Worker success''
      else if eventType = ''queue.worker.failed'' then ''Worker failed''
      else if eventType = ''queue.worker.dequeue_failed'' then ''Worker dequeue failed''
      else if eventType = ''queue.worker.batch_complete'' then ''Worker batch''
      else if eventType = ''webhook.dispatch.success'' then ''Webhook sent''
      else if eventType = ''webhook.dispatch.failed'' then ''Webhook failed''
      else if eventType = ''webhook.dispatch.requeued'' then ''Webhook retried''
      else if eventType = ''webhook.dispatch.batch_complete'' then ''Webhook batch''
      else if eventType = ''webhook.dispatch.batch_finished'' then ''Webhook finished''
      else if eventType = ''silo.request.created'' then ''Request created''
      else if eventType = ''silo.request.planned'' then ''Request planned''
      else if eventType = ''silo.request.cancelled'' then ''Request cancelled''
      else if eventType = ''silo.request.materialized'' then ''Request materialized''
      else if eventType = ''silo.runtime.validate'' then ''Runtime validate''
      else if eventType = ''silo.runtime.apply'' then ''Runtime apply''
      else ''Updated'')"

definition liveFeedEventPillClass :: "string \<Rightarrow> string" where
  "liveFeedEventPillClass eventType =
     (if eventType = ''task.comment'' then ''border-blue-200 bg-blue-50 text-blue-700''
      else if eventType = ''task.assignee_notified'' then ''border-emerald-200 bg-emerald-50 text-emerald-700''
      else if eventType = ''task.assignee_notify_failed'' then ''border-rose-200 bg-rose-50 text-rose-700''
      else if eventType = ''task.rework_notified'' then ''border-orange-200 bg-orange-50 text-orange-700''
      else if eventType = ''task.rework_notify_failed'' then ''border-rose-200 bg-rose-50 text-rose-700''
      else if eventType = ''task.lead_notified'' then ''border-cyan-200 bg-cyan-50 text-cyan-700''
      else if eventType = ''task.lead_notify_failed'' then ''border-rose-200 bg-rose-50 text-rose-700''
      else if eventType = ''task.lead_unassigned_notified'' then ''border-amber-200 bg-amber-50 text-amber-700''
      else if eventType = ''task.lead_unassigned_notify_failed'' then ''border-rose-200 bg-rose-50 text-rose-700''
      else if eventType = ''task.execution_run.created'' then ''border-amber-200 bg-amber-50 text-amber-700''
      else if eventType = ''task.execution_run.dispatched'' then ''border-indigo-200 bg-indigo-50 text-indigo-700''
      else if eventType = ''task.execution_run.retried'' then ''border-orange-200 bg-orange-50 text-orange-700''
      else if eventType = ''task.execution_run.updated'' then ''border-sky-200 bg-sky-50 text-sky-700''
      else if eventType = ''task.execution_run.report'' then ''border-cyan-200 bg-cyan-50 text-cyan-700''
      else if eventType = ''task.execution_run.acknowledged'' then ''border-emerald-200 bg-emerald-50 text-emerald-700''
      else if eventType = ''task.execution_run.escalated'' then ''border-violet-200 bg-violet-50 text-violet-700''
      else if eventType = ''task.created'' then ''border-emerald-200 bg-emerald-50 text-emerald-700''
      else if eventType = ''task.status_changed'' then ''border-amber-200 bg-amber-50 text-amber-700''
      else if eventType = ''board.chat'' then ''border-teal-200 bg-teal-50 text-teal-700''
      else if eventType = ''board.command'' then ''border-fuchsia-200 bg-fuchsia-50 text-fuchsia-700''
      else if eventType = ''agent.created'' then ''border-violet-200 bg-violet-50 text-violet-700''
      else if eventType = ''agent.online'' then ''border-lime-200 bg-lime-50 text-lime-700''
      else if eventType = ''agent.offline'' then ''border-slate-300 bg-slate-100 text-slate-700''
      else if eventType = ''agent.updated'' then ''border-indigo-200 bg-indigo-50 text-indigo-700''
      else if eventType = ''agent.heartbeat'' then ''border-lime-200 bg-lime-50 text-lime-700''
      else if eventType = ''agent.wakeup.sent'' then ''border-cyan-200 bg-cyan-50 text-cyan-700''
      else if eventType = ''agent.nudge.sent'' then ''border-indigo-200 bg-indigo-50 text-indigo-700''
      else if eventType = ''agent.nudge.failed'' then ''border-rose-200 bg-rose-50 text-rose-700''
      else if eventType = ''agent.soul.updated'' then ''border-violet-200 bg-violet-50 text-violet-700''
      else if starts_with eventType ''agent.'' \<and> ends_with eventType ''.direct'' then ''border-violet-200 bg-violet-50 text-violet-700''
      else if starts_with eventType ''agent.'' \<and> ends_with eventType ''.failed'' then ''border-rose-200 bg-rose-50 text-rose-700''
      else if eventType = ''approval.created'' then ''border-cyan-200 bg-cyan-50 text-cyan-700''
      else if eventType = ''approval.updated'' then ''border-sky-200 bg-sky-50 text-sky-700''
      else if eventType = ''approval.approved'' then ''border-emerald-200 bg-emerald-50 text-emerald-700''
      else if eventType = ''approval.rejected'' then ''border-rose-200 bg-rose-50 text-rose-700''
      else if starts_with eventType ''board.group.'' \<and> ends_with eventType ''.notified'' then ''border-teal-200 bg-teal-50 text-teal-700''
      else if starts_with eventType ''board.group.'' \<and> ends_with eventType ''.notify_failed'' then ''border-rose-200 bg-rose-50 text-rose-700''
      else if eventType = ''board.lead_notified'' then ''border-cyan-200 bg-cyan-50 text-cyan-700''
      else if eventType = ''board.lead_notify_failed'' then ''border-rose-200 bg-rose-50 text-rose-700''
      else if eventType = ''gateway.lead.ask_user.sent'' then ''border-fuchsia-200 bg-fuchsia-50 text-fuchsia-700''
      else if eventType = ''gateway.lead.ask_user.failed'' then ''border-rose-200 bg-rose-50 text-rose-700''
      else if eventType = ''gateway.main.lead_message.sent'' then ''border-sky-200 bg-sky-50 text-sky-700''
      else if eventType = ''gateway.main.lead_message.failed'' then ''border-rose-200 bg-rose-50 text-rose-700''
      else if eventType = ''gateway.main.lead_broadcast.sent'' then ''border-amber-200 bg-amber-50 text-amber-700''
      else if eventType = ''queue.worker.success'' \<or> eventType = ''queue.worker.batch_complete'' then ''border-emerald-200 bg-emerald-50 text-emerald-700''
      else if eventType = ''queue.worker.failed'' \<or> eventType = ''queue.worker.dequeue_failed'' then ''border-rose-200 bg-rose-50 text-rose-700''
      else if starts_with eventType ''queue.worker.'' then ''border-slate-200 bg-slate-100 text-slate-700''
      else if eventType = ''webhook.dispatch.success'' \<or> eventType = ''webhook.dispatch.batch_complete'' then ''border-emerald-200 bg-emerald-50 text-emerald-700''
      else if eventType = ''webhook.dispatch.failed'' then ''border-rose-200 bg-rose-50 text-rose-700''
      else if eventType = ''webhook.dispatch.requeued'' then ''border-amber-200 bg-amber-50 text-amber-700''
      else if starts_with eventType ''webhook.dispatch.'' then ''border-sky-200 bg-sky-50 text-sky-700''
      else if eventType = ''silo.request.created'' \<or> eventType = ''silo.request.planned'' then ''border-sky-200 bg-sky-50 text-sky-700''
      else if eventType = ''silo.request.materialized'' then ''border-emerald-200 bg-emerald-50 text-emerald-700''
      else if eventType = ''silo.request.cancelled'' then ''border-amber-200 bg-amber-50 text-amber-700''
      else if eventType = ''silo.runtime.validate'' then ''border-sky-200 bg-sky-50 text-sky-700''
      else if eventType = ''silo.runtime.apply'' then ''border-indigo-200 bg-indigo-50 text-indigo-700''
      else ''border-slate-200 bg-slate-100 text-slate-700'')"

definition EXECUTION_RUN_LIVE_FEED_EVENTS :: "string list" where
  "EXECUTION_RUN_LIVE_FEED_EVENTS =
     [''task.execution_run.created'', ''task.execution_run.dispatched'', 
      ''task.execution_run.retried'', ''task.execution_run.updated'', 
      ''task.execution_run.report'', ''task.execution_run.acknowledged'', 
      ''task.execution_run.escalated'']"

definition isExecutionRunLiveFeedEvent :: "string \<Rightarrow> bool" where
  "isExecutionRunLiveFeedEvent eventType \<longleftrightarrow> eventType \<in> set EXECUTION_RUN_LIVE_FEED_EVENTS"

definition BOARD_LIVE_FEED_FILTERS :: "(string \<times> string) list" where
  "BOARD_LIVE_FEED_FILTERS =
     [(''all'', ''All''), (''runs'', ''Runs''), (''runtime'', ''Runtime''), (''tasks'', ''Tasks''),
      (''approvals'', ''Approvals''), (''agents'', ''Agents''), (''gateway'', ''Gateway''), (''chat'', ''Chat'')]"

definition isBoardLiveFeedCategory :: "string option \<Rightarrow> bool" where
  "isBoardLiveFeedCategory v \<longleftrightarrow> list_ex (\<lambda>item. v = Some (fst item)) BOARD_LIVE_FEED_FILTERS"

section \<open>The list\<close>

text \<open>
  \<open>pushLiveFeed\<close>: \<open>shown\<close> is the list of the last render (the ref), which decides
  whether the item flashes; \<open>items\<close> is the state the update applies to.
\<close>

definition push_item :: "LiveFeedItem \<Rightarrow> LiveFeedItem list \<Rightarrow> LiveFeedItem list" where
  "push_item item prev =
     (if list_ex (\<lambda>existing. lf_id existing = lf_id item) prev then prev else take 50 (item # prev))"

definition pushLiveFeed ::
  "LiveFeedItem list \<Rightarrow> bool \<Rightarrow> LiveFeedItem \<Rightarrow> LiveFeedItem list \<times> string list \<Rightarrow> LiveFeedItem list \<times> string list" where
  "pushLiveFeed shown is_open item state =
     (let (items, flashing) = state;
          alreadySeen = list_ex (\<lambda>existing. lf_id existing = lf_id item) shown;
          items' = push_item item items
      in if alreadySeen then (items', flashing)
         else if \<not> is_open then (items', flashing)
         else (items', set_add (lf_id item) flashing))"

section \<open>The history\<close>

definition item_time :: "(int \<Rightarrow> int) \<Rightarrow> LiveFeedItem \<Rightarrow> int" where
  "item_time tz item = coalesce (apiDatetimeToMs tz (Some (lf_created_at item))) 0"

text \<open>Add the items that are not there yet, up to 200.\<close>

fun collect :: "LiveFeedItem list \<Rightarrow> LiveFeedItem list \<Rightarrow> LiveFeedItem list" where
  "collect [] collected = collected"
| "collect (item # rest) collected =
     (if length collected \<ge> 200 then collected
      else if lf_id item \<in> set (map lf_id collected) then collect rest collected
      else collect rest (collected @ [item]))"

definition relevant_items ::
  "string \<Rightarrow> string list \<Rightarrow> string option \<Rightarrow> ActivityEventRead list \<Rightarrow> LiveFeedItem list" where
  "relevant_items boardId boardTaskIds boardGatewayId events =
     concat (map (\<lambda>event.
       case toLiveFeedFromActivity event of
         None \<Rightarrow> []
       | Some item \<Rightarrow> if isBoardRelevantActivity event boardId boardTaskIds boardGatewayId then [item] else [])
     events)"

text \<open>The pages of the activity log: at most five of 200 events, none after a short one.\<close>

fun collect_pages ::
  "(ActivityEventRead list \<Rightarrow> LiveFeedItem list) \<Rightarrow> (nat \<Rightarrow> ActivityEventRead list) \<Rightarrow> nat \<Rightarrow> nat
    \<Rightarrow> LiveFeedItem list \<Rightarrow> LiveFeedItem list" where
  "collect_pages relevant page 0 offset collected = collected"
| "collect_pages relevant page (Suc n) offset collected =
     (if length collected \<ge> 200 then collected
      else (let items = page offset; collected' = collect (relevant items) collected
            in if length collected' \<ge> 200 \<or> length items < 200 then collected'
               else collect_pages relevant page n (offset + 200) collected'))"

definition merge_history ::
  "(int \<Rightarrow> int) \<Rightarrow> LiveFeedItem list \<Rightarrow> LiveFeedItem list \<Rightarrow> LiveFeedItem list" where
  "merge_history tz collected prev =
     take 50 (js_sort (descending (item_time tz))
       (map snd (foldl (\<lambda>m item. map_set (lf_id item) item m) [] (prev @ collected))))"

text \<open>\<open>fetchHistory\<close>: what it collects from chat, agents, approvals and the log, merged with the feed.\<close>

definition collect_history ::
  "(int \<Rightarrow> int) \<Rightarrow> string \<Rightarrow> string list \<Rightarrow> string option \<Rightarrow> js_record list \<Rightarrow> js_record list
    \<Rightarrow> js_record list \<Rightarrow> (nat \<Rightarrow> ActivityEventRead list) \<Rightarrow> LiveFeedItem list" where
  "collect_history tz boardId boardTaskIds boardGatewayId chatMessages agents approvals page =
     (let recentChatMessages = take 50 (js_sort (descending (row_time tz)) chatMessages);
          c1 = collect (map toLiveFeedFromBoardChat recentChatMessages) [];
          c2 = collect (map toLiveFeedFromAgentSnapshot agents) c1;
          c3 = collect (map (\<lambda>a. toLiveFeedFromApproval a None) approvals) c2
      in collect_pages (relevant_items boardId boardTaskIds boardGatewayId) page 5 0 c3)"

definition fetchHistory ::
  "(int \<Rightarrow> int) \<Rightarrow> string \<Rightarrow> string list \<Rightarrow> string option \<Rightarrow> js_record list \<Rightarrow> js_record list
    \<Rightarrow> js_record list \<Rightarrow> (nat \<Rightarrow> ActivityEventRead list) \<Rightarrow> LiveFeedItem list \<Rightarrow> LiveFeedItem list" where
  "fetchHistory tz boardId boardTaskIds boardGatewayId chatMessages agents approvals page prev =
     merge_history tz (collect_history tz boardId boardTaskIds boardGatewayId chatMessages agents approvals page) prev"

definition latestLiveFeedTimestamp :: "(int \<Rightarrow> int) \<Rightarrow> LiveFeedItem list \<Rightarrow> string option" where
  "latestLiveFeedTimestamp tz items =
     (let latest = foldl (\<lambda>latestTime item.
          case apiDatetimeToMs tz (Some (lf_created_at item)) of
            None \<Rightarrow> latestTime
          | Some t \<Rightarrow> if t > latestTime then t else latestTime) 0 items
      in if latest \<noteq> 0 then Some (toISOString latest) else None)"

section \<open>Lemmas\<close>

text \<open>A map whose keys are computed from its values, built by setting one value after the other.\<close>

definition keyed_map :: "('a \<Rightarrow> 'k) \<Rightarrow> ('k \<times> 'a) list \<Rightarrow> bool" where
  "keyed_map f m \<longleftrightarrow> distinct (map fst m) \<and> (\<forall>(k, v) \<in> set m. f v = k)"

lemma set_map_set: "set (map_set k v m) \<subseteq> insert (k, v) (set m)"
  by (induction m) (auto simp: map_set_def)

lemma keyed_map_set: "keyed_map f m \<Longrightarrow> f v = k \<Longrightarrow> keyed_map f (map_set k v m)"
  using set_map_set [of k v m] by (auto simp: keyed_map_def distinct_map_set)

lemma keyed_map_values: "keyed_map f m \<Longrightarrow> map f (map snd m) = map fst m"
  by (auto simp: keyed_map_def)

lemma subset_step: "A \<subseteq> B \<union> C \<Longrightarrow> B \<subseteq> insert x D \<Longrightarrow> A \<subseteq> D \<union> insert x C"
  by blast

lemma keyed_map_fold:
  "keyed_map f m \<Longrightarrow> keyed_map f (foldl (\<lambda>m x. map_set (f x) x m) m xs)
     \<and> snd ` set (foldl (\<lambda>m x. map_set (f x) x m) m xs) \<subseteq> snd ` set m \<union> set xs
     \<and> fst ` set (foldl (\<lambda>m x. map_set (f x) x m) m xs) = fst ` set m \<union> f ` set xs"
proof (induction xs arbitrary: m)
  case (Cons x xs)
  have sub: "snd ` set (map_set (f x) x m) \<subseteq> insert x (snd ` set m)"
    using image_mono [OF set_map_set [of "f x" x m], of snd] by simp
  note ih = Cons.IH [OF keyed_map_set [OF Cons.prems refl, of x]]
  show ?case
  proof (intro conjI)
    show "keyed_map f (foldl (\<lambda>m x. map_set (f x) x m) m (x # xs))" using ih by simp
    show "snd ` set (foldl (\<lambda>m x. map_set (f x) x m) m (x # xs)) \<subseteq> snd ` set m \<union> set (x # xs)"
      using subset_step [OF conjunct1 [OF conjunct2 [OF ih]] sub] by (simp only: foldl_Cons list.set)
    show "fst ` set (foldl (\<lambda>m x. map_set (f x) x m) m (x # xs)) = fst ` set m \<union> f ` set (x # xs)"
      using ih keys_map_set [of "f x" x m] by simp
  qed
qed simp

lemma distinct_map_take: "distinct (map f xs) \<Longrightarrow> distinct (map f (take n xs))"
  using distinct_take [of "map f xs" n] by (simp only: take_map)

lemma push_item_ids:
  assumes "distinct (map lf_id prev)"
  shows "distinct (map lf_id (push_item item prev))"
proof (cases "list_ex (\<lambda>e. lf_id e = lf_id item) prev")
  case True
  with assms show ?thesis by (simp add: push_item_def)
next
  case False
  then have "lf_id item \<notin> set (map lf_id prev)" by (auto simp: list_ex_iff image_iff)
  with assms have "distinct (map lf_id (item # prev))" by simp
  from distinct_map_take [OF this, of 50] False show ?thesis by (simp only: push_item_def if_False)
qed

lemma push_item_length: "length prev \<le> 50 \<Longrightarrow> length (push_item item prev) \<le> 50"
  by (simp add: push_item_def)

lemma push_item_set: "set (push_item item prev) \<subseteq> insert item (set prev)"
  using set_take_subset [of 50 "item # prev"] by (auto simp: push_item_def)

lemma foldl_push:
  "length prev \<le> 50 \<Longrightarrow> distinct (map lf_id prev) \<Longrightarrow>
   length (foldl (\<lambda>p i. push_item i p) prev its) \<le> 50
   \<and> distinct (map lf_id (foldl (\<lambda>p i. push_item i p) prev its))
   \<and> set (foldl (\<lambda>p i. push_item i p) prev its) \<subseteq> set prev \<union> set its"
proof (induction its arbitrary: prev)
  case (Cons i its)
  from Cons.IH [OF push_item_length [OF Cons.prems(1)] push_item_ids [OF Cons.prems(2)], of i]
  show ?case using push_item_set [of i prev] by auto
qed simp

lemma sorted_take: "sorted_wrt R xs \<Longrightarrow> sorted_wrt R (take n xs)"
  by (metis append_take_drop_id sorted_wrt_append)

lemma take_before_drop: "sorted_wrt R xs \<Longrightarrow> x \<in> set (take n xs) \<Longrightarrow> y \<in> set (drop n xs) \<Longrightarrow> R x y"
  by (metis append_take_drop_id sorted_wrt_append)

lemma merge_history_facts:
  fixes prev collected :: "LiveFeedItem list"
  defines "m \<equiv> foldl (\<lambda>m item. map_set (lf_id item) item m) [] (prev @ collected)"
  shows "distinct (map lf_id (map snd m))" and "set (map snd m) \<subseteq> set prev \<union> set collected"
    and "lf_id ` set (map snd m) = lf_id ` (set prev \<union> set collected)"
proof -
  have "keyed_map lf_id ([] :: (string \<times> LiveFeedItem) list)" by (simp add: keyed_map_def)
  from keyed_map_fold [OF this, of "prev @ collected", folded m_def]
  have k: "keyed_map lf_id m" and s: "snd ` set m \<subseteq> set prev \<union> set collected"
    and i: "fst ` set m = lf_id ` (set prev \<union> set collected)" by (auto simp: image_Un)
  show "distinct (map lf_id (map snd m))" using k unfolding keyed_map_values [OF k] by (simp add: keyed_map_def)
  show "set (map snd m) \<subseteq> set prev \<union> set collected" using s by simp
  have "lf_id ` set (map snd m) = set (map lf_id (map snd m))" by (simp only: set_map)
  also have "\<dots> = fst ` set m" unfolding keyed_map_values [OF k] by simp
  finally show "lf_id ` set (map snd m) = lf_id ` (set prev \<union> set collected)" using i by simp
qed

lemma merge_history_ok:
  "length (merge_history tz collected prev) \<le> 50
   \<and> distinct (map lf_id (merge_history tz collected prev))
   \<and> set (merge_history tz collected prev) \<subseteq> set prev \<union> set collected
   \<and> sorted_wrt (\<lambda>a b. item_time tz b \<le> item_time tz a) (merge_history tz collected prev)"
proof -
  let ?all = "map snd (foldl (\<lambda>m item. map_set (lf_id item) item m) [] (prev @ collected))"
  let ?s = "js_sort (descending (item_time tz)) ?all"
  note f = merge_history_facts [of prev collected]
  have "distinct (map lf_id ?s)" unfolding distinct_map_js_sort by (rule f(1))
  then have "distinct (map lf_id (take 50 ?s))" by (rule distinct_map_take)
  moreover have "set (take 50 ?s) \<subseteq> set prev \<union> set collected"
    by (rule subset_trans [OF set_take_subset]) (simp only: set_js_sort f(2))
  moreover have "sorted_wrt (\<lambda>a b. item_time tz b \<le> item_time tz a) (take 50 ?s)"
    using sorted_take [OF by_key_desc.sorted_js_sort [of "item_time tz" ?all], of 50]
    by (simp add: descending_def)
  ultimately show ?thesis by (simp add: merge_history_def)
qed

text \<open>The map holds the last version of every id.\<close>

lemma map_of_fold_set:
  "map_of (foldl (\<lambda>m x. map_set (f x) x m) [] xs) i = find (\<lambda>x. f x = i) (rev xs)"
  by (induction xs rule: rev_induct) simp_all

definition latest_version :: "string \<Rightarrow> LiveFeedItem list \<Rightarrow> LiveFeedItem option" where
  "latest_version i items = find (\<lambda>item. lf_id item = i) (rev items)"

lemma merge_history_versions:
  "x \<in> set (map snd (foldl (\<lambda>m item. map_set (lf_id item) item m) [] items))
     \<longleftrightarrow> latest_version (lf_id x) items = Some x"
proof -
  let ?m = "foldl (\<lambda>m item. map_set (lf_id item) item m) [] items"
  have "keyed_map lf_id ([] :: (string \<times> LiveFeedItem) list)" by (simp add: keyed_map_def)
  then have k: "keyed_map lf_id ?m" using keyed_map_fold [of lf_id "[]" items] by blast
  then have "x \<in> snd ` set ?m \<longleftrightarrow> (lf_id x, x) \<in> set ?m" by (force simp: keyed_map_def)
  also have "\<dots> \<longleftrightarrow> map_of ?m (lf_id x) = Some x" using k by (simp add: keyed_map_def)
  finally show ?thesis by (simp add: map_of_fold_set latest_version_def)
qed

lemma latest_version_id: "latest_version i items = Some x \<Longrightarrow> lf_id x = i"
  by (auto simp: latest_version_def find_Some_iff)

text \<open>What the cut keeps is not older than what it drops.\<close>

lemma merge_history_newest:
  "(\<forall>x \<in> set (merge_history tz collected prev). latest_version (lf_id x) (prev @ collected) = Some x)
   \<and> (\<forall>i x. latest_version i (prev @ collected) = Some x \<longrightarrow> x \<in> set (merge_history tz collected prev)
      \<or> length (merge_history tz collected prev) = 50
        \<and> (\<forall>y \<in> set (merge_history tz collected prev). item_time tz x \<le> item_time tz y))"
proof -
  define versions where "versions = map snd (foldl (\<lambda>m item. map_set (lf_id item) item m) [] (prev @ collected))"
  define s where "s = js_sort (descending (item_time tz)) versions"
  have result: "merge_history tz collected prev = take 50 s" by (simp add: merge_history_def s_def versions_def)
  have mem: "x \<in> set s \<longleftrightarrow> latest_version (lf_id x) (prev @ collected) = Some x" for x
    unfolding s_def set_js_sort versions_def by (rule merge_history_versions)
  have split: "set s = set (take 50 s) \<union> set (drop 50 s)" by (metis append_take_drop_id set_append)
  have "x \<in> set (take 50 s) \<or> length (take 50 s) = 50 \<and> (\<forall>y \<in> set (take 50 s). item_time tz x \<le> item_time tz y)"
    if "x \<in> set s" for x
  proof (cases "x \<in> set (take 50 s)")
    case False
    with that split have d: "x \<in> set (drop 50 s)" by blast
    then have "50 < length s" by (cases "50 < length s") auto
    moreover have "\<forall>y \<in> set (take 50 s). item_time tz x \<le> item_time tz y"
      using take_before_drop [OF by_key_desc.sorted_js_sort _ d [unfolded s_def]] by (auto simp: s_def descending_def)
    ultimately show ?thesis by simp
  qed simp
  moreover have "latest_version (lf_id x) (prev @ collected) = Some x" if "latest_version i (prev @ collected) = Some x" for i x
    using that latest_version_id [OF that] by simp
  ultimately show ?thesis unfolding result using mem in_set_takeD [of _ 50 s] by blast
qed

section \<open>Merging comments\<close>

definition comment_ok :: "js_record \<Rightarrow> bool" where
  "comment_ok c \<longleftrightarrow> (\<exists>s. get_prop c ''created_at'' = Str s) \<and> get_prop c ''id'' \<noteq> Undefined"

lemma row_time_created: "get_prop r ''created_at'' = get_prop c ''created_at'' \<Longrightarrow> row_time tz r = row_time tz c"
  by (simp add: row_time_def str_prop_def)

text \<open>
  What the map holds after the comments \<open>cs\<close>: one row per id, with that id and the
  latest time among the comments with that id.
\<close>

definition merged :: "(int \<Rightarrow> int) \<Rightarrow> js_record list \<Rightarrow> (js \<times> js_record) list \<Rightarrow> bool" where
  "merged tz cs m \<longleftrightarrow> distinct (map fst m)
     \<and> fst ` set m = (\<lambda>c. get_prop c ''id'') ` set cs
     \<and> (\<forall>(i, r) \<in> set m. get_prop r ''id'' = i \<and> comment_ok r
          \<and> (\<exists>c \<in> set cs. get_prop c ''id'' = i \<and> row_time tz c = row_time tz r)
          \<and> (\<forall>c \<in> set cs. get_prop c ''id'' = i \<longrightarrow> row_time tz c \<le> row_time tz r))"

lemma merged_row:
  fixes tz
  assumes "comment_ok existing" and "comment_ok comment" and "get_prop comment ''id'' = get_prop existing ''id''"
  defines "r \<equiv> (if row_time tz comment \<ge> row_time tz existing then spread existing comment else spread comment existing)"
  shows "get_prop r ''id'' = get_prop comment ''id''" and "comment_ok r"
    and "row_time tz r = max (row_time tz existing) (row_time tz comment)"
proof -
  have c: "get_prop comment ''created_at'' \<noteq> Undefined" "get_prop existing ''created_at'' \<noteq> Undefined"
    using assms(1,2) by (auto simp: comment_ok_def)
  show i: "get_prop r ''id'' = get_prop comment ''id''"
    using assms(3) by (simp add: r_def get_prop_spread_same)
  have t: "get_prop r ''created_at'' = get_prop (if row_time tz comment \<ge> row_time tz existing then comment else existing) ''created_at''"
    using c by (simp add: r_def get_prop_spread_defined)
  then show "comment_ok r" using assms(1,2) i by (auto simp: comment_ok_def split: if_splits)
  show "row_time tz r = max (row_time tz existing) (row_time tz comment)"
    using row_time_created [OF t, of tz] by (simp add: max_def)
qed

lemma merged_step:
  assumes "merged tz cs m" and "comment_ok c"
  shows "merged tz (cs @ [c]) (merge_comment tz m c)"
proof -
  let ?i = "get_prop c ''id''"
  have m: "distinct (map fst m)" "fst ` set m = (\<lambda>c. get_prop c ''id'') ` set cs"
    "\<And>i r. (i, r) \<in> set m \<Longrightarrow> get_prop r ''id'' = i \<and> comment_ok r
          \<and> (\<exists>c \<in> set cs. get_prop c ''id'' = i \<and> row_time tz c = row_time tz r)
          \<and> (\<forall>c \<in> set cs. get_prop c ''id'' = i \<longrightarrow> row_time tz c \<le> row_time tz r)"
    using assms(1) by (auto simp: merged_def)
  obtain r where step: "merge_comment tz m c = map_set ?i r m"
    and r: "get_prop r ''id'' = ?i" "comment_ok r"
      "\<exists>d \<in> set (cs @ [c]). get_prop d ''id'' = ?i \<and> row_time tz d = row_time tz r"
      "\<forall>d \<in> set (cs @ [c]). get_prop d ''id'' = ?i \<longrightarrow> row_time tz d \<le> row_time tz r"
  proof (cases "map_of m ?i")
    case None
    then have "?i \<notin> (\<lambda>c. get_prop c ''id'') ` set cs" using m(2) by (simp add: map_of_eq_None_iff)
    then have "\<forall>d \<in> set cs. get_prop d ''id'' \<noteq> ?i" by (auto simp: image_iff)
    with None assms(2) show ?thesis by (intro that [of c]) (auto simp: merge_comment_def Let_def)
  next
    case (Some e)
    then have "(?i, e) \<in> set m" by (rule map_of_SomeD)
    from m(3) [OF this] have e: "get_prop e ''id'' = ?i" "comment_ok e"
      "\<exists>d \<in> set cs. get_prop d ''id'' = ?i \<and> row_time tz d = row_time tz e"
      "\<forall>d \<in> set cs. get_prop d ''id'' = ?i \<longrightarrow> row_time tz d \<le> row_time tz e" by blast+
    let ?r = "if row_time tz c \<ge> row_time tz e then spread e c else spread c e"
    have id: "get_prop c ''id'' = get_prop e ''id''" using e(1) by simp
    note row = merged_row [OF e(2) assms(2) id, of tz]
    have step: "merge_comment tz m c = map_set ?i ?r m" using Some by (simp add: merge_comment_def Let_def)
    have ex: "\<exists>d \<in> set (cs @ [c]). get_prop d ''id'' = ?i \<and> row_time tz d = row_time tz ?r"
    proof (cases "row_time tz e \<le> row_time tz c")
      case True
      then have "row_time tz c = row_time tz ?r" unfolding row(3) by (simp add: max_def)
      then show ?thesis by (intro bexI [of _ c]) simp_all
    next
      case False
      then have "row_time tz e = row_time tz ?r" unfolding row(3) by (simp add: max_def)
      then show ?thesis using e(3) by auto
    qed
    have all: "\<forall>d \<in> set (cs @ [c]). get_prop d ''id'' = ?i \<longrightarrow> row_time tz d \<le> row_time tz ?r"
      unfolding row(3) using e(4) by (auto simp: le_max_iff_disj)
    show ?thesis by (rule that [OF step row(1,2) ex all])
  qed
  have "distinct (map fst (map_set ?i r m))" by (rule distinct_map_set [OF m(1)])
  moreover have "fst ` set (map_set ?i r m) = (\<lambda>c. get_prop c ''id'') ` set (cs @ [c])"
    using keys_map_set [of ?i r m] m(2) by auto
  moreover have "get_prop q ''id'' = i \<and> comment_ok q
          \<and> (\<exists>d \<in> set (cs @ [c]). get_prop d ''id'' = i \<and> row_time tz d = row_time tz q)
          \<and> (\<forall>d \<in> set (cs @ [c]). get_prop d ''id'' = i \<longrightarrow> row_time tz d \<le> row_time tz q)"
    if iq: "(i, q) \<in> set (map_set ?i r m)" for i q
  proof (cases "i = ?i")
    case True
    have "map_of (map_set ?i r m) i = Some q"
      using iq distinct_map_set [OF m(1)] by (simp add: map_of_is_SomeI del: map_of_map_set)
    with True have "q = r" by simp
    with True r show ?thesis by blast
  next
    case False
    with iq set_map_set [of ?i r m] have "(i, q) \<in> set m" by auto
    from m(3) [OF this] False show ?thesis by auto
  qed
  ultimately show ?thesis unfolding step merged_def by blast
qed

lemma merged_all:
  "merged tz cs m \<Longrightarrow> \<forall>c \<in> set ds. comment_ok c \<Longrightarrow> merged tz (cs @ ds) (foldl (merge_comment tz) m ds)"
proof (induction ds arbitrary: cs m)
  case (Cons d ds)
  then have "merged tz (cs @ [d]) (merge_comment tz m d)" by (simp add: merged_step)
  from Cons.IH [OF this] Cons.prems(2) show ?case by simp
qed simp

text \<open>The ids of the merged rows are those of the rows that come in.\<close>

lemma comments_ids:
  assumes "\<forall>c \<in> set (concat collections). comment_ok c"
  shows "(\<lambda>r. get_prop r ''id'') ` set (mergeCommentsById tz collections)
    = (\<lambda>c. get_prop c ''id'') ` set (concat collections)"
proof -
  define m where "m = foldl (merge_comment tz) [] (concat collections)"
  have "merged tz [] ([] :: (js \<times> js_record) list)" by (simp add: merged_def)
  from merged_all [OF this assms] have inv: "merged tz (concat collections) m" by (simp add: m_def)
  then have keys: "map (\<lambda>r. get_prop r ''id'') (map snd m) = map fst m" by (auto simp: merged_def)
  have "(\<lambda>r. get_prop r ''id'') ` set (mergeCommentsById tz collections) = set (map (\<lambda>r. get_prop r ''id'') (map snd m))"
    unfolding mergeCommentsById_def m_def [symmetric] set_js_sort set_map by (rule refl)
  then show ?thesis unfolding keys using inv by (simp add: merged_def)
qed

section \<open>Labels of accepted events\<close>

lemma known_types_labelled:
  "list_all (\<lambda>e. liveFeedEventLabel e = ''Updated'' \<longleftrightarrow> e = ''task.updated'') LIVE_FEED_EVENT_TYPES"
  by code_simp

text \<open>The rules that come before the default cover the two families of event types.\<close>

lemma default_label_families:
  "liveFeedEventLabel e = ''Updated'' \<Longrightarrow>
   \<not> (starts_with e ''agent.'' \<and> ends_with e ''.direct'') \<and> \<not> (starts_with e ''agent.'' \<and> ends_with e ''.failed'')
   \<and> \<not> (starts_with e ''board.group.'' \<and> ends_with e ''.notified'')
   \<and> \<not> (starts_with e ''board.group.'' \<and> ends_with e ''.notify_failed'')"
  by (simp add: liveFeedEventLabel_def split: if_split_asm)

section \<open>Properties\<close>

text \<open>whatever is pushed, in whatever order, the feed holds at most fifty items, no two with the
  same id, and only items that were pushed; a pushed item that is new is in front.\<close>

theorem feed_invariant:
  "length (foldl (\<lambda>feed item. push_item item feed) [] items) \<le> 50
   \<and> distinct (map lf_id (foldl (\<lambda>feed item. push_item item feed) [] items))
   \<and> set (foldl (\<lambda>feed item. push_item item feed) [] items) \<subseteq> set items
   \<and> (lf_id new \<notin> lf_id ` set (foldl (\<lambda>feed item. push_item item feed) [] items) \<longrightarrow>
      js_first (foldl (\<lambda>feed item. push_item item feed) [] (items @ [new])) = Some new)"
  using foldl_push [of "[]" items]
  by (auto simp: push_item_def list_ex_iff image_iff)

definition sample_item :: "string \<Rightarrow> LiveFeedItem" where
  "sample_item i = \<lparr>lf_id = i, lf_created_at = ''2026-03-01'', lf_message = None, lf_payload = Null,
     lf_agent_id = None, lf_actor_name = None, lf_task_id = None, lf_title = None, lf_event_type = ''task.created''\<rparr>"

theorem feed_invariant_witness:
  "js_first (foldl (\<lambda>feed item. push_item item feed) [] ([sample_item ''a''] @ [sample_item ''b''])) = Some (sample_item ''b'')"
  using feed_invariant [of "[sample_item ''a'']" "sample_item ''b''"]
  by (simp add: push_item_def sample_item_def)

text \<open>C33: opening the feed leaves at most fifty items, no two with the same id, newest first, each
  in the version of its id that came last (the history's, where it has one); and what is cut
  off are the oldest: an item that came, in that version, and is not shown is not newer than
  any of the fifty that are.\<close>

theorem history_merge:
  assumes "items = prev @ collect_history tz b ts g chats agents approvals page"
    and "feed = fetchHistory tz b ts g chats agents approvals page prev"
  shows "length feed \<le> 50 \<and> distinct (map lf_id feed)
   \<and> sorted_wrt (\<lambda>x y. item_time tz y \<le> item_time tz x) feed
   \<and> (\<forall>x \<in> set feed. latest_version (lf_id x) items = Some x)
   \<and> (\<forall>i x. latest_version i items = Some x \<longrightarrow> x \<in> set feed
      \<or> length feed = 50 \<and> (\<forall>y \<in> set feed. item_time tz x \<le> item_time tz y))"
  using merge_history_ok merge_history_newest unfolding assms fetchHistory_def by blast

theorem history_merge_witness:
  "sample_item ''a'' \<in> set (fetchHistory (\<lambda>t. t) ''b'' [] None [] [] [] (\<lambda>_. []) [sample_item ''a''])"
proof -
  let ?feed = "fetchHistory (\<lambda>t. t) ''b'' [] None [] [] [] (\<lambda>_. []) [sample_item ''a'']"
  let ?items = "[sample_item ''a''] @ collect_history (\<lambda>t. t) ''b'' [] None [] [] [] (\<lambda>_. [])"
  have "length ?feed = 1"
    by (simp add: fetchHistory_def collect_history_def merge_history_def relevant_items_def eval_nat_numeral map_set_def)
  moreover have "latest_version ''a'' ?items = Some (sample_item ''a'')"
    by (simp add: latest_version_def collect_history_def relevant_items_def eval_nat_numeral sample_item_def)
  ultimately show ?thesis
    using history_merge [of ?items "[sample_item ''a'']" "\<lambda>t. t" "''b''" "[]" None "[]" "[]" "[]" "\<lambda>_. []" ?feed, OF refl refl] by auto
qed

text \<open>every event type the feed accepts has a label of its own: the default "Updated" is shown
  for task updates only.\<close>

theorem accepted_events_labelled:
  "isLiveFeedEventType e \<Longrightarrow> liveFeedEventLabel e = ''Updated'' \<longleftrightarrow> e = ''task.updated''"
proof -
  assume a: "isLiveFeedEventType e"
  from known_types_labelled have known:
    "\<forall>v \<in> set LIVE_FEED_EVENT_TYPES. liveFeedEventLabel v = ''Updated'' \<longleftrightarrow> v = ''task.updated''"
    by (simp only: list_all_iff)
  show ?thesis
  proof (cases "e \<in> set LIVE_FEED_EVENT_TYPES")
    case True
    with known show ?thesis by (rule bspec)
  next
    case False
    with a have "liveFeedEventLabel e \<noteq> ''Updated''"
      using default_label_families [of e] unfolding isLiveFeedEventType_def by argo
    moreover have "e \<noteq> ''task.updated''" using False by (auto simp: LIVE_FEED_EVENT_TYPES_def)
    ultimately show ?thesis by argo
  qed
qed

theorem accepted_events_labelled_witness:
  "isLiveFeedEventType ''agent.sync.failed'' \<and> liveFeedEventLabel ''agent.sync.failed'' \<noteq> ''Updated''"
proof -
  have "isLiveFeedEventType ''agent.sync.failed''" by code_simp
  with accepted_events_labelled [OF this] show ?thesis by simp
qed

text \<open>merging comment lists keeps one row per comment id, for exactly the ids that occur, newest
  first, and the row of an id has the latest creation time among its versions.\<close>

theorem comments_merged:
  assumes "\<forall>c \<in> set (concat collections). comment_ok c"
  shows "distinct (map (\<lambda>r. get_prop r ''id'') (mergeCommentsById tz collections))
    \<and> (\<lambda>r. get_prop r ''id'') ` set (mergeCommentsById tz collections)
        = (\<lambda>c. get_prop c ''id'') ` set (concat collections)
    \<and> sorted_wrt (\<lambda>a b. row_time tz b \<le> row_time tz a) (mergeCommentsById tz collections)
    \<and> (\<forall>r \<in> set (mergeCommentsById tz collections). \<forall>c \<in> set (concat collections).
         get_prop c ''id'' = get_prop r ''id'' \<longrightarrow> row_time tz c \<le> row_time tz r)"
proof -
  define m where "m = foldl (merge_comment tz) [] (concat collections)"
  have "merged tz [] ([] :: (js \<times> js_record) list)" by (simp add: merged_def)
  from merged_all [OF this assms] have inv: "merged tz (concat collections) m" by (simp add: m_def)
  then have keys: "map (\<lambda>r. get_prop r ''id'') (map snd m) = map fst m" by (auto simp: merged_def)
  have result: "mergeCommentsById tz collections = js_sort (descending (row_time tz)) (map snd m)"
    by (simp add: mergeCommentsById_def m_def)
  have "distinct (map fst m)" using inv by (simp add: merged_def)
  then have "distinct (map (\<lambda>r. get_prop r ''id'') (mergeCommentsById tz collections))"
    unfolding result distinct_map_js_sort keys .
  moreover note comments_ids [OF assms, of tz]
  moreover have "sorted_wrt (\<lambda>a b. row_time tz b \<le> row_time tz a) (mergeCommentsById tz collections)"
    unfolding result using by_key_desc.sorted_js_sort [of "row_time tz" "map snd m"] by (simp add: descending_def)
  moreover have "\<forall>r \<in> set (mergeCommentsById tz collections). \<forall>c \<in> set (concat collections).
      get_prop c ''id'' = get_prop r ''id'' \<longrightarrow> row_time tz c \<le> row_time tz r"
  proof
    fix r
    assume "r \<in> set (mergeCommentsById tz collections)"
    then obtain i where "(i, r) \<in> set m" unfolding result by auto
    with inv show "\<forall>c \<in> set (concat collections). get_prop c ''id'' = get_prop r ''id'' \<longrightarrow> row_time tz c \<le> row_time tz r"
      unfolding merged_def by blast
  qed
  ultimately show ?thesis by blast
qed

theorem comments_merged_witness:
  "distinct (map (\<lambda>r. get_prop r ''id'') (mergeCommentsById (\<lambda>t. t)
     [[[(''id'', Str ''a''), (''created_at'', Str ''2026-01-02'')]],
      [[(''id'', Str ''a''), (''created_at'', Str ''2026-01-03'')]]]))"
  using comments_merged [of "[[[(''id'', Str ''a''), (''created_at'', Str ''2026-01-02'')]],
      [[(''id'', Str ''a''), (''created_at'', Str ''2026-01-03'')]]]" "\<lambda>t. t"]
  by (simp add: comment_ok_def get_prop_def)

end
