(* ===== verification/BoardAccess.thy ===== *)
theory BoardAccess
  imports JsObjects
begin

text \<open>
  Who may read and write a board, as the frontend decides it from the membership record
  (\<open>resolveBoardAccess\<close> of the board page, \<open>canWriteGroupBoards\<close> of the group page) and
  as the backend decides it (\<open>backend/app/services/organizations.py\<close>), with the operations
  of the backend that change a membership. The two are compared at the end.

  A member's explicit access rows are kept with the member, in the order the database
  returns them; ids and roles are strings, whitespace is that of JavaScript's \<open>trim\<close>.
\<close>

section \<open>The frontend\<close>

record board_rights =
  canRead :: bool
  canWrite :: bool

definition resolveBoardAccess :: "js_record option \<Rightarrow> string option \<Rightarrow> board_rights" where
  "resolveBoardAccess member boardId =
     (case (member, boardId) of
        (Some m, Some b) \<Rightarrow>
          if b = [] then \<lparr>canRead = False, canWrite = False\<rparr>
          else if truthy (get_prop m ''all_boards_write'') then \<lparr>canRead = True, canWrite = True\<rparr>
          else if truthy (get_prop m ''all_boards_read'') then \<lparr>canRead = True, canWrite = False\<rparr>
          else (case (case get_prop m ''board_access'' of
                        Arr entries \<Rightarrow> List.find (\<lambda>e. get_prop e ''board_id'' = Str b) (List.map_filter as_record entries)
                      | _ \<Rightarrow> None) of
                  None \<Rightarrow> \<lparr>canRead = False, canWrite = False\<rparr>
                | Some entry \<Rightarrow>
                    \<lparr>canRead = truthy (get_prop entry ''can_read'') \<or> truthy (get_prop entry ''can_write''),
                     canWrite = truthy (get_prop entry ''can_write'')\<rparr>)
      | _ \<Rightarrow> \<lparr>canRead = False, canWrite = False\<rparr>)"

definition canWriteGroupBoards :: "js_record option \<Rightarrow> string list \<Rightarrow> bool" where
  "canWriteGroupBoards member boardIds =
     (case member of
        None \<Rightarrow> False
      | Some m \<Rightarrow>
          if truthy (get_prop m ''all_boards_write'') then True
          else (case get_prop m ''board_access'' of
                  Arr entries \<Rightarrow> boardIds \<noteq> []
                    \<and> list_ex (\<lambda>e. truthy (get_prop e ''can_write'') \<and> get_prop e ''board_id'' \<in> Str ` set boardIds)
                        (List.map_filter as_record entries)
                | _ \<Rightarrow> False))"

section \<open>The backend\<close>

record access_row =
  ar_board_id :: string
  ar_can_read :: bool
  ar_can_write :: bool

record org_member =
  om_organization_id :: string
  om_role :: string
  om_all_boards_read :: bool
  om_all_boards_write :: bool
  om_rows :: "access_row list"

record org_invite =
  iv_role :: string
  iv_all_boards_read :: bool
  iv_all_boards_write :: bool
  iv_rows :: "access_row list"

definition member_all_boards_read :: "org_member \<Rightarrow> bool" where
  "member_all_boards_read m \<longleftrightarrow> om_all_boards_read m \<or> om_all_boards_write m"

definition member_all_boards_write :: "org_member \<Rightarrow> bool" where
  "member_all_boards_write m \<longleftrightarrow> om_all_boards_write m"

definition access_row_of :: "org_member \<Rightarrow> string \<Rightarrow> access_row option" where
  "access_row_of m b = List.find (\<lambda>r. ar_board_id r = b) (om_rows m)"

text \<open>\<open>has_board_access\<close> for a board of the organization \<open>org\<close>\<close>

definition has_board_access :: "org_member \<Rightarrow> string \<Rightarrow> string \<Rightarrow> bool \<Rightarrow> bool" where
  "has_board_access m org b write =
     (if om_organization_id m \<noteq> org then False
      else if write \<and> member_all_boards_write m then True
      else if \<not> write \<and> member_all_boards_read m then True
      else (case access_row_of m b of
              None \<Rightarrow> False
            | Some r \<Rightarrow> if write then ar_can_write r else ar_can_read r \<or> ar_can_write r))"

text \<open>\<open>apply_member_access_update\<close>: the update has the fields of an invite.\<close>

definition apply_member_access_update :: "org_member \<Rightarrow> org_invite \<Rightarrow> org_member" where
  "apply_member_access_update m update =
     m\<lparr>om_all_boards_read := iv_all_boards_read update, om_all_boards_write := iv_all_boards_write update,
       om_rows := (if iv_all_boards_read update \<or> iv_all_boards_write update then [] else iv_rows update)\<rparr>"

definition normalize_role :: "string \<Rightarrow> string" where
  "normalize_role role = (let r = to_lower (trim role) in if r = [] then ''member'' else r)"

definition role_rank :: "string \<Rightarrow> int" where
  "role_rank role =
     (if role = ''member'' then 0 else if role = ''admin'' then 1 else if role = ''owner'' then 2 else 0)"

definition grant_row :: "access_row list \<Rightarrow> access_row \<Rightarrow> access_row list" where
  "grant_row rows r =
     (case find_index (\<lambda>e. ar_board_id e = ar_board_id r) rows of
        None \<Rightarrow> rows @ [\<lparr>ar_board_id = ar_board_id r, ar_can_read = ar_can_read r \<or> ar_can_write r,
                         ar_can_write = ar_can_write r\<rparr>]
      | Some i \<Rightarrow> rows[i := \<lparr>ar_board_id = ar_board_id r,
                              ar_can_read = ar_can_read (rows ! i) \<or> ar_can_read r \<or> ar_can_write r,
                              ar_can_write = ar_can_write (rows ! i) \<or> ar_can_write r\<rparr>])"

definition apply_invite_to_member :: "org_member \<Rightarrow> org_invite \<Rightarrow> org_member" where
  "apply_invite_to_member m invite =
     (let invite_role = normalize_role (if iv_role invite = [] then ''member'' else iv_role invite);
          m1 = (if role_rank invite_role > role_rank (om_role m) then m\<lparr>om_role := invite_role\<rparr> else m)
      in if iv_all_boards_read invite \<or> iv_all_boards_write invite
         then m1\<lparr>om_all_boards_read := om_all_boards_read m1 \<or> iv_all_boards_read invite \<or> iv_all_boards_write invite,
                 om_all_boards_write := om_all_boards_write m1 \<or> iv_all_boards_write invite\<rparr>
         else m1\<lparr>om_rows := foldl grant_row (om_rows m1) (iv_rows invite)\<rparr>)"

text \<open>\<open>get_my_membership\<close>: the fields of the response that the pages read.\<close>

definition row_json :: "access_row \<Rightarrow> js_record" where
  "row_json r = [(''board_id'', Str (ar_board_id r)), (''can_read'', Bool (ar_can_read r)), (''can_write'', Bool (ar_can_write r))]"

definition get_my_membership :: "org_member \<Rightarrow> js_record" where
  "get_my_membership m =
     [(''organization_id'', Str (om_organization_id m)), (''role'', Str (om_role m)),
      (''all_boards_read'', Bool (om_all_boards_read m)), (''all_boards_write'', Bool (om_all_boards_write m)),
      (''board_access'', Arr (map (\<lambda>r. Obj (row_json r)) (om_rows m)))]"

section \<open>Lemmas\<close>

lemma membership_fields [simp]:
  "get_prop (get_my_membership m) ''all_boards_read'' = Bool (om_all_boards_read m)"
  "get_prop (get_my_membership m) ''all_boards_write'' = Bool (om_all_boards_write m)"
  "get_prop (get_my_membership m) ''board_access'' = Arr (map (\<lambda>r. Obj (row_json r)) (om_rows m))"
  by (simp_all add: get_my_membership_def get_prop_def)

lemma row_fields [simp]:
  "get_prop (row_json r) ''board_id'' = Str (ar_board_id r)"
  "get_prop (row_json r) ''can_read'' = Bool (ar_can_read r)"
  "get_prop (row_json r) ''can_write'' = Bool (ar_can_write r)"
  by (simp_all add: row_json_def get_prop_def)

lemma entries_of_rows: "List.map_filter as_record (map (\<lambda>r. Obj (row_json r)) rows) = map row_json rows"
  by (induction rows) (simp_all add: map_filter_simps)

lemma find_entry:
  "List.find (\<lambda>e. get_prop e ''board_id'' = Str b) (map row_json rows)
   = map_option row_json (List.find (\<lambda>r. ar_board_id r = b) rows)"
  by (induction rows) auto

lemma resolve_membership:
  assumes "b \<noteq> []"
  shows "resolveBoardAccess (Some (get_my_membership m)) (Some b) =
    (if om_all_boards_write m then \<lparr>canRead = True, canWrite = True\<rparr>
     else if om_all_boards_read m then \<lparr>canRead = True, canWrite = False\<rparr>
     else (case access_row_of m b of
             None \<Rightarrow> \<lparr>canRead = False, canWrite = False\<rparr>
           | Some r \<Rightarrow> \<lparr>canRead = ar_can_read r \<or> ar_can_write r, canWrite = ar_can_write r\<rparr>))"
  using assms
  by (simp add: resolveBoardAccess_def entries_of_rows find_entry access_row_of_def split: option.split)

lemma grant_row_simps:
  "grant_row [] r = [\<lparr>ar_board_id = ar_board_id r, ar_can_read = ar_can_read r \<or> ar_can_write r,
                      ar_can_write = ar_can_write r\<rparr>]"
  "grant_row (e # rows) r =
     (if ar_board_id e = ar_board_id r
      then \<lparr>ar_board_id = ar_board_id r, ar_can_read = ar_can_read e \<or> ar_can_read r \<or> ar_can_write r,
             ar_can_write = ar_can_write e \<or> ar_can_write r\<rparr> # rows
      else e # grant_row rows r)"
  by (simp_all add: grant_row_def split: option.split)

text \<open>What a list of rows allows on a board: reading, and writing.\<close>

definition row_rights :: "access_row list \<Rightarrow> string \<Rightarrow> bool \<Rightarrow> bool" where
  "row_rights rows b write =
     (case List.find (\<lambda>r. ar_board_id r = b) rows of
        None \<Rightarrow> False
      | Some r \<Rightarrow> if write then ar_can_write r else ar_can_read r \<or> ar_can_write r)"

definition row_grants :: "access_row \<Rightarrow> string \<Rightarrow> bool \<Rightarrow> bool" where
  "row_grants r b write \<longleftrightarrow> ar_board_id r = b \<and> (if write then ar_can_write r else ar_can_read r \<or> ar_can_write r)"

lemma row_rights_grant: "row_rights (grant_row rows r) b w \<longleftrightarrow> row_rights rows b w \<or> row_grants r b w"
  by (induction rows) (auto simp: row_rights_def row_grants_def grant_row_simps split: if_splits)

lemma row_rights_grants:
  "row_rights (foldl grant_row rows rs) b w \<longleftrightarrow> row_rights rows b w \<or> (\<exists>r \<in> set rs. row_grants r b w)"
  by (induction rs arbitrary: rows) (auto simp: row_rights_grant)

lemma has_board_access_rights:
  "has_board_access m org b w \<longleftrightarrow> om_organization_id m = org \<and>
     (om_all_boards_write m \<or> \<not> w \<and> om_all_boards_read m \<or> row_rights (om_rows m) b w)"
  by (auto simp: has_board_access_def member_all_boards_read_def member_all_boards_write_def
      access_row_of_def row_rights_def)

definition invite_grants :: "org_invite \<Rightarrow> string \<Rightarrow> bool \<Rightarrow> bool" where
  "invite_grants invite b w \<longleftrightarrow>
     (if iv_all_boards_read invite \<or> iv_all_boards_write invite then w \<longrightarrow> iv_all_boards_write invite
      else \<exists>r \<in> set (iv_rows invite). row_grants r b w)"

section \<open>Properties\<close>

text \<open>C28: the board page shows a board as readable exactly when the backend lets the member read it.
  It offers writing only when the backend allows it, and refuses it to a member who may
  write exactly when that member reads every board of the organization and writes this one
  through an explicit row.\<close>

theorem board_access_agrees:
  assumes "b \<noteq> []"
  shows "canRead (resolveBoardAccess (Some (get_my_membership m)) (Some b))
           = has_board_access m (om_organization_id m) b False
    \<and> (canWrite (resolveBoardAccess (Some (get_my_membership m)) (Some b))
        \<longleftrightarrow> has_board_access m (om_organization_id m) b True \<and> (om_all_boards_write m \<or> \<not> om_all_boards_read m))"
  using assms
  by (simp add: resolve_membership has_board_access_rights row_rights_def access_row_of_def split: option.split)

definition sample_member :: org_member where
  "sample_member = \<lparr>om_organization_id = ''o'', om_role = ''member'', om_all_boards_read = False,
     om_all_boards_write = False, om_rows = [\<lparr>ar_board_id = ''b'', ar_can_read = True, ar_can_write = True\<rparr>]\<rparr>"

theorem board_access_agrees_witness:
  "canWrite (resolveBoardAccess (Some (get_my_membership sample_member)) (Some ''b''))"
  using board_access_agrees [of "''b''" sample_member]
  by (simp add: sample_member_def has_board_access_rights row_rights_def)

text \<open>C39: accepting an invite gives a member exactly the rights the member had and those of the invite,
  and never a lower role.\<close>

theorem invite_adds_rights:
  "(has_board_access (apply_invite_to_member m invite) org b w \<longleftrightarrow>
     has_board_access m org b w \<or> om_organization_id m = org \<and> invite_grants invite b w)
   \<and> role_rank (om_role m) \<le> role_rank (om_role (apply_invite_to_member m invite))"
  by (auto simp: has_board_access_rights apply_invite_to_member_def Let_def row_rights_grants invite_grants_def)

text \<open>a member who may write a board and accepts an invite to read every board may still write it,
  but the board page shows it as read-only from then on.\<close>

theorem invite_hides_write:
  assumes "b \<noteq> []" and "has_board_access m (om_organization_id m) b True"
    and "\<not> om_all_boards_write m" and "iv_all_boards_read invite" and "\<not> iv_all_boards_write invite"
  shows "has_board_access (apply_invite_to_member m invite) (om_organization_id m) b True
    \<and> \<not> canWrite (resolveBoardAccess (Some (get_my_membership (apply_invite_to_member m invite))) (Some b))"
  using assms
  by (auto simp: resolve_membership has_board_access_rights apply_invite_to_member_def Let_def)

theorem invite_hides_write_witness:
  "canWrite (resolveBoardAccess (Some (get_my_membership sample_member)) (Some ''b''))
   \<and> \<not> canWrite (resolveBoardAccess (Some (get_my_membership (apply_invite_to_member sample_member
        \<lparr>iv_role = ''member'', iv_all_boards_read = True, iv_all_boards_write = False, iv_rows = []\<rparr>))) (Some ''b''))"
  using invite_hides_write [of "''b''" sample_member
      "\<lparr>iv_role = ''member'', iv_all_boards_read = True, iv_all_boards_write = False, iv_rows = []\<rparr>"]
  by (simp add: sample_member_def has_board_access_rights row_rights_def resolve_membership access_row_of_def)

end
