(* ===== verification/BoardRows.thy ===== *)
theory BoardRows
  imports LiveFeed WebClient
begin

text \<open>
  What the board page (\<open>src/app/boards/[boardId]/page.tsx\<close>) computes from its rows:
  the normalisation of tasks, agents and approvals, the cursors sent when a stream
  reconnects, the links between approvals and tasks, the order of the agents,
  the summaries of the live feed, and the text of a failed action.
\<close>

section \<open>Normalised rows\<close>

definition row_id :: "js_record \<Rightarrow> js" where
  "row_id r = get_prop r ''id''"

definition normalizeTask :: "js_record \<Rightarrow> js_record" where
  "normalizeTask task = spread task
     [(''status'', js_coalesce (get_prop task ''status'') (Str ''inbox'')),
      (''priority'', js_coalesce (get_prop task ''priority'') (Str ''medium'')),
      (''approvals_count'', js_coalesce (get_prop task ''approvals_count'') (Num (Fin 0))),
      (''approvals_pending_count'', js_coalesce (get_prop task ''approvals_pending_count'') (Num (Fin 0)))]"

definition normalizeAgent :: "js_record \<Rightarrow> js_record" where
  "normalizeAgent agent = spread agent [(''status'', js_coalesce (get_prop agent ''status'') (Str ''offline''))]"

definition normalizeApproval :: "js_record \<Rightarrow> js_record" where
  "normalizeApproval approval =
     spread approval [(''status'', js_coalesce (get_prop approval ''status'') (Str ''pending''))]"

definition find_row :: "js \<Rightarrow> js_record list \<Rightarrow> js_record option" where
  "find_row i rows = List.find (\<lambda>r. row_id r = i) rows"

text \<open>\<open>task.assigned_agent_id ? (agents.find(...)?.name ?? null) : null\<close>\<close>

definition assignee_of :: "js_record list \<Rightarrow> js_record \<Rightarrow> js" where
  "assignee_of agents task =
     (let a = get_prop task ''assigned_agent_id''
      in if truthy a
         then (case find_row a agents of None \<Rightarrow> Null | Some agent \<Rightarrow> js_coalesce (get_prop agent ''name'') Null)
         else Null)"

section \<open>Stream cursors\<close>

text \<open>The newest time among the values that are present and parse, if it is after the epoch.\<close>

definition latest_ms :: "(int \<Rightarrow> int) \<Rightarrow> js list \<Rightarrow> int" where
  "latest_ms tz values =
     foldl (\<lambda>latestTime v.
       if \<not> truthy v then latestTime
       else (case apiDatetimeToMs tz (as_string v) of
               None \<Rightarrow> latestTime
             | Some time \<Rightarrow> if time > latestTime then time else latestTime)) 0 values"

definition cursor_text :: "int \<Rightarrow> string option" where
  "cursor_text latestTime = (if latestTime \<noteq> 0 then Some (toISOString latestTime) else None)"

definition latestTaskTimestamp :: "(int \<Rightarrow> int) \<Rightarrow> js_record list \<Rightarrow> string option" where
  "latestTaskTimestamp tz items =
     cursor_text (latest_ms tz (map (\<lambda>t. js_coalesce (get_prop t ''updated_at'') (get_prop t ''created_at'')) items))"

definition latestApprovalTimestamp :: "(int \<Rightarrow> int) \<Rightarrow> js_record list \<Rightarrow> string option" where
  "latestApprovalTimestamp tz items =
     cursor_text (latest_ms tz (map (\<lambda>a. js_coalesce (get_prop a ''resolved_at'') (get_prop a ''created_at'')) items))"

definition latestAgentTimestamp :: "(int \<Rightarrow> int) \<Rightarrow> js_record list \<Rightarrow> string option" where
  "latestAgentTimestamp tz items =
     cursor_text (latest_ms tz (map (\<lambda>a. js_coalesce (get_prop a ''updated_at'') (get_prop a ''last_seen_at'')) items))"

definition latestChatTimestamp :: "(int \<Rightarrow> int) \<Rightarrow> js_record list \<Rightarrow> string option" where
  "latestChatTimestamp tz items =
     (if items = [] then None
      else cursor_text (foldl (\<lambda>mx item.
        case apiDatetimeToMs tz (str_prop item ''created_at'') of None \<Rightarrow> mx | Some ts \<Rightarrow> max mx ts) 0 items))"

text \<open>The last control command of the chat: \<open>/pause\<close> or \<open>/resume\<close>.\<close>

definition control_command :: "js_record \<Rightarrow> string" where
  "control_command message = to_lower (trim (coalesce (str_prop message ''content'') []))"

definition lastAgentControlCommand :: "js_record list \<Rightarrow> string option" where
  "lastAgentControlCommand chatMessages =
     map_option control_command
       (List.find (\<lambda>m. control_command m = ''/pause'' \<or> control_command m = ''/resume'') (rev chatMessages))"

definition isAgentsPaused :: "js_record list \<Rightarrow> bool" where
  "isAgentsPaused chatMessages \<longleftrightarrow> lastAgentControlCommand chatMessages = Some ''/pause''"

section \<open>Failed actions\<close>

text \<open>
  What a \<open>catch\<close> of the page sees: an error of the client, or one the page throws itself.
  The text of a \<open>SyntaxError\<close> or a failed \<open>fetch\<close> is the browser's (\<open>engine\<close>).
\<close>

datatype caught = ClientError client_error | PageError string

definition error_text :: "(client_error \<Rightarrow> string) \<Rightarrow> caught \<Rightarrow> string" where
  "error_text engine err =
     (case err of
        PageError m \<Rightarrow> m
      | ClientError (ConfigError m) \<Rightarrow> m
      | ClientError (ApiError _ m _) \<Rightarrow> m
      | ClientError e \<Rightarrow> engine e)"

definition formatActionError :: "(client_error \<Rightarrow> string) \<Rightarrow> caught \<Rightarrow> string \<Rightarrow> string" where
  "formatActionError engine err fallback =
     (case err of
        ClientError (ApiError status message _) \<Rightarrow>
          if status = 403 then ''Read-only access. You do not have permission to make changes.''
          else if message \<noteq> [] then message else fallback
      | _ \<Rightarrow> if error_text engine err \<noteq> [] then error_text engine err else fallback)"

section \<open>Execution runs, tags, anchors\<close>

fun js_get :: "js \<Rightarrow> string \<Rightarrow> js" where
  "js_get (Obj ps) k = get_prop ps k"
| "js_get _ k = Undefined"

definition executionRunTotalTokens :: "js_record \<Rightarrow> rat" where
  "executionRunTotalTokens run =
     (case js_get (get_prop run ''result_payload'') ''usage'' of
        Obj usage \<Rightarrow> coalesce (as_finite (get_prop usage ''total_tokens'')) 0
      | _ \<Rightarrow> 0)"

definition executionRunPullRequestNumber :: "js_record \<Rightarrow> string option" where
  "executionRunPullRequestNumber run =
     (case js_get (get_prop run ''result_payload'') ''pull_request'' of
        Num (Fin q) \<Rightarrow> Some (show_int (rat_trunc q))
      | Str s \<Rightarrow> if trim s \<noteq> [] then Some (trim s) else None
      | _ \<Rightarrow> None)"

definition is_word_char :: "char \<Rightarrow> bool" where
  "is_word_char c \<longleftrightarrow> is_digit c \<or> (97 \<le> char_code c \<and> char_code c \<le> 122)
     \<or> (65 \<le> char_code c \<and> char_code c \<le> 90) \<or> c = CHR ''_''"

definition commentElementId :: "string \<Rightarrow> string" where
  "commentElementId i =
     ''task-comment-'' @ map (\<lambda>c. if is_word_char c \<or> c = CHR ''-'' then c else CHR ''-'') i"

definition is_hex_char :: "char \<Rightarrow> bool" where
  "is_hex_char c \<longleftrightarrow> is_digit c \<or> (97 \<le> char_code c \<and> char_code c \<le> 102)"

definition normalizeTagColor :: "string option \<Rightarrow> string" where
  "normalizeTagColor v =
     (let t = trim (coalesce v []);
          cleaned = to_lower (if starts_with t ''#'' then tl t else t)
      in if length cleaned = 6 \<and> list_all is_hex_char cleaned then cleaned else ''9e9e9e'')"

definition statusBadgeClass :: "string option \<Rightarrow> string" where
  "statusBadgeClass v =
     (if v = Some ''in_progress'' then ''bg-purple-100 text-purple-700''
      else if v = Some ''review'' then ''bg-indigo-100 text-indigo-700''
      else if v = Some ''done'' then ''bg-emerald-100 text-emerald-700''
      else ''bg-slate-100 text-slate-600'')"

definition priorityBadgeClass :: "string option \<Rightarrow> string" where
  "priorityBadgeClass v =
     (case map_option to_lower v of
        Some p \<Rightarrow> if p = ''high'' then ''bg-rose-100 text-rose-700''
                  else if p = ''medium'' then ''bg-amber-100 text-amber-700''
                  else if p = ''low'' then ''bg-emerald-100 text-emerald-700''
                  else ''bg-slate-100 text-slate-600''
      | None \<Rightarrow> ''bg-slate-100 text-slate-600'')"

section \<open>Pressure on a silo request\<close>

definition siloRequestPriorityClass :: "string \<Rightarrow> string" where
  "siloRequestPriorityClass priority =
     (if priority = ''urgent'' then ''bg-rose-50 text-rose-700 border border-rose-200''
      else if priority = ''high'' then ''bg-amber-50 text-amber-700 border border-amber-200''
      else if priority = ''low'' then ''bg-slate-100 text-slate-600 border border-slate-200''
      else ''bg-blue-50 text-blue-700 border border-blue-200'')"

definition isOpenSiloRequestStatus :: "string \<Rightarrow> bool" where
  "isOpenSiloRequestStatus status \<longleftrightarrow>
     status = ''requested'' \<or> status = ''planned'' \<or> status = ''spawning'' \<or> status = ''running''"

text \<open>The arguments are the title, status and priority of the source task and the priority of the request.\<close>

definition describeSiloRequestPressure :: "js \<Rightarrow> js \<Rightarrow> js \<Rightarrow> string \<Rightarrow> string option" where
  "describeSiloRequestPressure source_task_title source_task_status source_task_priority priority =
     (if \<not> truthy source_task_title then None
      else if source_task_status = Str ''review'' then Some ''Approval or review pressure''
      else if source_task_status = Str ''in_progress'' then Some ''Active workload pressure''
      else if source_task_priority = Str ''high'' \<or> priority = ''urgent'' then Some ''High priority workload''
      else Some ''Task-linked workload'')"

fun positive :: "js \<Rightarrow> bool" where
  "positive (Num (Fin q)) = (q > 0)"
| "positive (Num PosInf) = True"
| "positive _ = False"

definition describeBoardSiloRequestPressure :: "js_record \<Rightarrow> js_record option \<Rightarrow> string option" where
  "describeBoardSiloRequestPressure request selectedTask =
     (let p = prop_text request ''priority'';
          priority = (if p = ''low'' \<or> p = ''normal'' \<or> p = ''high'' \<or> p = ''urgent'' then p else ''normal'');
          unselected = describeSiloRequestPressure
            (js_coalesce (get_prop request ''source_task_title'') Null)
            (js_coalesce (get_prop request ''source_task_status'') Null)
            (js_coalesce (get_prop request ''source_task_priority'') Null) priority
      in case selectedTask of
           None \<Rightarrow> unselected
         | Some task \<Rightarrow>
             if get_prop request ''source_task_id'' \<noteq> row_id task then unselected
             else if positive (get_prop task ''approvals_pending_count'') then Some ''Approval pressure''
             else if truthy (get_prop task ''is_blocked'') then Some ''Blocked dependency pressure''
             else describeSiloRequestPressure
                    (js_coalesce (get_prop request ''source_task_title'') (get_prop task ''title''))
                    (get_prop task ''status'') (get_prop task ''priority'') priority)"

section \<open>Approvals of a task\<close>

text \<open>\<open>approvalPayloadValue\<close> and \<open>approvalPayloadValues\<close>\<close>

definition approvalPayloadValue :: "js \<Rightarrow> string \<Rightarrow> string option" where
  "approvalPayloadValue payload k =
     (case js_get payload k of Str s \<Rightarrow> Some s | Num n \<Rightarrow> Some (show_num n) | _ \<Rightarrow> None)"

definition approvalPayloadValues :: "js \<Rightarrow> string \<Rightarrow> string list" where
  "approvalPayloadValues payload k =
     (case js_get payload k of Arr xs \<Rightarrow> List.map_filter as_string xs | _ \<Rightarrow> [])"

definition linked_task_ids :: "js_record \<Rightarrow> string list" where
  "linked_task_ids approval =
     (case get_prop approval ''task_ids'' of Arr xs \<Rightarrow> List.map_filter as_string xs | _ \<Rightarrow> [])"

definition single_task_id :: "js_record \<Rightarrow> string option" where
  "single_task_id approval =
     (let payload = get_prop approval ''payload''
      in or_else (str_prop approval ''task_id'')
         (or_else (approvalPayloadValue payload ''task_id'')
         (or_else (approvalPayloadValue payload ''taskId'') (approvalPayloadValue payload ''taskID''))))"

definition merged_task_ids :: "js_record \<Rightarrow> string list" where
  "merged_task_ids approval =
     (let payload = get_prop approval ''payload''
      in linked_task_ids approval
         @ approvalPayloadValues payload ''task_ids'' @ approvalPayloadValues payload ''taskIds''
         @ approvalPayloadValues payload ''taskIDs''
         @ (case single_task_id approval \<bind> truthy_str of None \<Rightarrow> [] | Some i \<Rightarrow> [i]))"

text \<open>The page removes duplicates twice: by hand for the card, with a \<open>Set\<close> for the filter.\<close>

fun dedupe :: "string list \<Rightarrow> string list \<Rightarrow> string list" where
  "dedupe seen [] = []"
| "dedupe seen (v # vs) = (if v \<in> set seen then dedupe seen vs else v # dedupe (v # seen) vs)"

definition approvalTaskIds :: "js_record \<Rightarrow> string list" where
  "approvalTaskIds approval = dedupe [] (merged_task_ids approval)"

definition taskIdsForApproval :: "js_record \<Rightarrow> string list" where
  "taskIdsForApproval approval = set_add_all (merged_task_ids approval) []"

definition taskApprovals :: "js_record list \<Rightarrow> js_record option \<Rightarrow> js_record list" where
  "taskApprovals approvals selectedTask =
     (case selectedTask of
        None \<Rightarrow> []
      | Some task \<Rightarrow> filter (\<lambda>a. row_id task \<in> Str ` set (taskIdsForApproval a)) approvals)"

definition pendingTaskApprovalsCount :: "js_record list \<Rightarrow> js_record option \<Rightarrow> int" where
  "pendingTaskApprovalsCount approvals selectedTask =
     int (length (filter (\<lambda>a. get_prop a ''status'' = Str ''pending'') (taskApprovals approvals selectedTask)))"

definition approvalRows :: "js_record \<Rightarrow> (string \<times> string) list" where
  "approvalRows approval =
     (let payload = get_prop approval ''payload''; taskIds = approvalTaskIds approval;
          assignedAgentId = or_else (approvalPayloadValue payload ''assigned_agent_id'')
                                    (approvalPayloadValue payload ''assignedAgentId'');
          row = (\<lambda>label v. case v \<bind> truthy_str of None \<Rightarrow> [] | Some t \<Rightarrow> [(label, t)])
      in (if length taskIds = 1 then [(''Task'', hd taskIds)] else [])
         @ (if length taskIds > 1 then [(''Tasks'', join '', '' taskIds)] else [])
         @ (if str_includes (prop_text approval ''action_type'') ''assign''
            then [(''Assignee'', coalesce assignedAgentId ''Unassigned'')] else [])
         @ row ''Title'' (approvalPayloadValue payload ''title'')
         @ row ''Role'' (approvalPayloadValue payload ''role''))"

section \<open>Agents of the board\<close>

definition workingAgentIds :: "js_record list \<Rightarrow> js list" where
  "workingAgentIds tasks =
     set_add_all (map (\<lambda>t. get_prop t ''assigned_agent_id'')
       (filter (\<lambda>t. get_prop t ''status'' = Str ''in_progress'' \<and> truthy (get_prop t ''assigned_agent_id'')) tasks)) []"

definition agent_rank :: "js list \<Rightarrow> js_record \<Rightarrow> int" where
  "agent_rank working agent =
     (if row_id agent \<in> set working then 0
      else if get_prop agent ''status'' = Str ''online'' then 1
      else if get_prop agent ''status'' = Str ''provisioning'' then 2
      else 3)"

text \<open>\<open>loc\<close> is \<open>String.prototype.localeCompare\<close> in the browser's collation.\<close>

definition sortedAgents :: "(string \<Rightarrow> string \<Rightarrow> int) \<Rightarrow> js_record list \<Rightarrow> js_record list \<Rightarrow> js_record list" where
  "sortedAgents loc agents tasks =
     js_sort (cmp_then (ascending (agent_rank (workingAgentIds tasks))) (cmp_on loc (\<lambda>a. prop_text a ''name''))) agents"

definition agentRoleLabel :: "js_record \<Rightarrow> string" where
  "agentRoleLabel agent =
     (case trimmed_string (js_get (get_prop agent ''identity_profile'') ''role'') of
        Some role \<Rightarrow> role
      | None \<Rightarrow>
          if truthy (get_prop agent ''is_board_lead'') then ''Board lead''
          else if truthy (get_prop agent ''is_gateway_main'') then ''Gateway main''
          else ''Agent'')"

section \<open>The feed as shown\<close>

definition orderedLiveFeed :: "(int \<Rightarrow> int) \<Rightarrow> LiveFeedItem list \<Rightarrow> LiveFeedItem list" where
  "orderedLiveFeed tz liveFeed = js_sort (descending (item_time tz)) liveFeed"

definition visibleLiveFeed :: "ActivityCategory \<Rightarrow> LiveFeedItem list \<Rightarrow> LiveFeedItem list" where
  "visibleLiveFeed mode ordered =
     (if mode = AllEvents then ordered
      else filter (\<lambda>item. if mode = Runs then isExecutionRunLiveFeedEvent (lf_event_type item)
                          else activityCategoryForEvent (lf_event_type item) = mode) ordered)"

record LiveFeedOpsSummary =
  ops_latestLabel :: string
  ops_latestAt :: "string option"
  ops_successCount :: int
  ops_failureCount :: int

definition ops_summary :: "string list \<Rightarrow> string list \<Rightarrow> LiveFeedItem list \<Rightarrow> LiveFeedOpsSummary" where
  "ops_summary successes failures events =
     \<lparr>ops_latestLabel = (case js_first events of None \<Rightarrow> ''No signal'' | Some e \<Rightarrow> liveFeedEventLabel (lf_event_type e)),
      ops_latestAt = map_option lf_created_at (js_first events),
      ops_successCount = int (length (filter (\<lambda>e. lf_event_type e \<in> set successes) events)),
      ops_failureCount = int (length (filter (\<lambda>e. lf_event_type e \<in> set failures) events))\<rparr>"

definition workerOpsSummary :: "LiveFeedItem list \<Rightarrow> LiveFeedOpsSummary" where
  "workerOpsSummary ordered =
     ops_summary [''queue.worker.success'', ''queue.worker.batch_complete'']
       [''queue.worker.failed'', ''queue.worker.dequeue_failed'']
       (filter (\<lambda>e. starts_with (lf_event_type e) ''queue.worker.'') ordered)"

definition webhookOpsSummary :: "LiveFeedItem list \<Rightarrow> LiveFeedOpsSummary" where
  "webhookOpsSummary ordered =
     ops_summary [''webhook.dispatch.success'', ''webhook.dispatch.batch_complete''] [''webhook.dispatch.failed'']
       (filter (\<lambda>e. starts_with (lf_event_type e) ''webhook.dispatch.'') ordered)"

text \<open>The events of the selected task, and those of no task.\<close>

definition of_task :: "string option \<Rightarrow> LiveFeedItem \<Rightarrow> bool" where
  "of_task taskId item \<longleftrightarrow>
     (case taskId \<bind> truthy_str of None \<Rightarrow> True | Some i \<Rightarrow> lf_task_id item = Some i \<or> lf_task_id item = None)"

definition taskWorkerOpsSummary :: "string option \<Rightarrow> LiveFeedItem list \<Rightarrow> LiveFeedOpsSummary" where
  "taskWorkerOpsSummary taskId ordered = workerOpsSummary (filter (of_task taskId) ordered)"

definition taskWebhookOpsSummary :: "string option \<Rightarrow> LiveFeedItem list \<Rightarrow> LiveFeedOpsSummary" where
  "taskWebhookOpsSummary taskId ordered = webhookOpsSummary (filter (of_task taskId) ordered)"

section \<open>Dependencies\<close>

record DependencyBannerDependency =
  dep_id :: js
  dep_title :: js
  dep_statusLabel :: string
  dep_isBlocking :: bool
  dep_isDone :: bool
  dep_disabled :: bool

definition status_label :: "js_record \<Rightarrow> string" where
  "status_label task =
     (case get_prop task ''status'' of Str s \<Rightarrow> if s \<noteq> [] then replace_char (CHR ''_'') (CHR '' '') s else ''unknown''
      | _ \<Rightarrow> ''unknown'')"

definition id_list :: "js \<Rightarrow> js list" where
  "id_list v = (case v of Arr xs \<Rightarrow> xs | _ \<Rightarrow> [])"

text \<open>\<open>taskById\<close> is a \<open>Map\<close> filled in order: a later task with the same id wins.\<close>

definition taskById :: "js_record list \<Rightarrow> js \<Rightarrow> js_record option" where
  "taskById tasks i = find_row i (rev tasks)"

definition selectedTaskDependencies :: "js_record list \<Rightarrow> js_record option \<Rightarrow> DependencyBannerDependency list" where
  "selectedTaskDependencies tasks selectedTask =
     (case selectedTask of
        None \<Rightarrow> []
      | Some task \<Rightarrow> map (\<lambda>d.
          (let dependencyTask = taskById tasks d
           in \<lparr>dep_id = d,
               dep_title = (case dependencyTask of None \<Rightarrow> d | Some t \<Rightarrow> js_coalesce (get_prop t ''title'') d),
               dep_statusLabel = (case dependencyTask of None \<Rightarrow> ''unknown'' | Some t \<Rightarrow> status_label t),
               dep_isBlocking = (d \<in> set (id_list (get_prop task ''blocked_by_task_ids''))),
               dep_isDone = (case dependencyTask of None \<Rightarrow> False | Some t \<Rightarrow> get_prop t ''status'' = Str ''done''),
               dep_disabled = (dependencyTask = None)\<rparr>)) (id_list (get_prop task ''depends_on_task_ids'')))"

definition selectedTaskResolvedDependencies :: "js_record list \<Rightarrow> js_record option \<Rightarrow> DependencyBannerDependency list" where
  "selectedTaskResolvedDependencies tasks selectedTask =
     (case selectedTask of
        None \<Rightarrow> []
      | Some task \<Rightarrow> map (\<lambda>t.
          \<lparr>dep_id = row_id t, dep_title = get_prop t ''title'', dep_statusLabel = status_label t,
           dep_isBlocking = False, dep_isDone = (get_prop t ''status'' = Str ''done''), dep_disabled = False\<rparr>)
          (filter (\<lambda>t. row_id task \<in> set (id_list (get_prop t ''depends_on_task_ids''))) tasks))"

text \<open>Adding to and removing from the edited lists of dependencies and tags.\<close>

definition addTaskDependency :: "string \<Rightarrow> string list \<Rightarrow> string list" where
  "addTaskDependency dependencyId prev = (if dependencyId \<in> set prev then prev else prev @ [dependencyId])"

definition removeTaskDependency :: "string \<Rightarrow> string list \<Rightarrow> string list" where
  "removeTaskDependency dependencyId prev = filter (\<lambda>v. v \<noteq> dependencyId) prev"

section \<open>Lemmas\<close>

lemma find_row_Some: "find_row i rows = Some r \<Longrightarrow> r \<in> set rows \<and> row_id r = i"
  by (auto simp: find_row_def find_Some_iff)

lemma dedupe_spec: "dedupe seen xs = filter (\<lambda>x. x \<notin> set seen) (dedupe [] xs)"
proof (induction xs arbitrary: seen)
  case (Cons x xs)
  show ?case
    by (auto simp: Cons.IH [of seen] Cons.IH [of "x # seen"] Cons.IH [of "[x]"] intro!: filter_cong)
qed simp

lemma set_add_all_dedupe: "set_add_all xs acc = acc @ dedupe acc xs"
proof (induction xs arbitrary: acc)
  case (Cons x xs)
  have "dedupe (acc @ [x]) xs = dedupe (x # acc) xs"
    by (subst dedupe_spec, subst (2) dedupe_spec) (simp add: insert_commute)
  with Cons show ?case by (simp add: set_add_def)
qed simp

lemma latest_ms_max:
  "latest_ms tz vs = foldl max 0 (List.map_filter (\<lambda>v. if truthy v then apiDatetimeToMs tz (as_string v) else None) vs)"
proof -
  have "foldl (\<lambda>latestTime v.
       if \<not> truthy v then latestTime
       else (case apiDatetimeToMs tz (as_string v) of
               None \<Rightarrow> latestTime
             | Some time \<Rightarrow> if time > latestTime then time else latestTime)) a vs
     = foldl max a (List.map_filter (\<lambda>v. if truthy v then apiDatetimeToMs tz (as_string v) else None) vs)" for a
    by (induction vs arbitrary: a) (auto simp: map_filter_simps max_def split: option.splits)
  then show ?thesis by (simp add: latest_ms_def)
qed

lemma foldl_max:
  "foldl max (a :: int) xs = b \<longleftrightarrow> (b = a \<or> b \<in> set xs) \<and> a \<le> b \<and> (\<forall>x \<in> set xs. x \<le> b)"
proof -
  have "foldl max a xs \<in> insert a (set xs) \<and> a \<le> foldl max a xs \<and> (\<forall>x \<in> set xs. x \<le> foldl max a xs)"
  proof (induction xs arbitrary: a)
    case (Cons x xs)
    from Cons [of "max a x"] show ?case by (auto simp: max_def split: if_splits)
  qed simp
  then show ?thesis by (auto intro: antisym)
qed

text \<open>The time a task is known to have changed at, when it has one.\<close>

definition task_stamp :: "(int \<Rightarrow> int) \<Rightarrow> js_record \<Rightarrow> int option" where
  "task_stamp tz t =
     (let v = js_coalesce (get_prop t ''updated_at'') (get_prop t ''created_at'')
      in if truthy v then apiDatetimeToMs tz (as_string v) else None)"

lemma latest_task_ms:
  "latest_ms tz (map (\<lambda>t. js_coalesce (get_prop t ''updated_at'') (get_prop t ''created_at'')) items)
   = foldl max 0 (List.map_filter (task_stamp tz) items)"
proof -
  have "List.map_filter (\<lambda>v. if truthy v then apiDatetimeToMs tz (as_string v) else None)
      (map (\<lambda>t. js_coalesce (get_prop t ''updated_at'') (get_prop t ''created_at'')) items)
    = List.map_filter (task_stamp tz) items"
    by (induction items) (simp_all add: map_filter_simps task_stamp_def Let_def split: option.split)
  then show ?thesis by (simp add: latest_ms_max)
qed

lemma set_map_filter_iff: "x \<in> set (List.map_filter f xs) \<longleftrightarrow> (\<exists>y \<in> set xs. f y = Some x)"
  by (induction xs) (auto simp: map_filter_simps split: option.splits)

lemma execution_run_prefix:
  "list_all (\<lambda>e. isExecutionRunLiveFeedEvent e = starts_with e ''task.execution_run.'') LIVE_FEED_EVENT_TYPES"
  by code_simp

lemma execution_run_known: "isExecutionRunLiveFeedEvent e \<Longrightarrow> starts_with e ''task.execution_run.''"
  by (auto simp: isExecutionRunLiveFeedEvent_def EXECUTION_RUN_LIVE_FEED_EVENTS_def)

section \<open>Properties\<close>

text \<open>the two ways in which the page collects the tasks of an approval give the same list, without
  repetitions, of the linked ids.\<close>

theorem approval_links_agree:
  "taskIdsForApproval approval = approvalTaskIds approval
   \<and> distinct (approvalTaskIds approval) \<and> set (approvalTaskIds approval) = set (merged_task_ids approval)"
proof -
  have eq: "taskIdsForApproval approval = approvalTaskIds approval"
    by (simp add: taskIdsForApproval_def approvalTaskIds_def set_add_all_dedupe)
  have "distinct (taskIdsForApproval approval)"
    "set (taskIdsForApproval approval) = set (merged_task_ids approval)"
    by (simp_all add: taskIdsForApproval_def)
  with eq show ?thesis by simp
qed

text \<open>the cursor a reconnecting task stream sends is the newest time of the tasks it holds: no
  task has a later one, some task has it, and there is none exactly when no task has a time
  after the epoch.\<close>

theorem task_cursor_newest:
  "(latestTaskTimestamp tz items = None \<longleftrightarrow> (\<forall>t \<in> set items. \<forall>ms. task_stamp tz t = Some ms \<longrightarrow> ms \<le> 0))
   \<and> (\<forall>c. latestTaskTimestamp tz items = Some c \<longrightarrow>
        (\<exists>t \<in> set items. \<exists>ms. task_stamp tz t = Some ms \<and> c = toISOString ms
           \<and> (\<forall>u \<in> set items. \<forall>ns. task_stamp tz u = Some ns \<longrightarrow> ns \<le> ms)))"
proof -
  define L where "L = foldl max 0 (List.map_filter (task_stamp tz) items)"
  have L: "L = 0 \<or> (\<exists>t \<in> set items. task_stamp tz t = Some L)" "0 \<le> L"
    "\<forall>t \<in> set items. \<forall>ms. task_stamp tz t = Some ms \<longrightarrow> ms \<le> L"
    using foldl_max [of 0 "List.map_filter (task_stamp tz) items" L] by (auto simp: L_def set_map_filter_iff)
  have ts: "latestTaskTimestamp tz items = (if L \<noteq> 0 then Some (toISOString L) else None)"
    by (simp add: latestTaskTimestamp_def latest_task_ms L_def cursor_text_def)
  show ?thesis
  proof (cases "L = 0")
    case True
    with L ts show ?thesis by simp
  next
    case False
    with L(1) obtain t where t: "t \<in> set items" "task_stamp tz t = Some L" by blast
    moreover have "\<not> L \<le> 0" using False L(2) by linarith
    ultimately show ?thesis using ts False L(3) by auto
  qed
qed

theorem task_cursor_newest_witness:
  "\<exists>c. latestTaskTimestamp (\<lambda>t. t) [[(''updated_at'', Str ''2026-03-01'')]] = Some c"
proof (rule ccontr)
  assume "\<nexists>c. latestTaskTimestamp (\<lambda>t. t) [[(''updated_at'', Str ''2026-03-01'')]] = Some c"
  then have "latestTaskTimestamp (\<lambda>t. t) [[(''updated_at'', Str ''2026-03-01'')]] = None" by simp
  moreover have "task_stamp (\<lambda>t. t) [(''updated_at'', Str ''2026-03-01'')] = Some 1772323200000" by code_simp
  ultimately show False using task_cursor_newest [of "\<lambda>t. t" "[[(''updated_at'', Str ''2026-03-01'')]]"] by auto
qed

text \<open>For the events the feed accepts, the set of run events that the filter "Runs" uses and the
  category of the activity page agree.\<close>

theorem run_filter_agrees:
  "isLiveFeedEventType e \<Longrightarrow> isExecutionRunLiveFeedEvent e \<longleftrightarrow> activityCategoryForEvent e = Runs"
proof -
  assume a: "isLiveFeedEventType e"
  show ?thesis
  proof (cases "e \<in> set LIVE_FEED_EVENT_TYPES")
    case True
    with execution_run_prefix show ?thesis by (simp only: list_all_iff category_runs)
  next
    case False
    with a have "starts_with e ''agent.'' \<or> starts_with e ''board.group.''"
      unfolding isLiveFeedEventType_def by argo
    then have "\<not> starts_with e ''task.execution_run.''"
      by (auto simp: starts_with_iff)
    with execution_run_known [of e] show ?thesis unfolding category_runs by argo
  qed
qed

theorem run_filter_agrees_witness:
  "isExecutionRunLiveFeedEvent ''task.execution_run.report''"
proof -
  have "isLiveFeedEventType ''task.execution_run.report''" by code_simp
  from run_filter_agrees [OF this] show ?thesis by (simp add: category_runs)
qed

end
