(* ===== verification/BoardState.thy ===== *)
theory BoardState
  imports BoardRows
begin

text \<open>
  The live state of the board page (\<open>src/app/boards/[boardId]/page.tsx\<close>): the rows it
  holds, the frames of its five event streams, what opening and polling the live feed adds to
  it, and the actions of the user that change the
  rows, each split where the code awaits the server, so that stream frames can come in
  between. \<open>tasksRef\<close>, \<open>agentsRef\<close>, \<open>approvalsRef\<close> are the rows of the last
  render, which the handlers read outside of a state update. Frames have the types the code
  casts the parsed JSON to; a frame that is not JSON changes nothing.
\<close>

section \<open>The state\<close>

record ToastMessage =
  ts_id :: nat
  ts_message :: string
  ts_tone :: string

record board_state =
  tasks :: "js_record list"
  agents :: "js_record list"
  approvals :: "js_record list"
  chatMessages :: "js_record list"
  comments :: "js_record list"
  selectedTask :: "js_record option"
  selectedTaskIdRef :: "js option"
  tasksRef :: "js_record list"
  agentsRef :: "js_record list"
  approvalsRef :: "js_record list"
  liveFeed :: "LiveFeedItem list"
  boardError :: "string option"
  toasts :: "ToastMessage list"
  toastId :: nat

text \<open>The effects after a render: the refs take the rows, and the id of the selected task.\<close>

definition rendered :: "board_state \<Rightarrow> board_state" where
  "rendered b = b\<lparr>tasksRef := tasks b, agentsRef := agents b, approvalsRef := approvals b,
                  selectedTaskIdRef := map_option row_id (selectedTask b)\<rparr>"

definition push_feed :: "LiveFeedItem option \<Rightarrow> board_state \<Rightarrow> board_state" where
  "push_feed item b = (case item of None \<Rightarrow> b | Some i \<Rightarrow> b\<lparr>liveFeed := push_item i (liveFeed b)\<rparr>)"

text \<open>\<open>loadBoard\<close>: the snapshot replaces the rows.\<close>

definition loadBoard ::
  "js_record list \<Rightarrow> js_record list \<Rightarrow> js_record list \<Rightarrow> js_record list \<Rightarrow> board_state \<Rightarrow> board_state" where
  "loadBoard snap_tasks snap_agents snap_approvals snap_chat b =
     b\<lparr>tasks := map normalizeTask snap_tasks, agents := map normalizeAgent snap_agents,
       approvals := map normalizeApproval snap_approvals, chatMessages := snap_chat\<rparr>"

section \<open>Agents and approvals\<close>

text \<open>\<open>next[index] = { ...next[index], ...normalized }\<close>, or in front.\<close>

definition put_row :: "js_record \<Rightarrow> js_record list \<Rightarrow> js_record list" where
  "put_row = upsert row_id row_id (\<lambda>x. x) spread"

definition agent_frame :: "js_record option \<Rightarrow> board_state \<Rightarrow> board_state" where
  "agent_frame payload b =
     (case payload of
        None \<Rightarrow> b
      | Some agent \<Rightarrow>
          (let normalized = normalizeAgent agent;
               previousAgent = find_row (row_id normalized) (agentsRef b);
               b1 = push_feed (toLiveFeedFromAgentUpdate normalized previousAgent) b
           in b1\<lparr>agents := put_row normalized (agents b1)\<rparr>))"

datatype task_counts = NoCounts | OneCount js_record | ManyCounts "js_record list"

record approval_payload =
  ap_approval :: "js_record option"
  ap_task_counts :: task_counts

fun count_rows :: "task_counts \<Rightarrow> js_record list" where
  "count_rows NoCounts = []"
| "count_rows (OneCount r) = [r]"
| "count_rows (ManyCounts rs) = rs"

text \<open>\<open>countsByTaskId\<close>: a \<open>Map\<close> from the rows that have a task id, the last row of an id wins.\<close>

definition countsByTaskId :: "js_record list \<Rightarrow> (js \<times> js_record) list" where
  "countsByTaskId rows =
     foldl (\<lambda>m r. map_set (get_prop r ''task_id'') r m) []
       (filter (\<lambda>r. truthy (get_prop r ''task_id'')) rows)"

definition with_counts :: "(js \<times> js_record) list \<Rightarrow> js_record \<Rightarrow> js_record" where
  "with_counts m task =
     (case map_of m (row_id task) of
        None \<Rightarrow> task
      | Some counts \<Rightarrow> spread task
          [(''approvals_count'', js_coalesce (get_prop counts ''approvals_count'') (get_prop task ''approvals_count'')),
           (''approvals_pending_count'',
            js_coalesce (get_prop counts ''approvals_pending_count'') (get_prop task ''approvals_pending_count''))])"

definition approval_frame :: "approval_payload \<Rightarrow> board_state \<Rightarrow> board_state" where
  "approval_frame payload b =
     (let b1 = (case ap_approval payload of
                  None \<Rightarrow> b
                | Some approval \<Rightarrow>
                    (let normalized = normalizeApproval approval;
                         previousApproval = find_row (row_id normalized) (approvalsRef b);
                         b0 = push_feed (Some (toLiveFeedFromApproval normalized previousApproval)) b
                     in b0\<lparr>approvals := put_row normalized (approvals b0)\<rparr>));
          taskCounts = count_rows (ap_task_counts payload)
      in if taskCounts = [] then b1
         else b1\<lparr>tasks := map (with_counts (countsByTaskId taskCounts)) (tasks b1)\<rparr>)"

section \<open>Chat\<close>

text \<open>\<open>tags?.includes("chat")\<close>\<close>

fun has_chat_tag :: "js \<Rightarrow> bool" where
  "has_chat_tag (Arr tags) = (Str ''chat'' \<in> set tags)"
| "has_chat_tag (Str s) = str_includes s ''chat''"
| "has_chat_tag _ = False"

definition add_chat :: "(int \<Rightarrow> int) \<Rightarrow> js_record \<Rightarrow> js_record list \<Rightarrow> js_record list" where
  "add_chat tz message prev =
     (if list_ex (\<lambda>item. row_id item = row_id message) prev then prev
      else js_sort (ascending (row_time tz)) (prev @ [message]))"

text \<open>The handler of a chat frame, and the end of \<open>postBoardChatMessage\<close>.\<close>

definition receive_chat :: "(int \<Rightarrow> int) \<Rightarrow> js_record \<Rightarrow> board_state \<Rightarrow> board_state" where
  "receive_chat tz message b =
     (if has_chat_tag (get_prop message ''tags'')
      then (let b1 = push_feed (Some (toLiveFeedFromBoardChat message)) b
            in b1\<lparr>chatMessages := add_chat tz message (chatMessages b1)\<rparr>)
      else b)"

definition memory_frame :: "(int \<Rightarrow> int) \<Rightarrow> js_record option \<Rightarrow> board_state \<Rightarrow> board_state" where
  "memory_frame tz payload b = (case payload of None \<Rightarrow> b | Some message \<Rightarrow> receive_chat tz message b)"

section \<open>The task stream\<close>

definition own_counts :: "js \<Rightarrow> js \<Rightarrow> js \<Rightarrow> js_record" where
  "own_counts assignee number pending =
     [(''assignee'', assignee), (''approvals_count'', number), (''approvals_pending_count'', pending)]"

definition new_task :: "js_record list \<Rightarrow> js_record \<Rightarrow> js_record" where
  "new_task known_agents incomingTask =
     normalizeTask (spread incomingTask (own_counts (assignee_of known_agents incomingTask) (Num (Fin 0)) (Num (Fin 0))))"

text \<open>A server version of a task on top of a known one: the approval counts are the known ones.\<close>

definition updated_task :: "js_record list \<Rightarrow> js_record \<Rightarrow> js_record \<Rightarrow> js_record" where
  "updated_task known_agents existing incomingTask =
     normalizeTask (spread (spread existing incomingTask)
       (own_counts (assignee_of known_agents incomingTask)
          (get_prop existing ''approvals_count'') (get_prop existing ''approvals_pending_count'')))"

definition put_task :: "js_record list \<Rightarrow> js_record \<Rightarrow> js_record list \<Rightarrow> js_record list" where
  "put_task known_agents =
     upsert row_id row_id (new_task known_agents)
       (\<lambda>existing incomingTask. spread existing (updated_task known_agents existing incomingTask))"

record task_payload =
  tp_type :: "string option"
  tp_activity :: "ActivityEventRead option"
  tp_task :: "js_record option"
  tp_comment :: "js_record option"

definition live_event :: "task_payload \<Rightarrow> LiveFeedItem option" where
  "live_event payload =
     (case tp_activity payload of
        Some activity \<Rightarrow> toLiveFeedFromActivity activity
      | None \<Rightarrow> if tp_type payload = Some ''task.comment'' then map_option toLiveFeedFromComment (tp_comment payload)
                else None)"

definition merge_selected :: "js_record \<Rightarrow> js_record option \<Rightarrow> js_record option" where
  "merge_selected incomingTask selected =
     (case selected of
        None \<Rightarrow> None
      | Some prev \<Rightarrow>
          if row_id prev \<noteq> row_id incomingTask then Some prev
          else Some (spread (spread prev incomingTask)
                 [(''custom_field_values'',
                   if get_prop incomingTask ''custom_field_values'' \<noteq> Undefined
                   then get_prop incomingTask ''custom_field_values'' else get_prop prev ''custom_field_values'')]))"

definition put_incoming :: "task_payload \<Rightarrow> board_state \<Rightarrow> board_state" where
  "put_incoming payload b =
     (case tp_task payload of
        None \<Rightarrow> b
      | Some incomingTask \<Rightarrow>
          (let b1 = b\<lparr>tasks := put_task (agentsRef b) incomingTask (tasks b)\<rparr>
           in if selectedTaskIdRef b1 = Some (row_id incomingTask)
              then b1\<lparr>selectedTask := merge_selected incomingTask (selectedTask b1)\<rparr> else b1))"

definition task_frame :: "(int \<Rightarrow> int) \<Rightarrow> task_payload \<Rightarrow> board_state \<Rightarrow> board_state" where
  "task_frame tz payload b =
     (let b1 = push_feed (live_event payload) b
      in case tp_comment payload of
           Some comment \<Rightarrow>
             if truthy (get_prop comment ''task_id'') \<and> tp_type payload = Some ''task.comment''
             then (if selectedTaskIdRef b1 = Some (get_prop comment ''task_id'')
                   then b1\<lparr>comments := mergeCommentsById tz [comments b1, [comment]]\<rparr> else b1)
             else put_incoming payload b1
         | None \<Rightarrow> put_incoming payload b1)"

section \<open>Toasts\<close>

definition dismissToast :: "nat \<Rightarrow> board_state \<Rightarrow> board_state" where
  "dismissToast i b = b\<lparr>toasts := filter (\<lambda>toast. ts_id toast \<noteq> i) (toasts b)\<rparr>"

definition pushToast :: "string \<Rightarrow> string \<Rightarrow> board_state \<Rightarrow> board_state" where
  "pushToast message tone b =
     (let trimmed = trim message
      in if trimmed = [] then b
         else b\<lparr>toastId := toastId b + 1,
                toasts := toasts b @ [\<lparr>ts_id = toastId b + 1, ts_message = trimmed, ts_tone = tone\<rparr>]\<rparr>)"

section \<open>Creating, saving and deleting a task\<close>

text \<open>\<open>assigneeById\<close>: a \<open>Map\<close> of the board's agents, the last agent with an id wins.\<close>

definition assigneeById :: "string option \<Rightarrow> js_record list \<Rightarrow> js \<Rightarrow> js" where
  "assigneeById boardId all_agents i =
     (if \<not> truthy i then Null
      else (case find_row i (rev (filter (\<lambda>a. case boardId \<bind> truthy_str of
                                            None \<Rightarrow> True | Some b \<Rightarrow> get_prop a ''board_id'' = Str b) all_agents)) of
              None \<Rightarrow> Null
            | Some agent \<Rightarrow> js_coalesce (get_prop agent ''name'') Null))"

text \<open>
  The end of \<open>handleCreateTask\<close>: the response is a task, or an error was thrown. A handler
  keeps what it closed over when it was rendered: the agents (\<open>known_agents\<close>) and, below, the
  titles of the tasks (\<open>titles\<close>, a \<open>taskTitleById\<close>).
\<close>

definition handleCreateTask_end ::
  "(client_error \<Rightarrow> string) \<Rightarrow> string option \<Rightarrow> js_record list \<Rightarrow> caught + js_record \<Rightarrow> board_state \<Rightarrow> board_state \<times> string option" where
  "handleCreateTask_end engine boardId known_agents result b =
     (case result of
        Inr data \<Rightarrow>
          (let created = normalizeTask (spread data
                 (own_counts (assigneeById boardId known_agents (get_prop data ''assigned_agent_id''))
                    (Num (Fin 0)) (Num (Fin 0))))
           in (b\<lparr>tasks := created # tasks b\<rparr>, None))
      | Inl err \<Rightarrow>
          (let message = formatActionError engine err ''Something went wrong.''
           in (pushToast message ''error'' b, Some message)))"

text \<open>
  The answer to an update of a task: the page looks for a conflict and for a validation
  error before it takes the body as the task.
\<close>

definition json_object :: "fetch_result \<Rightarrow> js_record" where
  "json_object r = (case fr_data r of JsonData (Obj p) \<Rightarrow> p | _ \<Rightarrow> [])"

definition js_text :: "js \<Rightarrow> string" where
  "js_text v = coalesce (to_string_js v) []"

definition conflict_text :: "(js \<Rightarrow> js option) \<Rightarrow> js_record \<Rightarrow> string" where
  "conflict_text titles data =
     (let detail = get_prop data ''detail'';
          blockedIds = id_list (js_get detail ''blocked_by_task_ids'');
          blockedTitles = join '', '' (map (\<lambda>i. js_text (coalesce (titles i) i)) blockedIds);
          message = js_text (js_get detail ''message'')
      in if blockedTitles \<noteq> [] then message @ '' Blocked by: '' @ blockedTitles else message)"

definition invalid_text :: "js_record \<Rightarrow> string \<Rightarrow> string" where
  "invalid_text data fallback =
     (case get_prop data ''detail'' of
        Arr (first # _) \<Rightarrow> (case js_get first ''msg'' of Str m \<Rightarrow> m | _ \<Rightarrow> fallback)
      | _ \<Rightarrow> fallback)"

definition update_outcome ::
  "(js \<Rightarrow> js option) \<Rightarrow> string \<Rightarrow> client_error + fetch_result \<Rightarrow> caught + js_record" where
  "update_outcome titles invalid result =
     (case result of
        Inl e \<Rightarrow> Inl (ClientError e)
      | Inr r \<Rightarrow>
          if fr_status r = 409 then Inl (PageError (conflict_text titles (json_object r)))
          else if fr_status r = 422 then Inl (PageError (invalid_text (json_object r) invalid))
          else Inr (json_object r))"

definition taskTitleById :: "js_record list \<Rightarrow> js \<Rightarrow> js option" where
  "taskTitleById rows i = map_option (\<lambda>t. get_prop t ''title'') (taskById rows i)"

definition replace_task :: "js_record \<Rightarrow> js_record list \<Rightarrow> js_record list" where
  "replace_task updated rows = map (\<lambda>task. if row_id task = row_id updated then spread task updated else task) rows"

text \<open>
  The end of \<open>handleTaskSave\<close> for the task that was selected when saving began. A
  conflict or a validation error is shown in the dialog only, other errors are toasted too.
\<close>

definition handleTaskSave_end ::
  "(client_error \<Rightarrow> string) \<Rightarrow> string option \<Rightarrow> js_record list \<Rightarrow> (js \<Rightarrow> js option) \<Rightarrow> js_record \<Rightarrow> client_error + fetch_result \<Rightarrow> board_state
    \<Rightarrow> board_state \<times> string option" where
  "handleTaskSave_end engine boardId known_agents titles selected result b =
     (case update_outcome titles ''Validation error while saving task.'' result of
        Inl (PageError message) \<Rightarrow> (b, Some message)
      | Inl err \<Rightarrow>
          (let message = formatActionError engine err ''Something went wrong.''
           in (pushToast message ''error'' b, Some message))
      | Inr data \<Rightarrow>
          (let previous = coalesce (find_row (row_id selected) (tasksRef b)) selected;
               updated = normalizeTask (spread (spread previous data)
                 (own_counts (assigneeById boardId known_agents (get_prop data ''assigned_agent_id''))
                    (get_prop previous ''approvals_count'') (get_prop previous ''approvals_pending_count'')))
           in (b\<lparr>tasks := replace_task updated (tasks b), selectedTask := Some updated\<rparr>, None)))"

definition closeComments :: "board_state \<Rightarrow> board_state" where
  "closeComments b = b\<lparr>selectedTaskIdRef := None, selectedTask := None, comments := []\<rparr>"

definition handleDeleteTask_end ::
  "(client_error \<Rightarrow> string) \<Rightarrow> js_record \<Rightarrow> caught option \<Rightarrow> board_state \<Rightarrow> board_state \<times> string option" where
  "handleDeleteTask_end engine selected failure b =
     (case failure of
        None \<Rightarrow> (closeComments (b\<lparr>tasks := filter (\<lambda>task. row_id task \<noteq> row_id selected) (tasks b)\<rparr>), None)
      | Some err \<Rightarrow>
          (let message = formatActionError engine err ''Something went wrong.''
           in (pushToast message ''error'' b, Some message)))"

section \<open>Moving a task\<close>

record pending_move =
  pm_task :: js_record
  pm_previous :: "js_record list"

definition move_task :: "js \<Rightarrow> string \<Rightarrow> js_record \<Rightarrow> js_record" where
  "move_task taskId status task =
     (if row_id task = taskId
      then spread task
        [(''status'', Str status),
         (''assigned_agent_id'', if status = ''inbox'' then Null else get_prop task ''assigned_agent_id''),
         (''assignee'', if status = ''inbox'' then Null else get_prop task ''assignee'')]
      else task)"

text \<open>\<open>handleTaskMove\<close> up to its request: what it keeps until the answer, when it sends one.\<close>

definition handleTaskMove_begin :: "js \<Rightarrow> string \<Rightarrow> board_state \<Rightarrow> board_state \<times> pending_move option" where
  "handleTaskMove_begin taskId status b =
     (case find_row taskId (tasksRef b) of
        None \<Rightarrow> (b, None)
      | Some currentTask \<Rightarrow>
          if get_prop currentTask ''status'' = Str status then (b, None)
          else if truthy (get_prop currentTask ''is_blocked'') \<and> status \<noteq> ''inbox''
          then (b\<lparr>boardError := Some ''Task is blocked by incomplete dependencies.''\<rparr>, None)
          else (b\<lparr>tasks := map (move_task taskId status) (tasks b)\<rparr>,
                Some \<lparr>pm_task = currentTask, pm_previous = tasksRef b\<rparr>))"

text \<open>The rest of it, when the request is answered.\<close>

definition handleTaskMove_end ::
  "(client_error \<Rightarrow> string) \<Rightarrow> (js \<Rightarrow> js option) \<Rightarrow> pending_move \<Rightarrow> client_error + fetch_result \<Rightarrow> board_state \<Rightarrow> board_state" where
  "handleTaskMove_end engine titles pm result b =
     (case update_outcome titles ''Validation error while moving task.'' result of
        Inr data \<Rightarrow> b\<lparr>tasks := replace_task (updated_task (agentsRef b) (pm_task pm) data) (tasks b)\<rparr>
      | Inl err \<Rightarrow>
          (let message = formatActionError engine err ''Unable to move task.''
           in pushToast message ''error'' (b\<lparr>tasks := pm_previous pm, boardError := Some message\<rparr>)))"

section \<open>Approvals, chat and comments\<close>

definition handleApprovalDecision_end ::
  "(client_error \<Rightarrow> string) \<Rightarrow> js \<Rightarrow> caught + js_record \<Rightarrow> board_state \<Rightarrow> board_state \<times> string option" where
  "handleApprovalDecision_end engine approvalId result b =
     (case result of
        Inr data \<Rightarrow>
          (b\<lparr>approvals := map (\<lambda>item. if row_id item = approvalId then normalizeApproval data else item) (approvals b)\<rparr>,
           None)
      | Inl err \<Rightarrow>
          (let message = formatActionError engine err ''Unable to update approval.''
           in (pushToast message ''error'' b, Some message)))"

text \<open>\<open>openComments\<close>, and the two answers that fill the comments of the open task.\<close>

definition openComments :: "js \<Rightarrow> board_state \<Rightarrow> board_state" where
  "openComments taskId b =
     (case find_row taskId (tasksRef b) of
        None \<Rightarrow> b
      | Some fullTask \<Rightarrow> b\<lparr>selectedTaskIdRef := Some (row_id fullTask), selectedTask := Some fullTask\<rparr>)"

definition loadComments_end :: "(int \<Rightarrow> int) \<Rightarrow> js_record list \<Rightarrow> board_state \<Rightarrow> board_state" where
  "loadComments_end tz items b = b\<lparr>comments := mergeCommentsById tz [items]\<rparr>"

definition handlePostComment_end :: "(int \<Rightarrow> int) \<Rightarrow> js_record \<Rightarrow> board_state \<Rightarrow> board_state" where
  "handlePostComment_end tz created b = b\<lparr>comments := mergeCommentsById tz [[created], comments b]\<rparr>"

section \<open>The live feed\<close>

text \<open>
  The feed is emptied when the board of the page changes. When it is opened, \<open>fetchHistory\<close>
  merges what it collected from the rows it read (those of some earlier render) and the pages
  of the log with what the feed holds when the last page has come.
\<close>

definition reset_feed :: "board_state \<Rightarrow> board_state" where
  "reset_feed b = b\<lparr>liveFeed := []\<rparr>"

definition fetchHistory_end ::
  "(int \<Rightarrow> int) \<Rightarrow> string \<Rightarrow> string option \<Rightarrow> board_state \<Rightarrow> (nat \<Rightarrow> ActivityEventRead list) \<Rightarrow> board_state \<Rightarrow> board_state" where
  "fetchHistory_end tz boardId boardGatewayId seen page b =
     b\<lparr>liveFeed := fetchHistory tz boardId (map (\<lambda>task. prop_text task ''id'') (tasks seen)) boardGatewayId
                    (chatMessages seen) (agents seen) (approvals seen) page (liveFeed b)\<rparr>"

text \<open>
  While the feed is open, the newest events of the log are asked for every twenty seconds,
  and those of the board are pushed; the activity stream pushes the event of a frame.
\<close>

definition pollGenericActivity ::
  "string \<Rightarrow> string list \<Rightarrow> string option \<Rightarrow> ActivityEventRead list \<Rightarrow> board_state \<Rightarrow> board_state" where
  "pollGenericActivity boardId boardTaskIds boardGatewayId items b =
     foldl (\<lambda>b mapped. push_feed (Some mapped) b) b (relevant_items boardId boardTaskIds boardGatewayId items)"

definition activity_frame :: "ActivityEventRead option \<Rightarrow> board_state \<Rightarrow> board_state" where
  "activity_frame payload b =
     (case payload of None \<Rightarrow> b | Some activity \<Rightarrow> push_feed (toLiveFeedFromActivity activity) b)"

section \<open>Runs of the page\<close>

text \<open>
  What the streams do, and what everything does. A move that waits for its answer is in the
  list of pending moves; frames, renders and other actions come in any order. \<open>boardId\<close>,
  \<open>tz\<close> and the text of engine errors are fixed; what a handler closed over is arbitrary.
\<close>

inductive stream_step :: "(int \<Rightarrow> int) \<Rightarrow> board_state \<Rightarrow> board_state \<Rightarrow> bool" for tz :: "int \<Rightarrow> int" where
  on_task: "stream_step tz b (task_frame tz tp b)"
| on_agent: "stream_step tz b (agent_frame ag b)"
| on_approval: "stream_step tz b (approval_frame ap b)"
| on_memory: "stream_step tz b (memory_frame tz msg b)"
| on_render: "stream_step tz b (rendered b)"

definition distinct_ids :: "js_record list \<Rightarrow> bool" where
  "distinct_ids rows \<longleftrightarrow> distinct (map row_id rows)"

inductive board_step ::
  "(int \<Rightarrow> int) \<Rightarrow> (client_error \<Rightarrow> string) \<Rightarrow> string option
    \<Rightarrow> board_state \<times> pending_move list \<Rightarrow> board_state \<times> pending_move list \<Rightarrow> bool"
  for tz :: "int \<Rightarrow> int" and engine :: "client_error \<Rightarrow> string" and boardId :: "string option" where
  streamed: "stream_step tz b b' \<Longrightarrow> board_step tz engine boardId (b, pms) (b', pms)"
| loaded: "distinct_ids sa \<Longrightarrow> distinct_ids sp \<Longrightarrow> distinct_ids sc \<Longrightarrow>
    board_step tz engine boardId (b, pms) (loadBoard st sa sp sc b, pms)"
| created: "board_step tz engine boardId (b, pms) (fst (handleCreateTask_end engine boardId ka result b), pms)"
| saved: "board_step tz engine boardId (b, pms) (fst (handleTaskSave_end engine boardId ka ti sel answer b), pms)"
| deleted: "board_step tz engine boardId (b, pms) (fst (handleDeleteTask_end engine sel failure b), pms)"
| move_refused: "handleTaskMove_begin i status b = (b', None) \<Longrightarrow> board_step tz engine boardId (b, pms) (b', pms)"
| move_sent: "handleTaskMove_begin i status b = (b', Some pm) \<Longrightarrow> board_step tz engine boardId (b, pms) (b', pm # pms)"
| move_answered: "pm \<in> set pms \<Longrightarrow>
    board_step tz engine boardId (b, pms) (handleTaskMove_end engine ti pm answer b, remove1 pm pms)"
| decided: "result = Inr r \<Longrightarrow> row_id r = i \<Longrightarrow>
    board_step tz engine boardId (b, pms) (fst (handleApprovalDecision_end engine i result b), pms)"
| not_decided: "board_step tz engine boardId (b, pms) (fst (handleApprovalDecision_end engine i (Inl err) b), pms)"
| posted_chat: "board_step tz engine boardId (b, pms) (receive_chat tz message b, pms)"
| posted_comment: "board_step tz engine boardId (b, pms) (handlePostComment_end tz c b, pms)"
| loaded_comments: "board_step tz engine boardId (b, pms) (loadComments_end tz cs b, pms)"
| opened: "board_step tz engine boardId (b, pms) (openComments i b, pms)"
| closed: "board_step tz engine boardId (b, pms) (closeComments b, pms)"
| dismissed: "board_step tz engine boardId (b, pms) (dismissToast toast b, pms)"
| feed_reset: "board_step tz engine boardId (b, pms) (reset_feed b, pms)"
| feed_history: "board_step tz engine boardId (b, pms) (fetchHistory_end tz bid gateway seen page b, pms)"
| feed_polled: "board_step tz engine boardId (b, pms) (pollGenericActivity bid task_ids gateway items b, pms)"
| feed_streamed: "board_step tz engine boardId (b, pms) (activity_frame payload b, pms)"

section \<open>Rows\<close>

lemma get_prop_overlay:
  "get_prop (spread a b) k = (if k \<in> set (map fst b) then get_prop b k else get_prop a k)"
proof (cases "map_of b k")
  case None
  moreover from None have "k \<notin> set (map fst b)" by (simp add: map_of_eq_None_iff)
  ultimately show ?thesis by (simp add: get_prop_spread)
next
  case (Some v)
  then have "k \<in> set (map fst b)" by (metis fst_conv image_eqI map_of_SomeD set_map)
  with Some show ?thesis by (simp add: get_prop_spread) (simp add: get_prop_def)
qed

lemma row_id_overlay: "''id'' \<notin> set (map fst b) \<Longrightarrow> row_id (spread a b) = row_id a"
  by (simp add: row_id_def get_prop_overlay)

lemma row_id_normalized [simp]:
  "row_id (normalizeTask t) = row_id t" "row_id (normalizeAgent t) = row_id t" "row_id (normalizeApproval t) = row_id t"
  by (simp_all add: normalizeTask_def normalizeAgent_def normalizeApproval_def row_id_overlay)

lemma row_id_own_counts [simp]: "row_id (spread t (own_counts a n m)) = row_id t"
  by (simp add: own_counts_def row_id_overlay)

lemma row_id_merged: "row_id r = row_id x \<Longrightarrow> row_id (spread r x) = row_id x"
  by (simp add: row_id_def get_prop_spread_same)

lemma row_id_updated_task: "row_id r = row_id x \<Longrightarrow> row_id (updated_task ag r x) = row_id x"
  by (simp add: updated_task_def row_id_merged)

text \<open>Tasks, agents and approvals are kept by id.\<close>

interpretation task_rows: keyed_rows row_id row_id "new_task ag"
    "\<lambda>existing incomingTask. spread existing (updated_task ag existing incomingTask)" for ag
  by unfold_locales (simp_all add: new_task_def row_id_updated_task row_id_merged)

interpretation plain_rows: keyed_rows row_id row_id "\<lambda>x. x" spread
  by unfold_locales (simp_all add: row_id_merged)

text \<open>The fields that every task of the board has.\<close>

definition task_ok :: "js_record \<Rightarrow> bool" where
  "task_ok t \<longleftrightarrow> list_all (\<lambda>k. \<not> nullish (get_prop t k))
     [''status'', ''priority'', ''approvals_count'', ''approvals_pending_count'']"

lemma nullish_coalesce [simp]: "nullish (js_coalesce v d) \<longleftrightarrow> nullish v \<and> nullish d"
  by (simp add: js_coalesce_def)

lemma nullish_simps [simp]:
  "nullish Undefined" "nullish Null" "\<not> nullish (Str s)" "\<not> nullish (Num n)" "\<not> nullish (Bool c)"
  by (simp_all add: nullish_def)

lemma task_ok_normalize [simp]: "task_ok (normalizeTask t)"
  by (simp add: task_ok_def normalizeTask_def get_prop_overlay) (simp add: get_prop_def)

lemma task_ok_spread: "task_ok a \<Longrightarrow> task_ok b \<Longrightarrow> task_ok (spread a b)"
  by (auto simp: task_ok_def get_prop_spread_defined nullish_def)

lemma task_ok_move: "task_ok t \<Longrightarrow> task_ok (move_task i status t)"
  by (simp add: task_ok_def move_task_def get_prop_overlay) (simp add: get_prop_def)

lemma task_ok_counts: "task_ok t \<Longrightarrow> task_ok (with_counts m t)"
  by (cases "map_of m (row_id t)") (simp_all add: task_ok_def with_counts_def get_prop_overlay, simp add: get_prop_def)

lemma row_id_with_counts [simp]: "row_id (with_counts m t) = row_id t"
  by (simp add: with_counts_def row_id_overlay split: option.split)

lemma row_id_move [simp]: "row_id (move_task i status t) = row_id t"
  by (simp add: move_task_def row_id_overlay)

lemma set_upsert:
  "set (upsert in_key key create merge x rows)
     \<subseteq> set rows \<union> {create x} \<union> (\<lambda>r. merge r x) ` set rows"
proof (cases "find_index (\<lambda>r. key r = in_key x) rows")
  case None
  then show ?thesis by (auto simp: upsert_def)
next
  case (Some i)
  then have "i < length rows" using find_index_Some [OF Some] by simp
  then have "rows ! i \<in> set rows" by simp
  moreover have "set (rows[i := merge (rows ! i) x]) \<subseteq> insert (merge (rows ! i) x) (set rows)"
    by (rule set_update_subset_insert)
  ultimately show ?thesis using Some by (auto simp: upsert_def)
qed

section \<open>The invariant\<close>

text \<open>
  What holds of the state whatever happens: every task (shown, or kept for a move that
  waits) has a status, a priority and counts; agents, approvals and chat messages are kept
  once per id; the feed is bounded and has no repetitions.
\<close>

definition board_ok :: "board_state \<Rightarrow> bool" where
  "board_ok b \<longleftrightarrow>
     (\<forall>t \<in> set (tasks b) \<union> set (tasksRef b). task_ok t)
     \<and> distinct_ids (agents b) \<and> distinct_ids (approvals b) \<and> distinct_ids (chatMessages b)
     \<and> length (liveFeed b) \<le> 50 \<and> distinct (map lf_id (liveFeed b))"

lemma board_okI [intro?]:
  assumes "\<And>t. t \<in> set (tasks b) \<Longrightarrow> task_ok t" and "\<And>t. t \<in> set (tasksRef b) \<Longrightarrow> task_ok t"
    and "distinct_ids (agents b)" and "distinct_ids (approvals b)" and "distinct_ids (chatMessages b)"
    and "length (liveFeed b) \<le> 50" and "distinct (map lf_id (liveFeed b))"
  shows "board_ok b"
  using assms by (auto simp: board_ok_def)

lemma board_okD:
  assumes "board_ok b"
  shows "t \<in> set (tasks b) \<Longrightarrow> task_ok t" and "t \<in> set (tasksRef b) \<Longrightarrow> task_ok t"
    and "distinct_ids (agents b)" and "distinct_ids (approvals b)" and "distinct_ids (chatMessages b)"
    and "length (liveFeed b) \<le> 50" and "distinct (map lf_id (liveFeed b))"
  using assms by (auto simp: board_ok_def)

text \<open>A change of the other fields keeps it.\<close>

lemma board_ok_cong:
  "board_ok b \<Longrightarrow> tasks b' = tasks b \<Longrightarrow> tasksRef b' = tasksRef b \<Longrightarrow> agents b' = agents b \<Longrightarrow>
   approvals b' = approvals b \<Longrightarrow> chatMessages b' = chatMessages b \<Longrightarrow> liveFeed b' = liveFeed b \<Longrightarrow> board_ok b'"
  by (simp add: board_ok_def)

lemma board_ok_tasks: "board_ok b \<Longrightarrow> \<forall>t \<in> set ts. task_ok t \<Longrightarrow> board_ok (b\<lparr>tasks := ts\<rparr>)"
  by (auto simp: board_ok_def)

lemma board_ok_push_feed: "board_ok b \<Longrightarrow> board_ok (push_feed item b)"
  by (cases item) (auto simp: push_feed_def board_ok_def push_item_ids push_item_length)

lemma push_feed_fields [simp]:
  "tasks (push_feed item b) = tasks b" "agents (push_feed item b) = agents b"
  "approvals (push_feed item b) = approvals b" "chatMessages (push_feed item b) = chatMessages b"
  "comments (push_feed item b) = comments b" "agentsRef (push_feed item b) = agentsRef b"
  "approvalsRef (push_feed item b) = approvalsRef b" "tasksRef (push_feed item b) = tasksRef b"
  "selectedTaskIdRef (push_feed item b) = selectedTaskIdRef b" "selectedTask (push_feed item b) = selectedTask b"
  by (simp_all add: push_feed_def split: option.split)

lemma pushToast_fields [simp]:
  "tasks (pushToast m n b) = tasks b" "agents (pushToast m n b) = agents b"
  "approvals (pushToast m n b) = approvals b" "chatMessages (pushToast m n b) = chatMessages b"
  "tasksRef (pushToast m n b) = tasksRef b" "liveFeed (pushToast m n b) = liveFeed b"
  by (simp_all add: pushToast_def Let_def)

lemma board_ok_pushToast [simp]: "board_ok (pushToast m n b) = board_ok b"
  by (simp add: board_ok_def)

lemma distinct_put_row: "distinct_ids rows \<Longrightarrow> distinct_ids (put_row x rows)"
  unfolding distinct_ids_def put_row_def by (rule plain_rows.distinct_upsert)

lemma put_task_ok: "\<forall>t \<in> set rows. task_ok t \<Longrightarrow> \<forall>t \<in> set (put_task ag x rows). task_ok t"
proof
  fix t
  assume rows: "\<forall>t \<in> set rows. task_ok t" and "t \<in> set (put_task ag x rows)"
  then have "t \<in> set rows \<or> t = new_task ag x \<or> (\<exists>r \<in> set rows. t = spread r (updated_task ag r x))"
    using set_upsert [of row_id row_id "new_task ag" "\<lambda>r x. spread r (updated_task ag r x)" x rows]
    unfolding put_task_def by blast
  with rows show "task_ok t"
    by (auto simp: new_task_def updated_task_def intro!: task_ok_spread)
qed

lemma distinct_add_chat: "distinct_ids rows \<Longrightarrow> distinct_ids (add_chat tz m rows)"
  by (auto simp: distinct_ids_def add_chat_def list_ex_iff)

section \<open>Every step keeps the invariant\<close>

lemma rendered_ok: "board_ok b \<Longrightarrow> board_ok (rendered b)"
  by (auto simp: rendered_def board_ok_def)

lemma agent_frame_ok: "board_ok b \<Longrightarrow> board_ok (agent_frame ag b)"
proof (cases ag)
  case (Some a)
  assume "board_ok b"
  then have "board_ok (push_feed item b)" for item by (rule board_ok_push_feed)
  with Some show ?thesis by (auto simp: agent_frame_def Let_def board_ok_def distinct_put_row)
qed (simp add: agent_frame_def)

lemma approval_frame_ok: "board_ok b \<Longrightarrow> board_ok (approval_frame payload b)"
proof -
  assume ok: "board_ok b"
  define b1 where "b1 = (case ap_approval payload of
        None \<Rightarrow> b
      | Some approval \<Rightarrow>
          (let normalized = normalizeApproval approval;
               previousApproval = find_row (row_id normalized) (approvalsRef b);
               b0 = push_feed (Some (toLiveFeedFromApproval normalized previousApproval)) b
           in b0\<lparr>approvals := put_row normalized (approvals b0)\<rparr>))"
  have "board_ok b1"
  proof (cases "ap_approval payload")
    case (Some a)
    from ok have "board_ok (push_feed item b)" for item by (rule board_ok_push_feed)
    with Some show ?thesis by (auto simp: b1_def Let_def board_ok_def distinct_put_row)
  qed (simp add: b1_def ok)
  then show ?thesis
    by (auto simp: approval_frame_def Let_def b1_def [symmetric] board_ok_def task_ok_counts)
qed

lemma receive_chat_ok: "board_ok b \<Longrightarrow> board_ok (receive_chat tz m b)"
proof -
  assume "board_ok b"
  then have "board_ok (push_feed item b)" for item by (rule board_ok_push_feed)
  with \<open>board_ok b\<close> show ?thesis
    by (auto simp: receive_chat_def Let_def board_ok_def distinct_add_chat)
qed

lemma memory_frame_ok: "board_ok b \<Longrightarrow> board_ok (memory_frame tz m b)"
  by (simp add: memory_frame_def receive_chat_ok split: option.split)

lemma put_incoming_ok: "board_ok b \<Longrightarrow> board_ok (put_incoming payload b)"
proof (cases "tp_task payload")
  case (Some t)
  assume "board_ok b"
  then have "\<forall>u \<in> set (put_task (agentsRef b) t (tasks b)). task_ok u"
    by (intro put_task_ok) (auto dest: board_okD)
  with Some \<open>board_ok b\<close> show ?thesis
    by (auto simp: put_incoming_def Let_def board_ok_def)
qed (simp add: put_incoming_def)

lemma task_frame_ok: "board_ok b \<Longrightarrow> board_ok (task_frame tz payload b)"
proof -
  assume "board_ok b"
  then have ok: "board_ok (push_feed item b)" for item by (rule board_ok_push_feed)
  then have "board_ok ((push_feed item b)\<lparr>comments := cs\<rparr>)" for item cs by (simp add: board_ok_def)
  with ok show ?thesis
    by (simp add: task_frame_def Let_def put_incoming_ok del: push_feed_fields split: option.split)
qed

lemma stream_step_ok: "stream_step tz b b' \<Longrightarrow> board_ok b \<Longrightarrow> board_ok b'"
  by (induction rule: stream_step.induct)
    (simp_all add: rendered_ok agent_frame_ok approval_frame_ok memory_frame_ok task_frame_ok)

lemma distinct_ids_map: "(\<And>r. row_id (f r) = row_id r) \<Longrightarrow> distinct_ids (map f rows) = distinct_ids rows"
  by (simp add: distinct_ids_def comp_def)

lemma loadBoard_ok:
  "board_ok b \<Longrightarrow> distinct_ids sa \<Longrightarrow> distinct_ids sp \<Longrightarrow> distinct_ids sc \<Longrightarrow> board_ok (loadBoard st sa sp sc b)"
  by (auto simp: loadBoard_def board_ok_def distinct_ids_map)

lemma handleCreateTask_ok: "board_ok b \<Longrightarrow> board_ok (fst (handleCreateTask_end engine bid ka result b))"
  by (auto simp: handleCreateTask_end_def Let_def board_ok_def split: sum.split)

lemma replace_task_ok: "task_ok u \<Longrightarrow> \<forall>t \<in> set rows. task_ok t \<Longrightarrow> \<forall>t \<in> set (replace_task u rows). task_ok t"
  by (auto simp: replace_task_def task_ok_spread)

lemma handleTaskSave_ok: "board_ok b \<Longrightarrow> board_ok (fst (handleTaskSave_end engine bid ka ti sel answer b))"
proof -
  assume ok: "board_ok b"
  have "board_ok (b\<lparr>tasks := replace_task (normalizeTask u) (tasks b), selectedTask := x\<rparr>)" for u x
    using board_ok_tasks [OF ok replace_task_ok [of "normalizeTask u" "tasks b"]] board_okD(1) [OF ok]
    by (auto simp: board_ok_def)
  with ok show ?thesis
    by (simp add: handleTaskSave_end_def Let_def split: sum.split caught.split)
qed

lemma closeComments_ok: "board_ok b \<Longrightarrow> board_ok (closeComments b)"
  by (simp add: closeComments_def board_ok_def)

lemma handleDeleteTask_ok: "board_ok b \<Longrightarrow> board_ok (fst (handleDeleteTask_end engine sel failure b))"
  by (auto simp: handleDeleteTask_end_def Let_def board_ok_def closeComments_def split: option.split)

lemma handleTaskMove_begin_ok:
  assumes "board_ok b"
  shows "board_ok (fst (handleTaskMove_begin i status b))"
    and "snd (handleTaskMove_begin i status b) = Some pm \<Longrightarrow> \<forall>t \<in> set (pm_previous pm). task_ok t"
  using assms
  by (auto simp: handleTaskMove_begin_def board_ok_def task_ok_move split: option.splits if_splits)

lemma handleTaskMove_end_ok:
  assumes "board_ok b" and "\<forall>t \<in> set (pm_previous pm). task_ok t"
  shows "board_ok (handleTaskMove_end engine ti pm answer b)"
proof -
  have "board_ok (b\<lparr>tasks := replace_task (updated_task ag r x) (tasks b)\<rparr>)" for ag r x
    by (intro board_ok_tasks assms replace_task_ok) (auto simp: updated_task_def dest: board_okD(1) [OF assms(1)])
  moreover have "board_ok (b\<lparr>tasks := pm_previous pm, boardError := e\<rparr>)" for e
    using assms by (auto simp: board_ok_def)
  ultimately show ?thesis by (simp add: handleTaskMove_end_def Let_def split: sum.split)
qed

lemma handleApprovalDecision_ok:
  assumes "board_ok b" and "\<And>r. result = Inr r \<Longrightarrow> row_id r = i"
  shows "board_ok (fst (handleApprovalDecision_end engine i result b))"
proof (cases result)
  case (Inr r)
  then have "distinct_ids (map (\<lambda>item. if row_id item = i then normalizeApproval r else item) (approvals b))
      = distinct_ids (approvals b)"
    using assms(2) by (intro distinct_ids_map) simp
  with Inr assms(1) show ?thesis by (simp add: handleApprovalDecision_end_def board_ok_def)
qed (simp add: handleApprovalDecision_end_def Let_def assms(1))

lemma comment_steps_ok:
  assumes "board_ok b"
  shows "board_ok (handlePostComment_end tz c b)" and "board_ok (loadComments_end tz cs b)"
    and "board_ok (openComments i b)" and "board_ok (dismissToast n b)"
  using assms
  by (simp_all add: handlePostComment_end_def loadComments_end_def openComments_def dismissToast_def
      board_ok_def split: option.split)

lemma foldl_push_feed_ok:
  "board_ok b \<Longrightarrow> board_ok (foldl (\<lambda>b mapped. push_feed (Some mapped) b) b its)"
  by (induction its arbitrary: b) (simp_all add: board_ok_push_feed)

lemma feed_steps_ok:
  assumes "board_ok b"
  shows "board_ok (reset_feed b)" and "board_ok (fetchHistory_end tz bid g seen page b)"
    and "board_ok (pollGenericActivity bid ts g its b)" and "board_ok (activity_frame payload b)"
proof -
  from assms show "board_ok (reset_feed b)" by (simp add: reset_feed_def board_ok_def)
  have "length (fetchHistory tz bid ts g cs ag ap page prev) \<le> 50
      \<and> distinct (map lf_id (fetchHistory tz bid ts g cs ag ap page prev))" for ts cs ag ap prev
    unfolding fetchHistory_def Let_def using merge_history_ok by blast
  with assms show "board_ok (fetchHistory_end tz bid g seen page b)"
    by (simp add: fetchHistory_end_def board_ok_def)
  from assms show "board_ok (pollGenericActivity bid ts g its b)"
    unfolding pollGenericActivity_def by (rule foldl_push_feed_ok)
  from assms show "board_ok (activity_frame payload b)"
    by (simp add: activity_frame_def board_ok_push_feed split: option.split)
qed

definition session_ok :: "board_state \<times> pending_move list \<Rightarrow> bool" where
  "session_ok s \<longleftrightarrow> board_ok (fst s) \<and> (\<forall>pm \<in> set (snd s). \<forall>t \<in> set (pm_previous pm). task_ok t)"

lemma board_step_ok: "board_step tz engine boardId s s' \<Longrightarrow> session_ok s \<Longrightarrow> session_ok s'"
proof (induction rule: board_step.induct)
  case (move_refused i status b b' pms)
  then show ?case using handleTaskMove_begin_ok(1) [of b i status] by (simp add: session_ok_def)
next
  case (move_sent i status b b' pm pms)
  then show ?case using handleTaskMove_begin_ok [of b i status] by (simp add: session_ok_def)
next
  case (move_answered pm pms b ti answer)
  then show ?case using handleTaskMove_end_ok [of b pm] set_remove1_subset [of pm pms] by (auto simp: session_ok_def)
next
  case (loaded sa sp sc b pms st)
  then show ?case by (simp add: session_ok_def loadBoard_ok)
next
  case (not_decided b pms i err)
  then show ?case using handleApprovalDecision_ok [of b "Inl err" i engine] by (simp add: session_ok_def)
next
  case (decided result r i b pms)
  then show ?case using handleApprovalDecision_ok [of b result i engine] by (simp add: session_ok_def)
qed (simp_all add: session_ok_def stream_step_ok handleCreateTask_ok handleTaskSave_ok handleDeleteTask_ok
    handleApprovalDecision_ok receive_chat_ok closeComments_ok comment_steps_ok feed_steps_ok)

definition initial_board :: board_state where
  "initial_board =
     \<lparr>tasks = [], agents = [], approvals = [], chatMessages = [], comments = [], selectedTask = None,
      selectedTaskIdRef = None, tasksRef = [], agentsRef = [], approvalsRef = [], liveFeed = [],
      boardError = None, toasts = [], toastId = 0\<rparr>"

inductive reachable_board ::
  "(int \<Rightarrow> int) \<Rightarrow> (client_error \<Rightarrow> string) \<Rightarrow> string option \<Rightarrow> board_state \<times> pending_move list \<Rightarrow> bool"
  for tz :: "int \<Rightarrow> int" and engine :: "client_error \<Rightarrow> string" and boardId :: "string option" where
  start: "reachable_board tz engine boardId (initial_board, [])"
| step: "reachable_board tz engine boardId s \<Longrightarrow> board_step tz engine boardId s s' \<Longrightarrow>
    reachable_board tz engine boardId s'"

lemma reachable_session_ok: "reachable_board tz engine boardId s \<Longrightarrow> session_ok s"
proof (induction rule: reachable_board.induct)
  case start
  then show ?case by (simp add: session_ok_def board_ok_def initial_board_def distinct_ids_def)
next
  case (step s s')
  then show ?case by (blast intro: board_step_ok)
qed

section \<open>What the frames do to the tasks\<close>

lemma ids_put_task:
  "row_id ` set (put_task ag x rows) = insert (row_id x) (row_id ` set rows)"
  using arg_cong [OF task_rows.keys_upsert [of ag x rows], of set]
  unfolding put_task_def by (simp add: image_image) auto

lemma distinct_put_task: "distinct_ids rows \<Longrightarrow> distinct_ids (put_task ag x rows)"
  unfolding distinct_ids_def put_task_def by (rule task_rows.distinct_upsert)

lemma tasks_put_incoming:
  "tasks (put_incoming payload b) =
     (case tp_task payload of None \<Rightarrow> tasks b | Some x \<Rightarrow> put_task (agentsRef b) x (tasks b))"
  by (simp add: put_incoming_def Let_def split: option.split)

lemma tasks_approval_frame:
  "tasks (approval_frame payload b) =
     (if count_rows (ap_task_counts payload) = [] then tasks b
      else map (with_counts (countsByTaskId (count_rows (ap_task_counts payload)))) (tasks b))"
  by (simp add: approval_frame_def Let_def split: option.split)

lemma stream_tasks_step: "stream_step tz b b' \<Longrightarrow> distinct_ids (tasks b) \<Longrightarrow> distinct_ids (tasks b')"
proof (induction rule: stream_step.induct)
  case (on_task b tp)
  then show ?case
    by (simp add: task_frame_def Let_def tasks_put_incoming distinct_put_task split: option.split)
next
  case (on_agent b ag)
  then show ?case by (simp add: agent_frame_def Let_def split: option.split)
next
  case (on_approval b ap)
  then show ?case by (simp add: tasks_approval_frame distinct_ids_map)
next
  case (on_memory b msg)
  then show ?case by (simp add: memory_frame_def receive_chat_def Let_def split: option.split)
next
  case (on_render b)
  then show ?case by (simp add: rendered_def)
qed

text \<open>The row of a known task after a task event.\<close>

definition merged_task :: "js_record list \<Rightarrow> js_record \<Rightarrow> js_record \<Rightarrow> js_record" where
  "merged_task ag r x = spread r (updated_task ag r x)"

lemma get_prop_normalizeTask:
  "get_prop (normalizeTask t) k =
     (if k = ''status'' then js_coalesce (get_prop t k) (Str ''inbox'')
      else if k = ''priority'' then js_coalesce (get_prop t k) (Str ''medium'')
      else if k = ''approvals_count'' \<or> k = ''approvals_pending_count'' then js_coalesce (get_prop t k) (Num (Fin 0))
      else get_prop t k)"
  by (simp add: normalizeTask_def get_prop_overlay) (simp add: get_prop_def)

lemma get_prop_updated:
  "get_prop (updated_task ag r x) ''approvals_count'' = js_coalesce (get_prop r ''approvals_count'') (Num (Fin 0))"
  "get_prop (updated_task ag r x) ''approvals_pending_count'' = js_coalesce (get_prop r ''approvals_pending_count'') (Num (Fin 0))"
  "get_prop (updated_task ag r x) ''assignee'' = assignee_of ag x"
  by (simp_all add: updated_task_def get_prop_normalizeTask own_counts_def get_prop_overlay)
     (simp_all add: get_prop_def)

lemma js_coalesce_present [simp]: "\<not> nullish v \<Longrightarrow> js_coalesce v d = v"
  by (simp add: js_coalesce_def)

lemma merged_task_counts:
  assumes "task_ok r"
  shows "get_prop (merged_task ag r x) ''approvals_count'' = get_prop r ''approvals_count''"
    and "get_prop (merged_task ag r x) ''approvals_pending_count'' = get_prop r ''approvals_pending_count''"
  using assms
  by (simp_all add: merged_task_def get_prop_updated get_prop_spread_same task_ok_def)

lemma assignee_defined: "assignee_of ag x \<noteq> Undefined"
  by (simp add: assignee_of_def Let_def js_coalesce_def nullish_def split: option.split)

lemma merged_task_assignee: "get_prop (merged_task ag r x) ''assignee'' = assignee_of ag x"
  by (simp add: merged_task_def get_prop_spread_defined get_prop_updated assignee_defined)

lemma normalizeTask_keeps: "\<not> nullish (get_prop t k) \<Longrightarrow> get_prop (normalizeTask t) k = get_prop t k"
proof -
  assume "\<not> nullish (get_prop t k)"
  then have keep: "js_coalesce (get_prop t k) d = get_prop t k" for d by simp
  show ?thesis unfolding get_prop_normalizeTask keep if_cancel ..
qed

lemma merged_task_field:
  assumes "\<not> nullish (get_prop x k)"
    and "k \<notin> {''assignee'', ''approvals_count'', ''approvals_pending_count''}"
  shows "get_prop (merged_task ag r x) k = get_prop x k"
proof -
  have "get_prop (spread r x) k = get_prop x k"
    using assms(1) by (simp add: get_prop_spread_defined nullish_def)
  then have x: "get_prop (spread (spread r x) (own_counts a n m)) k = get_prop x k" for a n m
    using assms(2) by (simp add: own_counts_def get_prop_overlay [of "spread r x"])
  have "get_prop (updated_task ag r x) k = get_prop x k"
    using assms(1) by (simp add: updated_task_def normalizeTask_keeps x)
  moreover from assms(1) have "get_prop x k \<noteq> Undefined" by (auto simp: nullish_def)
  ultimately show ?thesis by (simp add: merged_task_def get_prop_spread_defined)
qed

lemma put_task_known:
  assumes "distinct_ids rows" and "row_id x \<in> row_id ` set rows"
  shows "put_task ag x rows = map (\<lambda>r. if row_id r = row_id x then merged_task ag r x else r) rows"
  using task_rows.upsert_old [of rows x ag] assms
  by (simp add: put_task_def distinct_ids_def merged_task_def)

lemma put_task_new: "row_id x \<notin> row_id ` set rows \<Longrightarrow> put_task ag x rows = new_task ag x # rows"
  unfolding put_task_def by (rule task_rows.upsert_new)

text \<open>A frame of the task stream that is about a task.\<close>

definition task_event :: "js_record \<Rightarrow> task_payload" where
  "task_event x = \<lparr>tp_type = Some ''task.updated'', tp_activity = None, tp_task = Some x, tp_comment = None\<rparr>"

lemma tasks_task_event: "tasks (task_frame tz (task_event x) b) = put_task (agentsRef b) x (tasks b)"
  by (simp add: task_frame_def task_event_def live_event_def Let_def tasks_put_incoming)

lemma outcome_of_client_error [simp]: "update_outcome titles invalid (Inl e) = Inl (ClientError e)"
  by (simp add: update_outcome_def)

lemma tasks_failed_move:
  "update_outcome titles ''Validation error while moving task.'' answer = Inl err \<Longrightarrow>
   tasks (handleTaskMove_end engine titles pm answer b) = pm_previous pm"
  by (simp add: handleTaskMove_end_def Let_def)

lemma begun_move:
  "handleTaskMove_begin i status b = (b1, Some pm) \<Longrightarrow>
   pm_previous pm = tasksRef b \<and> tasks b1 = map (move_task i status) (tasks b) \<and> agentsRef b1 = agentsRef b"
  by (auto simp: handleTaskMove_begin_def split: option.splits if_splits)

lemma ids_moved: "row_id ` set (map (move_task i status) rows) = row_id ` set rows"
  by (simp add: image_image)

text \<open>The abstract view of a list of rows: the row of an id, the first one as in \<open>findIndex\<close>.\<close>

definition rows_map :: "js_record list \<Rightarrow> js \<Rightarrow> js_record option" where
  "rows_map rows = map_of (map (\<lambda>r. (row_id r, r)) rows)"

lemma rows_map_simps [simp]:
  "rows_map [] = Map.empty" "rows_map (r # rows) = (rows_map rows)(row_id r \<mapsto> r)"
  by (simp_all add: rows_map_def)

lemma put_task_Cons:
  "put_task ag x [] = [new_task ag x]"
  "put_task ag x (r # rows) =
     (if row_id r = row_id x then merged_task ag r x # rows
      else case find_index (\<lambda>r. row_id r = row_id x) rows of
             None \<Rightarrow> new_task ag x # r # rows
           | Some i \<Rightarrow> r # put_task ag x rows)"
  by (simp_all add: put_task_def upsert_def merged_task_def split: option.split)

lemma rows_map_None: "find_index (\<lambda>r. row_id r = i) rows = None \<Longrightarrow> rows_map rows i = None"
  by (induction rows) (auto split: if_splits option.splits)

lemma row_id_rows [simp]:
  "row_id (new_task ag x) = row_id x" "row_id r = row_id x \<Longrightarrow> row_id (merged_task ag r x) = row_id x"
  by (simp_all add: new_task_def merged_task_def row_id_merged row_id_updated_task)

lemma rows_map_put_task:
  "rows_map (put_task ag x rows) = (rows_map rows)(row_id x \<mapsto>
     (case rows_map rows (row_id x) of None \<Rightarrow> new_task ag x | Some r \<Rightarrow> merged_task ag r x))"
proof (induction rows)
  case (Cons r rows)
  then show ?case
    by (auto simp: put_task_Cons rows_map_None fun_upd_twist split: option.split)
qed (simp add: put_task_Cons)

lemma rows_map_counts: "rows_map (map (with_counts m) rows) = map_option (with_counts m) \<circ> rows_map rows"
  by (induction rows) auto

section \<open>Properties\<close>

text \<open>C1: whatever the streams, the server and the user do, in whatever order, every task on the board
  has a status, a priority and approval counts, agents, approvals and chat messages are
  kept once per id, and the live feed has at most fifty items, no two with the same id, also
  when its history is merged, the log is polled or the board changes. The loaded snapshots have
  each agent, approval and message once, and a decision is answered with its own approval.\<close>

theorem board_invariant:
  assumes "reachable_board tz engine boardId (b, pms)"
  shows "(\<forall>t \<in> set (tasks b). task_ok t)
    \<and> distinct_ids (agents b) \<and> distinct_ids (approvals b) \<and> distinct_ids (chatMessages b)
    \<and> length (liveFeed b) \<le> 50 \<and> distinct (map lf_id (liveFeed b))"
  using reachable_session_ok [OF assms] by (auto simp: session_ok_def board_ok_def)

definition sample_task :: "string \<Rightarrow> js_record" where
  "sample_task i = [(''id'', Str i), (''title'', Str ''T'')]"

theorem board_invariant_witness:
  "list_all task_ok (tasks (task_frame (\<lambda>t. t) (task_event (sample_task ''a'')) initial_board))"
proof -
  have "reachable_board (\<lambda>t. t) (\<lambda>_. []) None (task_frame (\<lambda>t. t) (task_event (sample_task ''a'')) initial_board, [])"
    by (rule reachable_board.step [OF reachable_board.start])
      (rule board_step.streamed, rule stream_step.on_task)
  from board_invariant [OF this] show ?thesis by (simp add: list_all_iff)
qed

text \<open>the streams alone keep the tasks once per id, however many frames and renders there are.\<close>

theorem streams_keep_tasks_distinct:
  "(stream_step tz)\<^sup>*\<^sup>* b b' \<Longrightarrow> distinct_ids (tasks b) \<Longrightarrow> distinct_ids (tasks b')"
  by (induction rule: rtranclp_induct) (simp_all add: stream_tasks_step)

theorem streams_keep_tasks_distinct_witness:
  "distinct_ids (tasks (task_frame (\<lambda>t. t) (task_event (sample_task ''a'')) initial_board))"
proof -
  have "(stream_step (\<lambda>t. t))\<^sup>*\<^sup>* initial_board (task_frame (\<lambda>t. t) (task_event (sample_task ''a'')) initial_board)"
    by (rule r_into_rtranclp) (rule stream_step.on_task)
  from streams_keep_tasks_distinct [OF this] show ?thesis by (simp add: initial_board_def distinct_ids_def)
qed

text \<open>C4: an event about a known task changes that task only; the task keeps its approval counts,
  gets the name of its agent, and takes every other field that the event gives a value.\<close>

theorem task_event_merges:
  assumes "distinct_ids (tasks b)" and "\<forall>t \<in> set (tasks b). task_ok t"
    and "t \<in> set (tasks b)" and "row_id t = row_id x"
  shows "filter (\<lambda>r. row_id r \<noteq> row_id x) (tasks (task_frame tz (task_event x) b))
           = filter (\<lambda>r. row_id r \<noteq> row_id x) (tasks b)
    \<and> (\<exists>t' \<in> set (tasks (task_frame tz (task_event x) b)). row_id t' = row_id x
         \<and> get_prop t' ''approvals_count'' = get_prop t ''approvals_count''
         \<and> get_prop t' ''approvals_pending_count'' = get_prop t ''approvals_pending_count''
         \<and> get_prop t' ''assignee'' = assignee_of (agentsRef b) x
         \<and> (\<forall>k. \<not> nullish (get_prop x k) \<and> k \<notin> {''assignee'', ''approvals_count'', ''approvals_pending_count''}
              \<longrightarrow> get_prop t' k = get_prop x k))"
proof -
  define f where "f r = (if row_id r = row_id x then merged_task (agentsRef b) r x else r)" for r
  have rows: "tasks (task_frame tz (task_event x) b) = map f (tasks b)"
    unfolding tasks_task_event f_def by (rule put_task_known [OF assms(1)]) (metis assms(3,4) image_eqI)
  have ids: "row_id (f r) = row_id r" for r
    by (simp add: f_def merged_task_def row_id_merged row_id_updated_task)
  have "filter (\<lambda>r. row_id r \<noteq> row_id x) (map f rs) = filter (\<lambda>r. row_id r \<noteq> row_id x) rs" for rs
  proof (induction rs)
    case (Cons r rs)
    then show ?case using ids [of r] by (auto simp: f_def)
  qed simp
  moreover have "f t = merged_task (agentsRef b) t x" by (simp add: f_def assms(4))
  moreover have "f t \<in> set (map f (tasks b))" using assms(3) by simp
  moreover have "task_ok t" using assms(2,3) by blast
  ultimately show ?thesis
    unfolding rows using ids [of t] assms(4) merged_task_counts [of t] merged_task_assignee merged_task_field
    by (metis (no_types, lifting))
qed

theorem task_event_merges_witness:
  "let t = normalizeTask (sample_task ''a''); x = [(''id'', Str ''a''), (''title'', Str ''New'')];
       b = initial_board\<lparr>tasks := [t]\<rparr>
   in \<exists>t' \<in> set (tasks (task_frame (\<lambda>t. t) (task_event x) b)). get_prop t' ''title'' = Str ''New''"
proof -
  define t where "t = normalizeTask (sample_task ''a'')"
  define x where "x = [(''id'', Str ''a''), (''title'', Str ''New'')]"
  define b where "b = initial_board\<lparr>tasks := [t]\<rparr>"
  have "distinct_ids (tasks b)" "\<forall>u \<in> set (tasks b). task_ok u" "t \<in> set (tasks b)"
    by (simp_all add: b_def t_def distinct_ids_def)
  moreover have "row_id t = row_id x"
    by (simp add: t_def x_def sample_task_def row_id_def get_prop_normalizeTask) (simp add: get_prop_def)
  ultimately obtain t' where "t' \<in> set (tasks (task_frame (\<lambda>t. t) (task_event x) b))"
    "\<forall>k. \<not> nullish (get_prop x k) \<and> k \<notin> {''assignee'', ''approvals_count'', ''approvals_pending_count''}
       \<longrightarrow> get_prop t' k = get_prop x k"
    using task_event_merges [of b t x "\<lambda>t. t"] by blast
  moreover have "get_prop x ''title'' = Str ''New''" by (simp add: x_def get_prop_def)
  ultimately have "\<exists>t' \<in> set (tasks (task_frame (\<lambda>t. t) (task_event x) b)). get_prop t' ''title'' = Str ''New''"
    by (intro bexI [of _ t']) simp_all
  then show ?thesis unfolding Let_def t_def x_def b_def .
qed

text \<open>when the task stream delivers a new task before the request that created it is answered, the
  board shows the task twice.\<close>

theorem created_task_twice:
  "\<not> distinct_ids (tasks (fst (handleCreateTask_end engine boardId known_agents (Inr data)
       (task_frame tz (task_event data) b))))"
proof -
  define c where "c = normalizeTask (spread data
      (own_counts (assigneeById boardId known_agents (get_prop data ''assigned_agent_id'')) (Num (Fin 0)) (Num (Fin 0))))"
  have "tasks (fst (handleCreateTask_end engine boardId known_agents (Inr data) (task_frame tz (task_event data) b)))
      = c # put_task (agentsRef b) data (tasks b)"
    by (simp add: handleCreateTask_end_def c_def tasks_task_event Let_def)
  moreover have "row_id c \<in> row_id ` set (put_task (agentsRef b) data (tasks b))"
    by (simp add: c_def ids_put_task)
  ultimately show ?thesis by (simp add: distinct_ids_def)
qed

text \<open>C36: a move that the server refuses leaves the tasks as they were before it when nothing else
  happened; but a task that the stream adds while the request runs is shown and then gone.\<close>

theorem failed_move_loses_events:
  assumes "handleTaskMove_begin i status b = (b1, Some pm)" and "tasksRef b = tasks b"
    and "row_id x \<notin> row_id ` set (tasks b)"
    and "update_outcome titles ''Validation error while moving task.'' answer = Inl err"
  shows "tasks (handleTaskMove_end engine titles pm answer b1) = tasks b
    \<and> row_id x \<in> row_id ` set (tasks (task_frame tz (task_event x) b1))
    \<and> row_id x \<notin> row_id ` set (tasks (handleTaskMove_end engine titles pm answer (task_frame tz (task_event x) b1)))"
proof -
  from begun_move [OF assms(1)] assms(2) have pm: "pm_previous pm = tasks b" by simp
  have "row_id x \<in> row_id ` set (tasks (task_frame tz (task_event x) b1))"
    unfolding tasks_task_event ids_put_task by simp
  then show ?thesis unfolding tasks_failed_move [OF assms(4)] pm using assms(3) by simp
qed

theorem failed_move_loses_events_witness:
  "let t = normalizeTask (sample_task ''a''); b = initial_board\<lparr>tasks := [t], tasksRef := [t]\<rparr>;
       (b1, pm) = handleTaskMove_begin (Str ''a'') ''done'' b
   in tasks (handleTaskMove_end (\<lambda>_. ''x'') (\<lambda>_. None) (the pm) (Inl NetworkError) b1) = tasks b"
proof -
  define t where "t = normalizeTask (sample_task ''a'')"
  define b where "b = initial_board\<lparr>tasks := [t], tasksRef := [t]\<rparr>"
  have id: "row_id t = Str ''a''" by (simp add: t_def sample_task_def row_id_def get_prop_normalizeTask) (simp add: get_prop_def)
  have fields: "get_prop t ''status'' = Str ''inbox''" "get_prop t ''is_blocked'' = Undefined"
    by (simp_all add: t_def get_prop_normalizeTask) (simp_all add: sample_task_def get_prop_def js_coalesce_def)
  have "find_row (Str ''a'') (tasksRef b) = Some t" by (simp add: b_def find_row_def id)
  then have begun: "handleTaskMove_begin (Str ''a'') ''done'' b
      = (b\<lparr>tasks := map (move_task (Str ''a'') ''done'') (tasks b)\<rparr>, Some \<lparr>pm_task = t, pm_previous = tasksRef b\<rparr>)"
    by (simp add: handleTaskMove_begin_def fields)
  have "row_id (sample_task ''b'') = Str ''b''" by (simp add: sample_task_def row_id_def get_prop_def)
  then have "row_id (sample_task ''b'') \<notin> row_id ` set (tasks b)" by (simp add: b_def id)
  from failed_move_loses_events [OF begun _ this, of "\<lambda>_. None" "Inl NetworkError"]
  have "tasks (handleTaskMove_end (\<lambda>_. ''x'') (\<lambda>_. None) \<lparr>pm_task = t, pm_previous = tasksRef b\<rparr> (Inl NetworkError)
      (b\<lparr>tasks := map (move_task (Str ''a'') ''done'') (tasks b)\<rparr>)) = tasks b"
    by (simp add: b_def)
  then show ?thesis unfolding Let_def t_def [symmetric] b_def [symmetric] begun by simp
qed

text \<open>the texts the page composes for a conflict ("Blocked by: ...") and for a validation error are
  never shown: the client throws on these answers before the page can look at their status,
  and for a conflict with a structured detail the user reads "Request failed".\<close>

theorem conflict_text_never_shown:
  "(\<forall>m. update_outcome titles invalid (read_response resp) \<noteq> Inl (PageError m))
   \<and> (\<forall>p q. res_status resp = 409 \<and> is_json_type (coalesce (header_get ''content-type'' (res_headers resp)) [])
        \<and> res_json resp = Some (Obj p) \<and> get_prop p ''detail'' = Obj q
        \<longrightarrow> (\<exists>err. update_outcome titles invalid (read_response resp) = Inl err
             \<and> formatActionError engine err fallback = ''Request failed''))"
proof (intro conjI allI impI)
  fix m
  show "update_outcome titles invalid (read_response resp) \<noteq> Inl (PageError m)"
    by (auto simp: update_outcome_def read_response_def Let_def res_ok_def split: if_splits option.splits)
next
  fix p q
  assume "res_status resp = 409 \<and> is_json_type (coalesce (header_get ''content-type'' (res_headers resp)) [])
      \<and> res_json resp = Some (Obj p) \<and> get_prop p ''detail'' = Obj q"
  then show "\<exists>err. update_outcome titles invalid (read_response resp) = Inl err
      \<and> formatActionError engine err fallback = ''Request failed''"
    by (simp add: read_response_def Let_def res_ok_def error_message_def formatActionError_def)
qed

definition conflict_response :: response where
  "conflict_response = \<lparr>res_status = 409, res_headers = [(''content-type'', ''application/json'')],
     res_json = Some (Obj [(''detail'', Obj [(''message'', Str ''Task is blocked.''), (''blocked_by_task_ids'', Arr [Str ''a''])])]),
     res_text = None\<rparr>"

theorem conflict_text_never_shown_witness:
  "\<exists>err. update_outcome (\<lambda>_. None) [] (read_response conflict_response) = Inl err
     \<and> formatActionError (\<lambda>_. []) err [] = ''Request failed''"
proof -
  have "is_json_type (coalesce (header_get ''content-type'' (res_headers conflict_response)) [])" by code_simp
  moreover have "res_status conflict_response = 409" by (simp add: conflict_response_def)
  moreover have "res_json conflict_response = Some (Obj [(''detail'', Obj [(''message'', Str ''Task is blocked.''), (''blocked_by_task_ids'', Arr [Str ''a''])])])"
    by (simp add: conflict_response_def)
  ultimately show ?thesis
    using conflict_text_never_shown [of "\<lambda>_. None" "[]" conflict_response "\<lambda>_. []" "[]"] by (simp add: get_prop_def)
qed

text \<open>C23: the list of tasks implements a map from ids to rows: a task event updates the map at the id
  of the task, with a new row for an unknown id and the merged row for a known one, and
  counts are put on the rows they are for.\<close>

theorem tasks_refine_map:
  "rows_map (tasks (task_frame tz (task_event x) b)) = (rows_map (tasks b))(row_id x \<mapsto>
       (case rows_map (tasks b) (row_id x) of
          None \<Rightarrow> new_task (agentsRef b) x
        | Some r \<Rightarrow> merged_task (agentsRef b) r x))
   \<and> rows_map (map (with_counts m) (tasks b)) = map_option (with_counts m) \<circ> rows_map (tasks b)"
  by (simp add: tasks_task_event rows_map_put_task rows_map_counts)

end
