(* ===== verification/CustomFields.thy ===== *)
theory CustomFields
  imports JsDecimals JsObjects WebClient
begin

text \<open>
  Custom fields of tasks: the values a board shows and sends
  (\<open>app/boards/[boardId]/custom-field-utils.tsx\<close>), and the form that defines a field
  (\<open>components/custom-fields\<close>). A definition is a record; a value is any JSON value, and
  the values of a task are an object. \<open>loc\<close> is \<open>String.prototype.localeCompare\<close>.
  A type the contract does not name is \<open>Other\<close>. The backend's check of a value
  (\<open>backend/app/schemas/task_custom_fields.py\<close>) is here, too.
\<close>

section \<open>Definitions of fields\<close>

datatype CustomFieldType =
    FText | FTextLong | FInteger | FDecimal | FBoolean | FDate | FDateTime | FUrl | FJson | Other string

datatype CustomFieldVisibility = Always | IfSet | Hidden

fun field_type_text :: "CustomFieldType \<Rightarrow> string" where
  "field_type_text FText = ''text''"
| "field_type_text FTextLong = ''text_long''"
| "field_type_text FInteger = ''integer''"
| "field_type_text FDecimal = ''decimal''"
| "field_type_text FBoolean = ''boolean''"
| "field_type_text FDate = ''date''"
| "field_type_text FDateTime = ''date_time''"
| "field_type_text FUrl = ''url''"
| "field_type_text FJson = ''json''"
| "field_type_text (Other s) = s"

fun visibility_text :: "CustomFieldVisibility \<Rightarrow> string" where
  "visibility_text Always = ''always''"
| "visibility_text IfSet = ''if_set''"
| "visibility_text Hidden = ''hidden''"

text \<open>The choices of the form's two selects.\<close>

definition CUSTOM_FIELD_TYPE_OPTIONS :: "(CustomFieldType \<times> string) list" where
  "CUSTOM_FIELD_TYPE_OPTIONS =
     [(FText, ''Text''), (FTextLong, ''Text (long)''), (FInteger, ''Integer''), (FDecimal, ''Decimal''),
      (FBoolean, ''Boolean (true/false)''), (FDate, ''Date''), (FDateTime, ''Date & time''), (FUrl, ''URL''),
      (FJson, ''JSON'')]"

definition CUSTOM_FIELD_VISIBILITY_OPTIONS :: "(CustomFieldVisibility \<times> string) list" where
  "CUSTOM_FIELD_VISIBILITY_OPTIONS = [(Always, ''Always''), (IfSet, ''If set''), (Hidden, ''Hidden'')]"

record custom_field =
  field_key :: string
  cf_label :: "string option"
  field_type :: "CustomFieldType option"
  ui_visibility :: "CustomFieldVisibility option"
  validation_regex :: "string option"
  field_description :: "string option"
  cf_required :: "bool option"
  cf_default :: js
  board_ids :: "string list option"

definition own_prop :: "js_record \<Rightarrow> string \<Rightarrow> bool" where
  "own_prop r key \<longleftrightarrow> key \<in> set (map fst r)"

section \<open>Canonical values\<close>

text \<open>
  Keys are sorted on every level, also in the objects of an array, but not in an array
  inside an array.
\<close>

fun isRecordObject :: "js \<Rightarrow> bool" where
  "isRecordObject (Obj ps) = True"
| "isRecordObject _ = False"

lemma member_smaller:
  "(k, v) \<in> set ps \<Longrightarrow> size v < size_list (size_prod (\<lambda>x. 0) size) (ps :: (string \<times> js) list)"
  by (induction ps) auto

lemma item_smaller: "x \<in> set xs \<Longrightarrow> (k, Arr xs) \<in> set (ps :: (string \<times> js) list) \<Longrightarrow> size x < size_list (size_prod (\<lambda>x. 0) size) ps"
  using member_smaller [of k "Arr xs" ps] size_list_estimation' [of x xs "size x" size] by simp

function normalizeCustomFieldValues :: "(string \<Rightarrow> string \<Rightarrow> int) \<Rightarrow> js \<Rightarrow> js_record" where
  "normalizeCustomFieldValues loc value =
     (case value of
        Obj entries \<Rightarrow>
          foldl (\<lambda>acc (key, rawValue).
              map_set key
                (case rawValue of
                   Obj ps \<Rightarrow> Obj (normalizeCustomFieldValues loc rawValue)
                 | Arr xs \<Rightarrow>
                     Arr (map (\<lambda>item. case item of Obj ps \<Rightarrow> Obj (normalizeCustomFieldValues loc item) | _ \<Rightarrow> item) xs)
                 | _ \<Rightarrow> rawValue)
                acc)
            [] (js_sort (cmp_on loc fst) entries)
      | _ \<Rightarrow> [])"
  by pat_completeness auto
termination
  by (relation "measure (size \<circ> snd)") (auto dest: member_smaller item_smaller)

declare normalizeCustomFieldValues.simps [simp del]

definition canonicalizeCustomFieldValues :: "(string \<Rightarrow> string \<Rightarrow> int) \<Rightarrow> js \<Rightarrow> string" where
  "canonicalizeCustomFieldValues loc v =
     coalesce (json_stringify (Obj (normalizeCustomFieldValues loc v))) ''undefined''"

text \<open>
  \<open>JSON.stringify\<close> does not throw on these values, so the handlers that catch and return
  \<open>String(value)\<close> are not reached.
\<close>

definition customFieldInputText :: "js \<Rightarrow> string" where
  "customFieldInputText v =
     (if nullish v then []
      else case v of Str s \<Rightarrow> s | _ \<Rightarrow> coalesce (json_stringify v) ''undefined'')"

section \<open>Visibility\<close>

definition isCustomFieldValueSet :: "js \<Rightarrow> bool" where
  "isCustomFieldValueSet v =
     (if nullish v then False
      else case v of Str s \<Rightarrow> trim s \<noteq> [] | Arr xs \<Rightarrow> xs \<noteq> [] | Obj ps \<Rightarrow> ps \<noteq> [] | _ \<Rightarrow> True)"

definition isCustomFieldVisible :: "custom_field \<Rightarrow> js \<Rightarrow> bool" where
  "isCustomFieldVisible d v =
     (if ui_visibility d = Some Hidden then False
      else if ui_visibility d = Some IfSet then isCustomFieldValueSet v else True)"

section \<open>Parsing what is typed\<close>

fun is_object :: "js \<Rightarrow> bool" where
  "is_object (Arr xs) = True"
| "is_object (Obj ps) = True"
| "is_object _ = False"

definition parseCustomFieldInputValue :: "custom_field \<Rightarrow> string \<Rightarrow> js" where
  "parseCustomFieldInputValue d text_typed =
     (let trimmed = trim text_typed
      in if trimmed = [] then Null
         else if field_type d = Some FText \<or> field_type d = Some FTextLong then Str trimmed
         else if field_type d = Some FInteger
         then (if \<not> INTEGER_RE trimmed then Str trimmed else Num (parse_int trimmed))
         else if field_type d = Some FDecimal
         then (if \<not> DECIMAL_RE trimmed then Str trimmed else Num (parse_float trimmed))
         else if field_type d = Some FBoolean
         then (if to_lower trimmed = ''true'' then Bool True
               else if to_lower trimmed = ''false'' then Bool False else Str trimmed)
         else if field_type d = Some FDate \<or> field_type d = Some FDateTime \<or> field_type d = Some FUrl
         then Str trimmed
         else if field_type d = Some FJson
         then (case json_parse trimmed of
                 None \<Rightarrow> Str trimmed
               | Some parsed \<Rightarrow> if \<not> is_object parsed then Str trimmed else parsed)
         else coalesce (json_parse trimmed) (Str trimmed))"

section \<open>Values of a task\<close>

definition boardCustomFieldValues :: "(string \<Rightarrow> string \<Rightarrow> int) \<Rightarrow> custom_field list \<Rightarrow> js \<Rightarrow> js_record" where
  "boardCustomFieldValues loc definitions v =
     (let source = normalizeCustomFieldValues loc v
      in foldl (\<lambda>acc d.
            if own_prop source (field_key d) then map_set (field_key d) (get_prop source (field_key d)) acc
            else map_set (field_key d) (js_coalesce (cf_default d) Null) acc)
          [] definitions)"

definition customFieldPayload :: "custom_field list \<Rightarrow> js_record \<Rightarrow> js_record" where
  "customFieldPayload definitions values =
     foldl (\<lambda>acc d.
         map_set (field_key d)
           (if own_prop values (field_key d) \<and> get_prop values (field_key d) \<noteq> Undefined
            then get_prop values (field_key d) else Null) acc)
       [] definitions"

definition canonicalizeCustomFieldValue :: "(string \<Rightarrow> string \<Rightarrow> int) \<Rightarrow> js \<Rightarrow> string" where
  "canonicalizeCustomFieldValue loc v =
     (if v = Undefined then ''__undefined__'' else if v = Null then ''__null__''
      else if isRecordObject v
      then coalesce (json_stringify (Obj (normalizeCustomFieldValues loc v))) ''undefined''
      else coalesce (json_stringify v) ''undefined'')"

definition own_or_null :: "js_record \<Rightarrow> string \<Rightarrow> js" where
  "own_or_null r key = (if own_prop r key then get_prop r key else Null)"

definition same_custom_value :: "(string \<Rightarrow> string \<Rightarrow> int) \<Rightarrow> js_record \<Rightarrow> js_record \<Rightarrow> string \<Rightarrow> bool" where
  "same_custom_value loc current next_values key =
     (canonicalizeCustomFieldValue loc (own_or_null current key)
      = canonicalizeCustomFieldValue loc (own_or_null next_values key))"

definition customFieldPatchPayload ::
  "(string \<Rightarrow> string \<Rightarrow> int) \<Rightarrow> custom_field list \<Rightarrow> js_record \<Rightarrow> js_record \<Rightarrow> js_record" where
  "customFieldPatchPayload loc definitions currentValues nextValues =
     foldl (\<lambda>acc d.
         if same_custom_value loc currentValues nextValues (field_key d) then acc
         else map_set (field_key d) (js_coalesce (own_or_null nextValues (field_key d)) Null) acc)
       [] definitions"

definition field_label :: "custom_field \<Rightarrow> string" where
  "field_label d = (case cf_label d of Some l \<Rightarrow> if l \<noteq> [] then l else field_key d | None \<Rightarrow> field_key d)"

fun firstMissingRequiredCustomField :: "custom_field list \<Rightarrow> js_record \<Rightarrow> string option" where
  "firstMissingRequiredCustomField [] values = None"
| "firstMissingRequiredCustomField (d # ds) values =
     (if cf_required d \<noteq> Some True then firstMissingRequiredCustomField ds values
      else if \<not> nullish (get_prop values (field_key d)) then firstMissingRequiredCustomField ds values
      else Some (field_label d))"

text \<open>The fields of a board in the order it shows them.\<close>

definition boardCustomFieldDefinitions ::
  "(string \<Rightarrow> string \<Rightarrow> int) \<Rightarrow> string \<Rightarrow> custom_field list \<Rightarrow> custom_field list" where
  "boardCustomFieldDefinitions loc boardId definitions =
     js_sort (cmp_on loc field_label)
       (filter (\<lambda>d. boardId \<in> set (coalesce (board_ids d) [])) definitions)"

section \<open>Values in the task's details\<close>

text \<open>
  What \<open>formatCustomFieldDetailValue\<close> renders: text, a link, a JSON block or a paragraph.
  The formats of the browser's locale (\<open>toLocaleString\<close>, \<open>toLocaleDateString\<close>) are a
  record of functions, \<open>new URL(s).toString()\<close> is \<open>parse_url\<close>.
\<close>

datatype detail_node = PlainNode string | UrlLink string | JsonBlock string | Paragraph string

record locale_format =
  lf_number :: "rat \<Rightarrow> string"
  lf_date :: "int \<Rightarrow> string"
  lf_datetime :: "int \<Rightarrow> string"

definition text_or_dash :: "string \<Rightarrow> detail_node" where
  "text_or_dash t = PlainNode (if t \<noteq> [] then t else DASH)"

text \<open>\<open>Number(s)\<close> on a trimmed string that is not empty, without the hexadecimal forms.\<close>

definition number_of_text :: "string \<Rightarrow> jsnum" where
  "number_of_text s =
     (let neg = starts_with s ''-'';
          body = (if neg \<or> starts_with s ''+'' then tl s else s);
          rest = dropWhile is_digit body;
          frac = (if starts_with rest ''.'' then dropWhile is_digit (tl rest) else rest);
          expo = (if starts_with frac ''e'' \<or> starts_with frac ''E'' then tl frac else []);
          digits = (if starts_with expo ''-'' \<or> starts_with expo ''+'' then tl expo else expo)
      in if body = ''Infinity'' then (if neg then NegInf else PosInf)
         else if frac \<noteq> [] \<and> \<not> all_digits digits then NaN
         else case parse_unsigned body of None \<Rightarrow> NaN | Some q \<Rightarrow> to_number (if neg then - q else q))"

definition formatDateOnlyValue :: "(int \<Rightarrow> int) \<Rightarrow> (int \<Rightarrow> int) \<Rightarrow> locale_format \<Rightarrow> string \<Rightarrow> string" where
  "formatDateOnlyValue tz lt fmt v =
     (let trimmed = trim v;
          fallback = (case date_parse tz trimmed of None \<Rightarrow> trimmed | Some t \<Rightarrow> lf_date fmt t)
      in case date_groups trimmed of
           None \<Rightarrow> fallback
         | Some (year, month, day) \<Rightarrow>
             (let parsed = tz (local_midnight year (month - 1) day)
              in if civil_from_days (lt parsed div ms_per_day) = (year, month, day)
                 then lf_date fmt parsed else fallback))"

definition formatDateTimeValue :: "(int \<Rightarrow> int) \<Rightarrow> locale_format \<Rightarrow> string \<Rightarrow> string" where
  "formatDateTimeValue tz fmt v =
     (case or_else (parseApiDatetime tz (Some v)) (date_parse tz v) of
        None \<Rightarrow> v | Some t \<Rightarrow> lf_datetime fmt t)"

definition formatCustomFieldDetailValue ::
  "(int \<Rightarrow> int) \<Rightarrow> (int \<Rightarrow> int) \<Rightarrow> locale_format \<Rightarrow> (string \<Rightarrow> string option) \<Rightarrow> custom_field \<Rightarrow> js \<Rightarrow> detail_node" where
  "formatCustomFieldDetailValue tz lt fmt parse_url d v =
     (let fieldType = coalesce (field_type d) FText; plain = text_or_dash (customFieldInputText v)
      in if nullish v then PlainNode DASH
         else if fieldType = FBoolean then
           (case v of
              Bool b \<Rightarrow> PlainNode (if b then ''True'' else ''False'')
            | Str s \<Rightarrow> (if to_lower (trim s) = ''true'' then PlainNode ''True''
                       else if to_lower (trim s) = ''false'' then PlainNode ''False'' else plain)
            | _ \<Rightarrow> plain)
         else if fieldType = FInteger \<or> fieldType = FDecimal then
           (case v of
              Num (Fin q) \<Rightarrow> PlainNode (lf_number fmt q)
            | Str s \<Rightarrow>
                (if trim s = [] then PlainNode DASH
                 else case number_of_text (trim s) of Fin q \<Rightarrow> PlainNode (lf_number fmt q) | _ \<Rightarrow> PlainNode (trim s))
            | _ \<Rightarrow> plain)
         else if fieldType = FDate then
           (case v of Str s \<Rightarrow> if trim s = [] then PlainNode DASH else PlainNode (formatDateOnlyValue tz lt fmt s)
            | _ \<Rightarrow> plain)
         else if fieldType = FDateTime then
           (case v of Str s \<Rightarrow> if trim s = [] then PlainNode DASH else PlainNode (formatDateTimeValue tz fmt s)
            | _ \<Rightarrow> plain)
         else if fieldType = FUrl then
           (case v of
              Str s \<Rightarrow>
                (if trim s = [] then PlainNode DASH
                 else case parse_url (trim s) of Some href \<Rightarrow> UrlLink href | None \<Rightarrow> PlainNode (trim s))
            | _ \<Rightarrow> plain)
         else if fieldType = FJson then
           (case (case v of Str s \<Rightarrow> json_parse s | _ \<Rightarrow> Some v) of
              None \<Rightarrow> plain
            | Some normalized \<Rightarrow> JsonBlock (coalesce (json_pretty normalized) []))
         else if fieldType = FTextLong then
           (if customFieldInputText v \<noteq> [] then Paragraph (customFieldInputText v) else PlainNode DASH)
         else plain)"

section \<open>The editor of a task's fields\<close>

text \<open>
  What \<open>TaskCustomFieldsEditor\<close> shows and does: a choice for booleans, a text area or an
  input for the rest; a change of a control puts the parsed value under the key of the field.
\<close>

datatype editor_control =
    BooleanChoice string
  | TextArea string nat
  | InputBox string string

definition field_control :: "custom_field \<Rightarrow> js \<Rightarrow> editor_control" where
  "field_control d v =
     (if field_type d = Some FBoolean
      then BooleanChoice (if v = Bool True then ''true'' else if v = Bool False then ''false'' else ''unset'')
      else if field_type d = Some FTextLong \<or> field_type d = Some FJson
      then TextArea (customFieldInputText v) (if field_type d = Some FTextLong then 3 else 4)
      else InputBox
        (if field_type d = Some FInteger \<or> field_type d = Some FDecimal then ''number''
         else if field_type d = Some FDate then ''date''
         else if field_type d = Some FDateTime then ''datetime-local''
         else if field_type d = Some FUrl then ''url'' else ''text'')
        (customFieldInputText v))"

definition field_placeholder :: "custom_field \<Rightarrow> string" where
  "field_placeholder d =
     (if \<not> nullish (cf_default d) then ''Default: '' @ customFieldInputText (cf_default d) else ''Optional'')"

definition editor_rows :: "custom_field list \<Rightarrow> js_record \<Rightarrow> (custom_field \<times> editor_control) list" where
  "editor_rows definitions values =
     map (\<lambda>d. (d, field_control d (get_prop values (field_key d))))
       (filter (\<lambda>d. isCustomFieldVisible d (get_prop values (field_key d))) definitions)"

definition edited_value :: "custom_field \<Rightarrow> string \<Rightarrow> js" where
  "edited_value d typed =
     (if field_type d = Some FBoolean
      then (if typed = ''unset'' then Null else Bool (typed = ''true''))
      else parseCustomFieldInputValue d typed)"

definition edit_field :: "custom_field \<Rightarrow> string \<Rightarrow> js_record \<Rightarrow> js_record" where
  "edit_field d typed values = with_prop (field_key d) (edited_value d typed) values"

text \<open>The text a control shows, as the argument of its next change.\<close>

fun control_text :: "editor_control \<Rightarrow> string" where
  "control_text (BooleanChoice t) = t"
| "control_text (TextArea t n) = t"
| "control_text (InputBox k t) = t"

section \<open>Default values\<close>

text \<open>The result \<open>{ value, error }\<close> is a sum; the error is \<open>Inl\<close>.\<close>

definition INTEGER_ERROR :: string where "INTEGER_ERROR = ''Default value must be a valid integer.''"
definition DECIMAL_ERROR :: string where "DECIMAL_ERROR = ''Default value must be a valid decimal.''"
definition BOOLEAN_ERROR :: string where "BOOLEAN_ERROR = ''Default value must be true or false.''"
definition JSON_ERROR :: string where "JSON_ERROR = ''Default value must be valid JSON (object or array).''"

definition parseCustomFieldDefaultValue :: "CustomFieldType \<Rightarrow> string \<Rightarrow> string + js" where
  "parseCustomFieldDefaultValue fieldType v =
     (let trimmed = trim v
      in if trimmed = [] then Inr Null
         else if fieldType = FText \<or> fieldType = FTextLong then Inr (Str trimmed)
         else if fieldType = FInteger
         then (if \<not> INTEGER_RE trimmed then Inl INTEGER_ERROR else Inr (Num (parse_int trimmed)))
         else if fieldType = FDecimal
         then (if \<not> DECIMAL_RE trimmed then Inl DECIMAL_ERROR else Inr (Num (parse_float trimmed)))
         else if fieldType = FBoolean
         then (if to_lower trimmed = ''true'' then Inr (Bool True)
               else if to_lower trimmed = ''false'' then Inr (Bool False) else Inl BOOLEAN_ERROR)
         else if fieldType = FDate \<or> fieldType = FDateTime \<or> fieldType = FUrl then Inr (Str trimmed)
         else if fieldType = FJson
         then (case json_parse trimmed of
                 None \<Rightarrow> Inl JSON_ERROR
               | Some parsed \<Rightarrow> if \<not> is_object parsed then Inl JSON_ERROR else Inr parsed)
         else Inr (coalesce (json_parse trimmed) (Str trimmed)))"

definition formatCustomFieldDefaultValue :: "bool \<Rightarrow> js \<Rightarrow> string" where
  "formatCustomFieldDefaultValue pretty v =
     (if nullish v then []
      else case v of
             Str s \<Rightarrow> s
           | _ \<Rightarrow> coalesce (if pretty then json_pretty v else json_stringify v) ''undefined'')"

section \<open>The form of a field\<close>

record CustomFieldFormState =
  fs_fieldKey :: string
  fs_label :: string
  fs_fieldType :: CustomFieldType
  fs_uiVisibility :: CustomFieldVisibility
  fs_validationRegex :: string
  fs_description :: string
  fs_required :: bool
  fs_defaultValue :: string

definition DEFAULT_CUSTOM_FIELD_FORM_STATE :: CustomFieldFormState where
  "DEFAULT_CUSTOM_FIELD_FORM_STATE =
     \<lparr>fs_fieldKey = [], fs_label = [], fs_fieldType = FText, fs_uiVisibility = Always,
      fs_validationRegex = [], fs_description = [], fs_required = False, fs_defaultValue = []\<rparr>"

record NormalizedCustomFieldFormValues =
  nv_fieldKey :: string
  nv_label :: string
  nv_fieldType :: CustomFieldType
  nv_uiVisibility :: CustomFieldVisibility
  nv_validationRegex :: "string option"
  nv_description :: "string option"
  nv_required :: bool
  nv_defaultValue :: js
  nv_boardIds :: "string list"

definition STRING_VALIDATION_FIELD_TYPES :: "CustomFieldType list" where
  "STRING_VALIDATION_FIELD_TYPES = [FText, FTextLong, FDate, FDateTime, FUrl]"

datatype CustomFieldFormMode = CreateMode | EditMode

definition normalizeCustomFieldFormInput ::
  "CustomFieldFormMode \<Rightarrow> CustomFieldFormState \<Rightarrow> string list \<Rightarrow> string + NormalizedCustomFieldFormValues" where
  "normalizeCustomFieldFormInput form_mode st boardIds =
     (let trimmedFieldKey = trim (fs_fieldKey st); trimmedLabel = trim (fs_label st);
          trimmedValidationRegex = trim (fs_validationRegex st)
      in if form_mode = CreateMode \<and> trimmedFieldKey = [] then Inl ''Field key is required.''
         else if trimmedLabel = [] then Inl ''Label is required.''
         else if boardIds = [] then Inl ''Select at least one board.''
         else if trimmedValidationRegex \<noteq> [] \<and> fs_fieldType st \<notin> set STRING_VALIDATION_FIELD_TYPES
         then Inl ''Validation regex is only supported for string field types.''
         else case parseCustomFieldDefaultValue (fs_fieldType st) (fs_defaultValue st) of
                Inl err \<Rightarrow> Inl err
              | Inr defaultValue \<Rightarrow>
                  Inr \<lparr>nv_fieldKey = trimmedFieldKey, nv_label = trimmedLabel, nv_fieldType = fs_fieldType st,
                       nv_uiVisibility = fs_uiVisibility st,
                       nv_validationRegex = truthy_str trimmedValidationRegex,
                       nv_description = truthy_str (trim (fs_description st)), nv_required = fs_required st,
                       nv_defaultValue = defaultValue, nv_boardIds = boardIds\<rparr>)"

fun opt_str :: "string option \<Rightarrow> js" where
  "opt_str None = Null"
| "opt_str (Some s) = Str s"

definition createCustomFieldPayload :: "NormalizedCustomFieldFormValues \<Rightarrow> js_record" where
  "createCustomFieldPayload values =
     [(''field_key'', Str (nv_fieldKey values)), (''label'', Str (nv_label values)),
      (''field_type'', Str (field_type_text (nv_fieldType values))),
      (''ui_visibility'', Str (visibility_text (nv_uiVisibility values))),
      (''validation_regex'', opt_str (nv_validationRegex values)),
      (''description'', opt_str (nv_description values)), (''required'', Bool (nv_required values)),
      (''default_value'', nv_defaultValue values), (''board_ids'', Arr (map Str (nv_boardIds values)))]"

definition canonicalJson :: "js \<Rightarrow> string" where
  "canonicalJson v = coalesce (json_stringify v) ''undefined''"

definition areSortedStringArraysEqual :: "string list \<Rightarrow> string list \<Rightarrow> bool" where
  "areSortedStringArraysEqual left right \<longleftrightarrow>
     length left = length right \<and> list_all (\<lambda>(v, w). v = w) (zip left right)"

text \<open>\<open>Array.prototype.sort\<close> without a comparator, by code units.\<close>

fun string_cmp :: "string \<Rightarrow> string \<Rightarrow> int" where
  "string_cmp [] [] = 0"
| "string_cmp [] (d # ds) = - 1"
| "string_cmp (c # cs) [] = 1"
| "string_cmp (c # cs) (d # ds) =
     (if c = d then string_cmp cs ds else int (char_code c) - int (char_code d))"

definition buildCustomFieldUpdatePayload :: "custom_field \<Rightarrow> NormalizedCustomFieldFormValues \<Rightarrow> js_record" where
  "buildCustomFieldUpdatePayload field values =
     (if nv_label values \<noteq> coalesce (cf_label field) (field_key field)
      then [(''label'', Str (nv_label values))] else [])
     @ (if nv_fieldType values \<noteq> coalesce (field_type field) FText
        then [(''field_type'', Str (field_type_text (nv_fieldType values)))] else [])
     @ (if nv_uiVisibility values \<noteq> coalesce (ui_visibility field) Always
        then [(''ui_visibility'', Str (visibility_text (nv_uiVisibility values)))] else [])
     @ (if nv_validationRegex values \<noteq> validation_regex field
        then [(''validation_regex'', opt_str (nv_validationRegex values))] else [])
     @ (if nv_description values \<noteq> field_description field
        then [(''description'', opt_str (nv_description values))] else [])
     @ (if nv_required values \<noteq> (cf_required field = Some True)
        then [(''required'', Bool (nv_required values))] else [])
     @ (if canonicalJson (nv_defaultValue values) \<noteq> canonicalJson (cf_default field)
        then [(''default_value'', nv_defaultValue values)] else [])
     @ (if \<not> areSortedStringArraysEqual (js_sort string_cmp (coalesce (board_ids field) []))
               (js_sort string_cmp (nv_boardIds values))
        then [(''board_ids'', Arr (map Str (nv_boardIds values)))] else [])"

definition deriveFormStateFromCustomField :: "custom_field \<Rightarrow> CustomFieldFormState" where
  "deriveFormStateFromCustomField field =
     \<lparr>fs_fieldKey = field_key field, fs_label = coalesce (cf_label field) (field_key field),
      fs_fieldType = coalesce (field_type field) FText,
      fs_uiVisibility = coalesce (ui_visibility field) Always,
      fs_validationRegex = coalesce (validation_regex field) [],
      fs_description = coalesce (field_description field) [],
      fs_required = (cf_required field = Some True),
      fs_defaultValue = formatCustomFieldDefaultValue True (cf_default field)\<rparr>"

record board_option =
  bo_id :: string
  bo_name :: string
  bo_slug :: string

definition filterBoardsBySearch :: "board_option list \<Rightarrow> string \<Rightarrow> board_option list" where
  "filterBoardsBySearch boards query =
     (let normalizedQuery = to_lower (trim query)
      in if normalizedQuery = [] then boards
         else filter (\<lambda>b. str_includes (to_lower (bo_name b)) normalizedQuery
                          \<or> str_includes (to_lower (bo_slug b)) normalizedQuery) boards)"

text \<open>A click on a board's checkbox.\<close>

definition toggle_board :: "string \<Rightarrow> string list \<Rightarrow> string list" where
  "toggle_board i selected = (if i \<in> set selected then filter (\<lambda>j. j \<noteq> i) selected else selected @ [i])"

text \<open>
  The submit handlers of the form and of the page that edits a field: the request that is
  sent, or the text of the error that is shown.
\<close>

definition edit_submission :: "custom_field \<Rightarrow> CustomFieldFormState \<Rightarrow> string list \<Rightarrow> string + js_record" where
  "edit_submission field st boardIds =
     (case normalizeCustomFieldFormInput EditMode st boardIds of
        Inl err \<Rightarrow> Inl err
      | Inr values \<Rightarrow>
          (let updates = buildCustomFieldUpdatePayload field values
           in if updates = [] then Inl ''No changes were made.'' else Inr updates))"

definition create_submission :: "CustomFieldFormState \<Rightarrow> string list \<Rightarrow> string + js_record" where
  "create_submission st boardIds =
     (case normalizeCustomFieldFormInput CreateMode st boardIds of
        Inl err \<Rightarrow> Inl err
      | Inr values \<Rightarrow> Inr (createCustomFieldPayload values))"

definition sample_field :: "CustomFieldType \<Rightarrow> js \<Rightarrow> custom_field" where
  "sample_field ft v =
     \<lparr>field_key = ''k'', cf_label = None, field_type = Some ft, ui_visibility = None, validation_regex = None,
      field_description = None, cf_required = Some True, cf_default = v, board_ids = Some [''b'']\<rparr>"

lemma sample_simps [simp]:
  "field_key (sample_field ft v) = ''k''" "field_type (sample_field ft v) = Some ft"
  "cf_default (sample_field ft v) = v" "cf_required (sample_field ft v) = Some True"
  "board_ids (sample_field ft v) = Some [''b'']" "cf_label (sample_field ft v) = None"
  "validation_regex (sample_field ft v) = None" "field_description (sample_field ft v) = None"
  by (simp_all add: sample_field_def)

section \<open>Types of values\<close>

text \<open>The kind of value an input holds for a field of a type; the backend's check is further below.\<close>

fun named_type :: "CustomFieldType \<Rightarrow> bool" where
  "named_type (Other s) = False"
| "named_type _ = True"

fun has_field_type :: "CustomFieldType \<Rightarrow> js \<Rightarrow> bool" where
  "has_field_type FInteger v =
     (case v of Num (Fin q) \<Rightarrow> q = of_int \<lfloor>q\<rfloor> | Num PosInf \<Rightarrow> True | Num NegInf \<Rightarrow> True | _ \<Rightarrow> False)"
| "has_field_type FDecimal v = (case v of Num n \<Rightarrow> n \<noteq> NaN | _ \<Rightarrow> False)"
| "has_field_type FBoolean v = (case v of Bool b \<Rightarrow> True | _ \<Rightarrow> False)"
| "has_field_type FJson v = is_object v"
| "has_field_type (Other t) v = True"
| "has_field_type _ v = (case v of Str s \<Rightarrow> s \<noteq> [] \<and> trim s = s | _ \<Rightarrow> False)"

text \<open>
  Values whose text is exact: at most 17 decimals and not so small that the text has an
  exponent; for objects and arrays, those \<open>JSON.parse\<close> reads back.
\<close>

fun text_exact :: "js \<Rightarrow> bool" where
  "text_exact (Num n) =
     (case n of Fin q \<Rightarrow> decimals 17 q \<and> \<bar>q\<bar> \<le> 10 ^ 20 \<and> (q = 0 \<or> 1 / 10 ^ 6 \<le> \<bar>q\<bar>) | _ \<Rightarrow> False)"
| "text_exact (Arr xs) = json_ok (Arr xs)"
| "text_exact (Obj ps) = json_ok (Obj ps)"
| "text_exact _ = True"

lemma bracketed_ends:
  "\<exists>m. bracketed gap indent l items r = l # m @ [r]"
  by (auto simp: bracketed_def)

lemma bracket_plain: "plain_char (CHR ''['')" "plain_char (CHR '']'')" "plain_char (CHR ''{'')" "plain_char (CHR ''}'')"
  by code_simp+

lemma json_object_text:
  assumes "is_object v" and "json_text gap [] v = Some t"
  shows "trim t = t" and "t \<noteq> []"
proof -
  obtain l m r where "t = l # m @ [r]" "plain_char l" "plain_char r"
    using assms bracketed_ends bracket_plain by (cases v) (simp_all, metis+)
  then show "trim t = t" and "t \<noteq> []" by (simp_all add: trim_plain)
qed

text \<open>Both texts a value is shown as, one line and indented.\<close>

lemma object_text_parsed:
  assumes "is_object v" and "text_exact v"
  shows "\<exists>t. json_text gap [] v = Some t \<and> trim t = t \<and> t \<noteq> [] \<and> (blank gap \<longrightarrow> json_parse t = Some v)"
proof -
  have ok: "json_ok v" using assms by (cases v) simp_all
  then obtain t where t: "json_text gap [] v = Some t" using json_ok_text [of v gap "[]"] by auto
  from json_object_text [OF assms(1) t] json_parse_text [OF t _ ok] t show ?thesis by blast
qed

lemma bool_texts: "trim ''true'' = ''true''" "trim ''false'' = ''false''"
  "to_lower ''true'' = ''true''" "to_lower ''false'' = ''false''"
  by (rule trim_plain; code_simp)+ code_simp+

lemma json_gap_blank: "blank (if pretty then ''  '' else [])"
  by (simp add: json_space_def)

lemma formatted_text:
  "formatCustomFieldDefaultValue pretty v =
     (if nullish v then []
      else case v of Str s \<Rightarrow> s | _ \<Rightarrow> coalesce (json_text (if pretty then ''  '' else []) [] v) ''undefined'')"
  by (cases v) (simp_all add: formatCustomFieldDefaultValue_def json_pretty_def json_stringify_def)

lemma input_text: "customFieldInputText v = formatCustomFieldDefaultValue False v"
  by (simp add: customFieldInputText_def formatCustomFieldDefaultValue_def)

lemma typed_number_text:
  assumes "text_exact (Num n)"
  obtains q where "n = Fin q" "formatCustomFieldDefaultValue pretty (Num n) = show_rat q" "decimals 17 q" "\<bar>q\<bar> \<le> 10 ^ 20"
  using assms by (cases n) (auto simp: formatted_text nullish_def)

lemma number_text_nonempty: "decimals 17 q \<Longrightarrow> show_rat q \<noteq> []"
  by (auto elim!: show_rat_parts)

lemma default_text_round_trip:
  assumes "named_type ft" and "has_field_type ft v" and "text_exact v"
  shows "parseCustomFieldDefaultValue ft (formatCustomFieldDefaultValue pretty v) = Inr v"
proof -
  consider (string) s where "v = Str s" "ft \<in> {FText, FTextLong, FDate, FDateTime, FUrl}"
    | (integer) n where "v = Num n" "ft = FInteger" | (decimal) n where "v = Num n" "ft = FDecimal"
    | (bool) b where "v = Bool b" "ft = FBoolean" | (json) "is_object v" "ft = FJson"
    using assms(1,2) by (cases ft; cases v) auto
  then show ?thesis
  proof cases
    case string
    with assms(2) have "s \<noteq> []" "trim s = s" by auto
    with string show ?thesis
      by (auto simp: parseCustomFieldDefaultValue_def formatCustomFieldDefaultValue_def nullish_def)
  next
    case integer
    obtain q where q: "n = Fin q" "formatCustomFieldDefaultValue pretty (Num n) = show_rat q"
      "decimals 17 q" "\<bar>q\<bar> \<le> 10 ^ 20" using assms(3) integer(1) typed_number_text by blast
    with assms(2) integer have int: "q = of_int \<lfloor>q\<rfloor>" by simp
    with q(4) have "\<bar>of_int \<lfloor>q\<rfloor> :: rat\<bar> \<le> of_int (10 ^ 20)" by simp
    then have "\<bar>\<lfloor>q\<rfloor>\<bar> \<le> 10 ^ 20" by linarith
    from parse_int_show [OF this] show_rat_of_int [of "\<lfloor>q\<rfloor>"] int number_text_nonempty [OF q(3)] q integer
    show ?thesis by (simp add: parseCustomFieldDefaultValue_def Let_def)
  next
    case decimal
    obtain q where q: "n = Fin q" "formatCustomFieldDefaultValue pretty (Num n) = show_rat q"
      "decimals 17 q" "\<bar>q\<bar> \<le> 10 ^ 20" using assms(3) decimal(1) typed_number_text by blast
    from parse_float_show [OF q(3,4)] number_text_nonempty [OF q(3)] q decimal
    show ?thesis by (simp add: parseCustomFieldDefaultValue_def Let_def)
  next
    case bool
    then show ?thesis
      by (cases b) (simp_all add: parseCustomFieldDefaultValue_def formatted_text nullish_def bool_texts)
  next
    case json
    from object_text_parsed [OF json(1) assms(3)] json_gap_blank obtain t where
      "json_text (if pretty then ''  '' else []) [] v = Some t" "trim t = t" "t \<noteq> []" "json_parse t = Some v" by metis
    with json show ?thesis
      by (cases v) (auto simp: parseCustomFieldDefaultValue_def formatted_text nullish_def)
  qed
qed

lemma input_parser_default:
  assumes "field_type d = Some ft"
  shows "parseCustomFieldInputValue d typed =
    (case parseCustomFieldDefaultValue ft typed of Inr v \<Rightarrow> v | Inl err \<Rightarrow> Str (trim typed))"
  using assms
  by (simp add: parseCustomFieldInputValue_def parseCustomFieldDefaultValue_def Let_def split: option.split)


lemma sample_decimal: "text_exact (Num (Fin (5 / 2)))" "has_field_type FDecimal (Num (Fin (5 / 2)))"
  by (simp_all add: decimals_def)


text \<open>The text of a number with an exponent is not read back as a number.\<close>

lemma exponent_read_as_text:
  "parseCustomFieldInputValue (sample_field FDecimal Null) ''1e-7'' = Str ''1e-7''"
  "parseCustomFieldInputValue (sample_field FInteger Null) ''1e+21'' = Str ''1e+21''"
  by code_simp+

lemma sign_dropped:
  assumes "\<not> starts_with (unsigned_part t) ''+''"
  shows "(if starts_with t ''-'' \<or> starts_with t ''+'' then tl t else t) = unsigned_part t"
proof (cases "starts_with t ''-''")
  case False
  then have "unsigned_part t = t" by (simp add: unsigned_part_def)
  with assms False show ?thesis by simp
qed (simp add: unsigned_part_def)

lemma integer_text_value:
  assumes "INTEGER_RE t" and "trim t = t"
  shows "\<exists>i :: int. parse_int t = to_number (of_int i)"
proof -
  have start: "trim_start t = t" using assms(2) by (metis trim_start_trim)
  have digits: "list_all is_digit (unsigned_part t)" "unsigned_part t \<noteq> []"
    using assms(1) by (simp_all add: INTEGER_RE_def all_digits_def)
  then have "\<not> starts_with (unsigned_part t) ''+''" using digits_sign [of "unsigned_part t" "[]"] by simp
  then have body: "(if starts_with t ''-'' \<or> starts_with t ''+'' then tl t else t) = unsigned_part t"
    by (rule sign_dropped)
  define i :: int where "i = (if starts_with t ''-'' then - 1 else 1) * int (read_nat (unsigned_part t))"
  have "parse_int t = to_number (of_int i)"
    using digits by (simp add: parse_int_def Let_def start body takeWhile_all i_def)
  then show ?thesis by blast
qed

lemma decimal_text_value:
  assumes "DECIMAL_RE t" and "trim t = t"
  shows "\<exists>q. parse_float t = to_number q"
proof -
  have start: "trim_start t = t" using assms(2) by (metis trim_start_trim)
  define body where "body = unsigned_part t"
  have body: "takeWhile is_digit body \<noteq> []" using assms(1) by (simp add: DECIMAL_RE_def Let_def body_def)
  then obtain c cs where c: "body = c # cs" "is_digit c" by (cases body) (auto split: if_splits)
  then have signs: "\<not> starts_with body ''+''" "\<not> starts_with body ''-''" "\<not> starts_with body ''Infinity''"
    using digits_sign [of "[c]" cs] digits_not_infinity [of "[c]" cs] by simp_all
  have eq: "(if starts_with t ''-'' \<or> starts_with t ''+'' then tl t else t) = body"
    using signs(1) unfolding body_def by (rule sign_dropped)
  moreover obtain q where "parse_unsigned body = Some q" using body by (simp add: parse_unsigned_def Let_def)
  ultimately have "parse_float t = to_number (if starts_with t ''-'' then - q else q)"
    using signs by (simp add: parse_float_def Let_def start eq)
  then show ?thesis by blast
qed

section \<open>The backend's check of a value\<close>

text \<open>
  \<open>validate_custom_field_value\<close> (\<open>backend/app/schemas/task_custom_fields.py\<close>) on a value as it
  arrives in the JSON of a request. The parsers of Python's library are arguments:
  \<open>date.fromisoformat\<close> and \<open>datetime.fromisoformat\<close> (whether they accept a text), \<open>urlparse\<close> (scheme
  and network location, nothing when it raises) and the matching of a regular expression
  (nothing when it does not compile).
\<close>

record python_parsers =
  date_fromisoformat :: "string \<Rightarrow> bool"
  datetime_fromisoformat :: "string \<Rightarrow> bool"
  urlparse :: "string \<Rightarrow> (string \<times> string) option"
  fullmatch :: "string \<Rightarrow> string \<Rightarrow> bool option"

definition parse_iso_datetime :: "python_parsers \<Rightarrow> string \<Rightarrow> bool" where
  "parse_iso_datetime py v =
     (let normalized = py_strip v
      in datetime_fromisoformat py
           (if ends_with normalized ''Z'' then take (length normalized - 1) normalized @ ''+00:00'' else normalized))"

definition http_url :: "python_parsers \<Rightarrow> string \<Rightarrow> bool" where
  "http_url py v =
     (case urlparse py v of None \<Rightarrow> False | Some (scheme, netloc) \<Rightarrow> scheme \<in> {''http'', ''https''} \<and> netloc \<noteq> [])"

text \<open>A number is an \<open>int\<close> in Python when its JSON text has no fraction and no exponent.\<close>

fun python_int :: "js \<Rightarrow> bool" where
  "python_int (Num (Fin q)) = (q = of_int \<lfloor>q\<rfloor> \<and> \<bar>q\<bar> < 10 ^ 21)"
| "python_int _ = False"

definition type_check :: "python_parsers \<Rightarrow> CustomFieldType \<Rightarrow> js \<Rightarrow> string option" where
  "type_check py ft v =
     (let string_value = as_string v
      in if ft = FText \<or> ft = FTextLong then (if string_value = None then Some ''must be a string'' else None)
         else if ft = FInteger then (if \<not> python_int v then Some ''must be an integer'' else None)
         else if ft = FDecimal then (case v of Num n \<Rightarrow> None | _ \<Rightarrow> Some ''must be a decimal number'')
         else if ft = FBoolean then (case v of Bool b \<Rightarrow> None | _ \<Rightarrow> Some ''must be true or false'')
         else if ft = FDate
         then (if \<not> (case string_value of None \<Rightarrow> False | Some s \<Rightarrow> date_fromisoformat py s)
               then Some ''must be an ISO date string (YYYY-MM-DD)'' else None)
         else if ft = FDateTime
         then (if \<not> (case string_value of None \<Rightarrow> False | Some s \<Rightarrow> parse_iso_datetime py s)
               then Some ''must be an ISO datetime string'' else None)
         else if ft = FUrl
         then (case string_value of
                 None \<Rightarrow> Some ''must be a URL string''
               | Some s \<Rightarrow> if \<not> http_url py s then Some ''must be a valid http/https URL'' else None)
         else if ft = FJson then (if \<not> is_object v then Some ''must be a JSON object or array'' else None)
         else None)"

definition regex_check :: "python_parsers \<Rightarrow> CustomFieldType \<Rightarrow> string option \<Rightarrow> js \<Rightarrow> string option" where
  "regex_check py ft regex v =
     (case regex of
        None \<Rightarrow> None
      | Some r \<Rightarrow>
          if ft \<notin> set STRING_VALIDATION_FIELD_TYPES then None
          else case as_string v of
                 None \<Rightarrow> Some ''must be a string for regex validation''
               | Some s \<Rightarrow>
                   (case fullmatch py r s of
                      None \<Rightarrow> Some ''validation_regex is invalid''
                    | Some matches \<Rightarrow> if \<not> matches then Some ''does not match validation_regex'' else None))"

definition validate_custom_field_value :: "python_parsers \<Rightarrow> CustomFieldType \<Rightarrow> js \<Rightarrow> string option \<Rightarrow> string option" where
  "validate_custom_field_value py ft v regex =
     (if v = Null then None else or_else (type_check py ft v) (regex_check py ft regex v))"

text \<open>What a request carries: a number that is not finite is written as \<open>null\<close>.\<close>

definition sent_value :: "js \<Rightarrow> js" where
  "sent_value v = (case v of Num n \<Rightarrow> if is_finite n then v else Null | _ \<Rightarrow> v)"

lemma sent_number: "sent_value (Num (to_number q)) = (if to_number q = Fin q then Num (Fin q) else Null)"
  by (simp add: sent_value_def to_number_def)


lemma sample_default: "parseCustomFieldDefaultValue FInteger ''42'' = Inr (Num (Fin 42))"
proof -
  have "formatCustomFieldDefaultValue False (Num (Fin 42)) = ''42''" by code_simp
  then show ?thesis using default_text_round_trip [of FInteger "Num (Fin 42)" False] by (simp add: decimals_def)
qed

definition refusing_parsers :: python_parsers where
  "refusing_parsers =
     \<lparr>date_fromisoformat = (\<lambda>_. False), datetime_fromisoformat = (\<lambda>_. False), urlparse = (\<lambda>_. None), fullmatch = (\<lambda>_ _. None)\<rparr>"


text \<open>A default that the form accepts and the backend refuses when \<open>foo\<close> is no date to it.\<close>

lemma no_date_accepted:
  "parseCustomFieldDefaultValue FDate ''foo'' = Inr (Str ''foo'')
   \<and> (\<not> date_fromisoformat py ''foo'' \<longrightarrow> validate_custom_field_value py FDate (Str ''foo'') None \<noteq> None)"
proof -
  have "trim ''foo'' = ''foo''" by code_simp
  then have "parseCustomFieldDefaultValue FDate ''foo'' = Inr (Str ''foo'')" by (simp add: parseCustomFieldDefaultValue_def)
  then show ?thesis by (simp add: validate_custom_field_value_def type_check_def Let_def)
qed

text \<open>What a JSON field shows, read back, is the value of the field.\<close>

lemma json_detail_exact:
  assumes "field_type d = Some FJson" and "json_ok v" and "\<not> nullish v" and "as_string v = None"
  shows "\<exists>t. formatCustomFieldDetailValue tz lt fmt parse_url d v = JsonBlock t \<and> json_parse t = Some v"
proof -
  obtain t where t: "json_text ''  '' [] v = Some t" using json_ok_text [OF assms(2), of "''  ''" "[]"] by auto
  have "json_parse t = Some v" by (rule json_parse_text [OF t _ assms(2)]) (simp add: json_space_def)
  moreover have "(case v of Str s \<Rightarrow> json_parse s | _ \<Rightarrow> Some v) = Some v" using assms(4) by (cases v) simp_all
  ultimately show ?thesis using assms(1,3) t by (simp add: formatCustomFieldDetailValue_def json_pretty_def)
qed

text \<open>A valid date is shown as its own day, whatever the time zone.\<close>

lemma date_detail_exact:
  assumes "valid_date y m d" and "100 \<le> y" and "y \<le> 9999" and "regular_day tz lt (make_day y m d)"
  shows "formatDateOnlyValue tz lt fmt (date_text y m d) = lf_date fmt (tz (make_day y m d * ms_per_day))"
  using assms date_text_trimmed [OF assms(1)] date_groups_text [OF assms(1)] local_midnight_valid [OF assms(1,2)]
    date_of_make_day [OF assms(1)]
  by (simp add: formatDateOnlyValue_def regular_day_def Let_def)

section \<open>Canonical form\<close>

text \<open>The value of one entry after normalization.\<close>

definition normal_entry :: "(string \<Rightarrow> string \<Rightarrow> int) \<Rightarrow> js \<Rightarrow> js" where
  "normal_entry loc rawValue =
     (case rawValue of
        Obj ps \<Rightarrow> Obj (normalizeCustomFieldValues loc rawValue)
      | Arr xs \<Rightarrow> Arr (map (\<lambda>item. case item of Obj ps \<Rightarrow> Obj (normalizeCustomFieldValues loc item) | _ \<Rightarrow> item) xs)
      | _ \<Rightarrow> rawValue)"

lemma foldl_map_set_new:
  "distinct (map fst (acc @ ps)) \<Longrightarrow>
   foldl (\<lambda>acc (k, v). map_set k (f v) acc) acc ps = acc @ map (\<lambda>(k, v). (k, f v)) ps"
proof (induction ps arbitrary: acc)
  case (Cons p ps)
  obtain k v where p: "p = (k, v)" by (cases p)
  have "map_set k (f v) acc = acc @ [(k, f v)]" using Cons.prems p by (intro map_set_new) auto
  with Cons.IH [of "acc @ [(k, f v)]"] Cons.prems p show ?case by simp
qed simp

lemma normalize_entries:
  "distinct (map fst ps) \<Longrightarrow>
   normalizeCustomFieldValues loc (Obj ps) = map (\<lambda>(k, v). (k, normal_entry loc v)) (js_sort (cmp_on loc fst) ps)"
  using foldl_map_set_new [of "[]" "js_sort (cmp_on loc fst) ps" "normal_entry loc"]
  by (simp add: normalizeCustomFieldValues.simps [of loc "Obj ps"] normal_entry_def)

lemma normalize_other: "\<not> isRecordObject v \<Longrightarrow> normalizeCustomFieldValues loc v = []"
  by (cases v) (simp_all add: normalizeCustomFieldValues.simps)

lemma fst_entries: "map fst (map (\<lambda>(k, v). (k, f v)) ps) = map fst ps"
  by (induction ps) auto

lemma insert_by_map:
  "(\<And>x y. cmp (g x) (g y) = cmp' x y) \<Longrightarrow> insert_by cmp (g x) (map g ys) = map g (insert_by cmp' x ys)"
  by (induction ys) auto

lemma js_sort_map: "(\<And>x y. cmp (g x) (g y) = cmp' x y) \<Longrightarrow> js_sort cmp (map g xs) = map g (js_sort cmp' xs)"
  by (induction xs) (auto simp: insert_by_map)

lemma normal_ok:
  "(isRecordObject v \<longrightarrow> json_ok v \<longrightarrow> json_ok (Obj (normalizeCustomFieldValues loc v))) \<and> (json_ok v \<longrightarrow> json_ok (normal_entry loc v))"
proof (induction "size v" arbitrary: v rule: less_induct)
  case less
  have obj: "json_ok (Obj (normalizeCustomFieldValues loc v))" if "isRecordObject v" "json_ok v"
  proof -
    obtain ps where v: "v = Obj ps" using \<open>isRecordObject v\<close> by (cases v) auto
    have ok: "json_ok (normal_entry loc w)" if "(k, w) \<in> set ps" for k w
      using less [of w] member_smaller [OF that] that \<open>json_ok v\<close> v by fastforce
    have dist: "distinct (map fst ps)" using \<open>json_ok v\<close> v by simp
    then show ?thesis unfolding v normalize_entries [OF dist]
      by (auto simp: fst_entries simp del: map_map intro: ok)
  qed
  moreover have "json_ok (normal_entry loc v)" if "json_ok v"
  proof (cases v)
    case (Arr xs)
    have "json_ok (Obj (normalizeCustomFieldValues loc item))" if "item \<in> set xs" "isRecordObject item" for item
      using less [of item] that \<open>json_ok v\<close> Arr size_list_estimation' [of item xs "size item" size] by auto
    with Arr \<open>json_ok v\<close> show ?thesis by (fastforce simp: normal_entry_def split: js.split)
  qed (use that obj in \<open>auto simp: normal_entry_def\<close>)
  ultimately show ?case by blast
qed

lemma normal_object_ok: "json_ok (Obj ps) \<Longrightarrow> json_ok (Obj (normalizeCustomFieldValues loc (Obj ps)))"
  by (rule normal_ok [THEN conjunct1, rule_format]) (rule isRecordObject.simps [THEN iffD2], rule TrueI)

lemma sorted_wrt_unique:
  assumes "sorted_wrt R xs" and "sorted_wrt R ys" and "mset xs = mset ys"
    and "\<And>x y. x \<in> set xs \<Longrightarrow> y \<in> set xs \<Longrightarrow> R x y \<Longrightarrow> R y x \<Longrightarrow> x = y"
  shows "xs = ys"
  using assms
proof (induction xs arbitrary: ys)
  case (Cons x xs)
  then obtain y ys' where ys: "ys = y # ys'" by (cases ys) auto
  have sets: "set (x # xs) = set (y # ys')" using Cons.prems(3) ys by (metis mset_eq_setD)
  have "x = y"
  proof (rule ccontr)
    assume "x \<noteq> y"
    with sets have "x \<in> set ys'" "y \<in> set xs" by auto
    with Cons.prems(1,2) ys have "R x y" "R y x" by auto
    with Cons.prems(4) [of x y] \<open>y \<in> set xs\<close> \<open>x \<noteq> y\<close> show False by simp
  qed
  with Cons.prems ys Cons.IH [of ys'] show ?case by simp
qed simp

text \<open>
  A comparator that tells all strings apart, so that the order of the keys of an object
  does not matter.
\<close>

locale collation = consistent_comparator loc
  for loc :: "string \<Rightarrow> string \<Rightarrow> int" +
  assumes loc_eq: "loc s t = 0 \<Longrightarrow> s = t"
begin

lemma entries_comparator: "consistent_comparator (cmp_on loc fst)"
  by (rule consistent_cmp_on) unfold_locales

lemma js_sort_unique:
  assumes "mset ps = mset qs" and "distinct (map fst ps)"
  shows "js_sort (cmp_on loc fst) ps = js_sort (cmp_on loc fst) qs"
proof (rule sorted_wrt_unique)
  show "sorted_wrt (\<lambda>a b. cmp_on loc fst a b \<le> 0) (js_sort (cmp_on loc fst) ps)"
    and "sorted_wrt (\<lambda>a b. cmp_on loc fst a b \<le> 0) (js_sort (cmp_on loc fst) qs)"
    using consistent_comparator.sorted_js_sort [OF entries_comparator] by blast+
  fix x y
  assume "x \<in> set (js_sort (cmp_on loc fst) ps)" "y \<in> set (js_sort (cmp_on loc fst) ps)"
    and "cmp_on loc fst x y \<le> 0" "cmp_on loc fst y x \<le> 0"
  then have "fst x = fst y" "x \<in> set ps" "y \<in> set ps"
    using cmp_pos_neg [of "fst y" "fst x"] loc_eq [of "fst x" "fst y"] by (auto simp: cmp_on_def)
  with assms(2) show "x = y" by (metis eq_key_imp_eq_value prod.collapse)
qed (use assms in simp)

lemma normalize_perm:
  assumes "mset ps = mset qs" and "distinct (map fst ps)"
  shows "normalizeCustomFieldValues loc (Obj ps) = normalizeCustomFieldValues loc (Obj qs)"
proof -
  have "distinct (map fst qs)" using assms by (metis mset_eq_imp_distinct_iff mset_map)
  with assms js_sort_unique [OF assms] show ?thesis by (simp add: normalize_entries)
qed

end

text \<open>The default order of strings, by code units, is one.\<close>

lemma char_code_inj: "char_code c = char_code d \<longleftrightarrow> c = d"
  by (simp add: char_code_def)

lemma string_cmp_minus: "string_cmp s t = - string_cmp t s"
  by (induction s t rule: string_cmp.induct) simp_all

lemma string_cmp_sym: "sgn (string_cmp s t) = - sgn (string_cmp t s)"
  by (subst string_cmp_minus) simp

lemma string_cmp_eq: "string_cmp s t = 0 \<Longrightarrow> s = t"
  by (induction s t rule: string_cmp.induct) (auto simp: char_code_inj split: if_splits)

lemma string_cmp_trans: "string_cmp s t \<le> 0 \<Longrightarrow> string_cmp t u \<le> 0 \<Longrightarrow> string_cmp s u \<le> 0"
proof (induction s t arbitrary: u rule: string_cmp.induct)
  case (1 u)
  then show ?case by simp
next
  case (2 d ds u)
  then show ?case by (cases u) simp_all
next
  case (4 c cs d ds u)
  then obtain e es where u: "u = e # es" by (cases u) simp_all
  show ?case
  proof (cases "c = d \<and> d = e")
    case True
    with 4 u show ?thesis by simp
  next
    case False
    with 4(2,3) u show ?thesis using char_code_inj [of c d] char_code_inj [of d e] char_code_inj [of c e]
      by (auto split: if_splits)
  qed
qed simp

interpretation code_units: collation string_cmp
  by unfold_locales (rule string_cmp_sym, rule string_cmp_trans, assumption+, rule string_cmp_eq, assumption)

section \<open>Comparing values\<close>

definition normal_value :: "(string \<Rightarrow> string \<Rightarrow> int) \<Rightarrow> js \<Rightarrow> js" where
  "normal_value loc v = (if isRecordObject v then Obj (normalizeCustomFieldValues loc v) else v)"

lemma json_stringify_parse: "json_ok v \<Longrightarrow> \<exists>t. json_stringify v = Some t \<and> json_parse t = Some v"
  using json_ok_text [of v "[]" "[]"] json_parse_text [of "[]" v] by (auto simp: json_stringify_def)

lemma canonical_text:
  "v \<noteq> Undefined \<Longrightarrow> v \<noteq> Null \<Longrightarrow>
   canonicalizeCustomFieldValue loc v = coalesce (json_stringify (normal_value loc v)) ''undefined''"
  by (simp add: canonicalizeCustomFieldValue_def normal_value_def)

lemma null_mark_no_json: "json_parse ''__null__'' = None"
proof -
  have "\<not> is_digit (CHR ''_'')" by code_simp
  then show ?thesis
    by (simp add: json_parse_def skip_space_def json_space_def json_number_def json_unsigned_def numeral_eq_Suc)
qed

lemma canonical_parsed:
  assumes "json_ok v"
  shows "json_parse (canonicalizeCustomFieldValue loc v) = (if v = Null then None else Some (normal_value loc v))"
proof (cases "v = Null")
  case True
  then show ?thesis by (simp add: canonicalizeCustomFieldValue_def null_mark_no_json)
next
  case False
  have "json_ok (normal_value loc v)" using assms normal_ok [of v loc] by (simp add: normal_value_def)
  then obtain t where "json_stringify (normal_value loc v) = Some t" "json_parse t = Some (normal_value loc v)"
    using json_stringify_parse by blast
  moreover have "v \<noteq> Undefined" using assms by (cases v) simp_all
  ultimately show ?thesis using False by (simp add: canonical_text)
qed

lemma normal_value_Null: "normal_value loc v = Null \<longleftrightarrow> v = Null"
  by (cases v) (simp_all add: normal_value_def)

lemma canonical_value_iff:
  assumes "json_ok v" and "json_ok w"
  shows "canonicalizeCustomFieldValue loc v = canonicalizeCustomFieldValue loc w
     \<longleftrightarrow> normal_value loc v = normal_value loc w"
proof
  assume "canonicalizeCustomFieldValue loc v = canonicalizeCustomFieldValue loc w"
  then show "normal_value loc v = normal_value loc w"
    using canonical_parsed [OF assms(1), of loc] canonical_parsed [OF assms(2), of loc]
    by (metis option.distinct(1) option.inject)
next
  assume eq: "normal_value loc v = normal_value loc w"
  have "v \<noteq> Undefined" "w \<noteq> Undefined" using assms by (cases v; cases w; simp)+
  moreover from eq have "v = Null \<longleftrightarrow> w = Null" by (metis normal_value_Null)
  ultimately show "canonicalizeCustomFieldValue loc v = canonicalizeCustomFieldValue loc w"
    using eq by (cases "v = Null") (simp_all add: canonical_text)
qed

lemma map_of_foldl_set:
  "map_of (foldl (\<lambda>acc d. if c (key d) then acc else map_set (key d) (f (key d)) acc) acc ds) k =
     (if k \<in> key ` set ds \<and> \<not> c k then Some (f k) else map_of acc k)"
  by (induction ds arbitrary: acc) auto

lemma map_of_patch:
  "map_of (customFieldPatchPayload loc definitions current next_values) k =
     (if k \<in> field_key ` set definitions \<and> \<not> same_custom_value loc current next_values k
      then Some (js_coalesce (own_or_null next_values k) Null) else None)"
  unfolding customFieldPatchPayload_def
  using map_of_foldl_set [of "same_custom_value loc current next_values" field_key
      "\<lambda>k. js_coalesce (own_or_null next_values k) Null" "[]" definitions k] by simp

lemma own_prop_map: "own_prop r k \<longleftrightarrow> map_of r k \<noteq> None"
  by (simp add: own_prop_def map_of_eq_None_iff)

lemma own_or_null_of: "own_or_null r k = (case map_of r k of None \<Rightarrow> Null | Some v \<Rightarrow> v)"
proof (cases "map_of r k")
  case None
  then have "k \<notin> fst ` set r" by (simp add: map_of_eq_None_iff)
  with None show ?thesis by (simp add: own_or_null_def own_prop_def)
next
  case (Some v)
  then have "k \<in> set (map fst r)" by (metis map_of_eq_None_iff option.distinct(1) set_map)
  with Some show ?thesis by (simp add: own_or_null_def own_prop_def get_prop_def)
qed

lemma own_value:
  "(if own_prop vs k \<and> get_prop vs k \<noteq> Undefined then get_prop vs k else Null) = js_coalesce (get_prop vs k) Null"
  using own_or_null_of [of vs k]
  by (cases "map_of vs k") (auto simp: own_or_null_def js_coalesce_def nullish_def get_prop_def split: if_splits)

lemma map_of_payload:
  "map_of (customFieldPayload definitions vs) k =
     (if k \<in> field_key ` set definitions then Some (js_coalesce (get_prop vs k) Null) else None)"
  using map_of_foldl_set [of "\<lambda>k. False" field_key "\<lambda>k. js_coalesce (get_prop vs k) Null" "[]" definitions k]
  by (simp add: customFieldPayload_def own_value)

text \<open>
  Equality of JSON values up to the order of keys: the least congruence in which the entries of
  an object can be permuted.
\<close>

inductive same_json :: "js \<Rightarrow> js \<Rightarrow> bool" where
  same_refl: "same_json v v"
| same_sym: "same_json v w \<Longrightarrow> same_json w v"
| same_trans: "same_json v w \<Longrightarrow> same_json w u \<Longrightarrow> same_json v u"
| same_perm: "mset ps = mset qs \<Longrightarrow> same_json (Obj ps) (Obj qs)"
| same_entries: "list_all2 (\<lambda>p q. fst p = fst q \<and> same_json (snd p) (snd q)) ps qs \<Longrightarrow> same_json (Obj ps) (Obj qs)"
| same_items: "list_all2 same_json xs ys \<Longrightarrow> same_json (Arr xs) (Arr ys)"

lemma same_normal_entry: "json_ok v \<Longrightarrow> same_json v (normal_entry loc v)"
proof (induction "size v" arbitrary: v rule: less_induct)
  case less
  show ?case
  proof (cases v)
    case (Obj ps)
    let ?sorted = "js_sort (cmp_on loc fst) ps"
    have entry: "same_json w (normal_entry loc w)" if "(k, w) \<in> set ps" for k w
      using less.hyps [of w] member_smaller [OF that] that less.prems Obj by fastforce
    have "distinct (map fst ps)" using less.prems Obj by simp
    then have normal: "normal_entry loc v = Obj (map (\<lambda>(k, w). (k, normal_entry loc w)) ?sorted)"
      unfolding Obj by (simp add: normal_entry_def [of loc "Obj ps"] normalize_entries)
    have "same_json v (Obj ?sorted)" unfolding Obj by (rule same_perm) simp
    moreover have "same_json (Obj ?sorted) (normal_entry loc v)"
      unfolding normal by (rule same_entries) (auto simp: list_all2_map2 intro!: list.rel_refl_strong entry)
    ultimately show ?thesis by (rule same_trans)
  next
    case (Arr xs)
    have item: "same_json x (case x of Obj ps \<Rightarrow> Obj (normalizeCustomFieldValues loc x) | _ \<Rightarrow> x)" if "x \<in> set xs" for x
    proof (cases x)
      case (Obj ps)
      then have "same_json x (normal_entry loc x)"
        using less.hyps [of x] less.prems Arr that size_list_estimation' [of x xs "size x" size] by auto
      with Obj show ?thesis by (simp add: normal_entry_def)
    qed (simp_all add: same_refl)
    show ?thesis unfolding Arr normal_entry_def js.case
      by (rule same_items) (auto simp: list_all2_map2 intro!: list.rel_refl_strong item)
  qed (simp_all add: normal_entry_def same_refl)
qed

lemma same_normal_value: "json_ok v \<Longrightarrow> same_json v (normal_value loc v)"
proof (cases v)
  case (Obj ps)
  moreover assume "json_ok v"
  then have "same_json v (normal_entry loc v)" by (rule same_normal_entry)
  ultimately show ?thesis by (simp add: normal_value_def normal_entry_def)
qed (simp_all add: normal_value_def same_refl)

text \<open>
  Values as they come from JSON and from the inputs: nested values as \<open>JSON.parse\<close> reads them
  back, numbers with at most 17 decimals. The text of such a number is not that of another value.
\<close>

definition plain_value :: "js \<Rightarrow> bool" where
  "plain_value v \<longleftrightarrow> json_ok v \<or> (case v of Num n \<Rightarrow> text_exact v | _ \<Rightarrow> False)"

definition number_start :: "string \<Rightarrow> bool" where
  "number_start s \<longleftrightarrow> (case s of [] \<Rightarrow> False | c # _ \<Rightarrow> is_digit c \<or> c = CHR ''-'')"

lemma number_text_start: "decimals 17 q \<Longrightarrow> number_start (show_rat q)"
proof (erule show_rat_parts)
  fix w fs
  assume "show_rat q = (if q < 0 then ''-'' else []) @ w @ (if fs = [] then [] else ''.'' @ fs)" "w \<noteq> []" "list_all is_digit w"
  then show "number_start (show_rat q)" by (cases w) (simp_all add: number_start_def)
qed

lemma other_text_start:
  assumes "json_ok v" and "as_finite v = None"
  shows "\<not> number_start (canonicalizeCustomFieldValue loc v)"
proof -
  have "list_all (\<lambda>c. \<not> is_digit c) ''_tf[{'' \<and> \<not> is_digit (CHR 0x22)" by code_simp
  then show ?thesis using assms
    by (cases v) (auto simp: canonicalizeCustomFieldValue_def number_start_def json_stringify_def bracketed_def json_quote_def
        split: jsnum.splits)
qed

lemma plain_number: "plain_value (Num n) \<Longrightarrow> \<exists>q. n = Fin q \<and> decimals 17 q \<and> \<bar>q\<bar> \<le> 10 ^ 20"
proof (cases n)
  case (Fin q)
  assume "plain_value (Num n)"
  with Fin show ?thesis
  proof (cases "text_exact (Num n)")
    case False
    with \<open>plain_value (Num n)\<close> have "json_ok (Num (Fin q))" by (simp add: plain_value_def Fin del: text_exact.simps json_ok.simps)
    then have q: "q = of_int \<lfloor>q\<rfloor>" "\<bar>q\<bar> \<le> 2 ^ 53" by simp_all
    from q(1) have "q * 10 ^ 17 = of_int (\<lfloor>q\<rfloor> * 10 ^ 17)" by (metis of_int_mult of_int_numeral of_int_power)
    then have "decimals 17 q" unfolding decimals_iff by blast
    moreover have "\<bar>q\<bar> \<le> 10 ^ 20" using q(2) by simp
    ultimately show ?thesis using Fin by blast
  qed (simp add: Fin)
qed (simp_all add: plain_value_def)

lemma number_canonical: "canonicalizeCustomFieldValue loc (Num (Fin q)) = show_rat q"
  by (simp add: canonicalizeCustomFieldValue_def json_stringify_def)

lemma same_canonical:
  assumes "plain_value v" and "plain_value w"
    and "canonicalizeCustomFieldValue loc v = canonicalizeCustomFieldValue loc w"
  shows "same_json v w"
proof -
  have number: "v = w" if n: "v = Num n" "plain_value v" "plain_value w"
    "canonicalizeCustomFieldValue loc v = canonicalizeCustomFieldValue loc w" for v w n
  proof -
    obtain p where p: "n = Fin p" "decimals 17 p" "\<bar>p\<bar> \<le> 10 ^ 20" using plain_number n(1,2) by blast
    then have text_v: "canonicalizeCustomFieldValue loc w = show_rat p" using n(1,4) number_canonical by simp
    show ?thesis
    proof (cases "\<exists>m. w = Num m")
      case True
      then obtain q where q: "w = Num (Fin q)" "decimals 17 q" "\<bar>q\<bar> \<le> 10 ^ 20" using plain_number n(3) by blast
      with text_v have "show_rat q = show_rat p" by (simp add: number_canonical)
      then have "Fin q = Fin p" using parse_float_show(1) [OF p(2,3)] parse_float_show(1) [OF q(2,3)] by metis
      then show ?thesis by (simp add: n(1) p(1) q(1))
    next
      case False
      with n(3) have "json_ok w" "as_finite w = None" by (cases w; simp add: plain_value_def)+
      from other_text_start [OF this, of loc] text_v number_text_start [OF p(2)] have False by simp
      then show ?thesis ..
    qed
  qed
  consider n where "v = Num n" | n where "w = Num n" | "json_ok v" "json_ok w"
    using assms(1,2) by (auto simp: plain_value_def split: js.splits)
  then show ?thesis
  proof cases
    case 3
    then have "normal_value loc v = normal_value loc w" using assms(3) canonical_value_iff by blast
    with same_normal_value [OF 3(1), of loc] same_normal_value [OF 3(2), of loc] show ?thesis
      by (metis same_sym same_trans)
  qed (use number [of v _ w] number [of w _ v] assms in \<open>auto intro: same_refl\<close>)
qed

text \<open>C32: applying the patch that is sent to the stored values gives, for every field, the edited value up to
  the order of the keys of its objects.\<close>

theorem patch_applied:
  assumes "k \<in> field_key ` set definitions"
    and "plain_value (own_or_null current k)" and "plain_value (own_or_null edited k)"
  shows "same_json (own_or_null (spread current (customFieldPatchPayload loc definitions current edited)) k) (own_or_null edited k)"
proof (cases "same_custom_value loc current edited k")
  case True
  then have "own_or_null (spread current (customFieldPatchPayload loc definitions current edited)) k = own_or_null current k"
    by (simp add: own_or_null_of map_of_spread map_add_def map_of_patch)
  with True assms(2,3) show ?thesis by (simp add: same_custom_value_def same_canonical)
next
  case False
  have "own_or_null edited k \<noteq> Undefined" using assms(3) by (auto simp: plain_value_def)
  then have "js_coalesce (own_or_null edited k) Null = own_or_null edited k" by (simp add: js_coalesce_def nullish_def)
  with False assms(1) have "own_or_null (spread current (customFieldPatchPayload loc definitions current edited)) k = own_or_null edited k"
    by (simp add: own_or_null_of [of "spread _ _"] map_of_spread map_add_def map_of_patch)
  then show ?thesis by (simp add: same_refl)
qed

theorem patch_applied_witness:
  "same_json (own_or_null (spread [(''k'', Null)]
         (customFieldPatchPayload string_cmp [sample_field FText Null] [(''k'', Null)] [(''k'', Str ''x'')])) ''k'')
    (own_or_null [(''k'', Str ''x'')] ''k'')"
  by (rule patch_applied) (simp_all add: own_or_null_def own_prop_def get_prop_def plain_value_def)

text \<open>a field is in the patch exactly when its stored and edited values differ otherwise than in the order of keys.\<close>

theorem patch_minimal:
  assumes "json_ok (own_or_null current k)" and "json_ok (own_or_null edited k)"
  shows "own_prop (customFieldPatchPayload loc definitions current edited) k \<longleftrightarrow>
    k \<in> field_key ` set definitions \<and> normal_value loc (own_or_null current k) \<noteq> normal_value loc (own_or_null edited k)"
  using canonical_value_iff [OF assms, of loc] by (simp add: own_prop_map map_of_patch same_custom_value_def)

theorem patch_minimal_witness:
  "own_prop (customFieldPatchPayload string_cmp [sample_field FText Null] [(''k'', Null)] [(''k'', Str ''x'')]) ''k''"
  using patch_minimal [where k = "''k''" and current = "[(''k'', Null)]" and edited = "[(''k'', Str ''x'')]"
      and definitions = "[sample_field FText Null]" and loc = string_cmp]
  by (simp add: own_or_null_def own_prop_def get_prop_def normal_value_def)

text \<open>The order in which keys were added does not matter, on the top level and below.\<close>

lemma normal_value_perm:
  "collation loc \<Longrightarrow> mset ps = mset qs \<Longrightarrow> distinct (map fst ps) \<Longrightarrow>
   normal_value loc (Obj ps) = normal_value loc (Obj qs)"
  by (simp add: normal_value_def collation.normalize_perm)

text \<open>two objects with the same entries have the same canonical text, whatever the order in which the keys were added.\<close>

theorem key_order_ignored:
  assumes "collation loc" and "mset ps = mset qs" and "distinct (map fst ps)"
  shows "canonicalizeCustomFieldValues loc (Obj ps) = canonicalizeCustomFieldValues loc (Obj qs)"
    and "canonicalizeCustomFieldValue loc (Obj ps) = canonicalizeCustomFieldValue loc (Obj qs)"
  using collation.normalize_perm [OF assms]
  by (simp_all add: canonicalizeCustomFieldValues_def canonicalizeCustomFieldValue_def)

theorem key_order_ignored_witness:
  "canonicalizeCustomFieldValues string_cmp (Obj [(''a'', Null), (''b'', Bool True)])
    = canonicalizeCustomFieldValues string_cmp (Obj [(''b'', Bool True), (''a'', Null)])"
  by (rule key_order_ignored(1)) (unfold_locales, simp_all)

section \<open>Objects with one entry per definition\<close>

lemma foldl_map_set_keys:
  "distinct (map fst acc @ map key ds) \<Longrightarrow>
   foldl (\<lambda>acc d. map_set (key d) (f d) acc) acc ds = acc @ map (\<lambda>d. (key d, f d)) ds"
proof (induction ds arbitrary: acc)
  case (Cons d ds)
  have "map_set (key d) (f d) acc = acc @ [(key d, f d)]" using Cons.prems by (intro map_set_new) auto
  with Cons show ?case by simp
qed simp

definition board_value :: "(string \<Rightarrow> string \<Rightarrow> int) \<Rightarrow> js \<Rightarrow> custom_field \<Rightarrow> js" where
  "board_value loc v d =
     (if own_prop (normalizeCustomFieldValues loc v) (field_key d)
      then get_prop (normalizeCustomFieldValues loc v) (field_key d) else js_coalesce (cf_default d) Null)"

lemma board_values:
  assumes "distinct (map field_key definitions)"
  shows "boardCustomFieldValues loc definitions v = map (\<lambda>d. (field_key d, board_value loc v d)) definitions"
proof -
  have "(if own_prop s (field_key d) then map_set (field_key d) (get_prop s (field_key d)) acc
        else map_set (field_key d) (js_coalesce (cf_default d) Null) acc)
      = map_set (field_key d)
          (if own_prop s (field_key d) then get_prop s (field_key d) else js_coalesce (cf_default d) Null) acc"
    for s acc and d :: custom_field
    by simp
  then show ?thesis
    using foldl_map_set_keys [of "[]" field_key definitions "board_value loc v"] assms
    by (simp add: boardCustomFieldValues_def Let_def board_value_def)
qed

lemma payload_entries:
  assumes "distinct (map field_key definitions)"
  shows "customFieldPayload definitions vs =
    map (\<lambda>d. (field_key d, js_coalesce (get_prop vs (field_key d)) Null)) definitions"
  using foldl_map_set_keys [of "[]" field_key definitions "\<lambda>d. js_coalesce (get_prop vs (field_key d)) Null"] assms
  by (simp add: customFieldPayload_def own_value)

lemma entry_of:
  assumes "distinct (map field_key definitions)" and "d \<in> set definitions"
  shows "map_of (map (\<lambda>d. (field_key d, f d)) definitions) (field_key d) = Some (f d)"
proof -
  have "distinct (map fst (map (\<lambda>d. (field_key d, f d)) definitions))" using assms(1) by (simp add: comp_def)
  moreover have "(field_key d, f d) \<in> set (map (\<lambda>d. (field_key d, f d)) definitions)" using assms(2) by auto
  ultimately show ?thesis by (rule map_of_is_SomeI)
qed

text \<open>Values as the backend stores them: no \<open>undefined\<close>, and an object or nothing at all.\<close>

definition stored_values :: "js \<Rightarrow> bool" where
  "stored_values v \<longleftrightarrow> v = Undefined \<or> json_ok v"

definition stored_default :: "custom_field \<Rightarrow> bool" where
  "stored_default d \<longleftrightarrow> cf_default d = Undefined \<or> json_ok (cf_default d)"

lemma board_value_ok:
  assumes "stored_values v" and "stored_default d"
  shows "json_ok (board_value loc v d)"
proof (cases "own_prop (normalizeCustomFieldValues loc v) (field_key d)")
  case True
  then obtain w where w: "map_of (normalizeCustomFieldValues loc v) (field_key d) = Some w" by (auto simp: own_prop_map)
  have rec: "isRecordObject v" using w normalize_other [of v loc] by (cases "isRecordObject v") simp_all
  then have "json_ok v" using assms(1) by (cases v) (simp_all add: stored_values_def)
  with rec have "json_ok (Obj (normalizeCustomFieldValues loc v))" using normal_ok [of v loc] by blast
  moreover have "(field_key d, w) \<in> set (normalizeCustomFieldValues loc v)" using w by (rule map_of_SomeD)
  ultimately show ?thesis using True w by (auto simp: board_value_def get_prop_def)
qed (use assms(2) in \<open>auto simp: board_value_def js_coalesce_def nullish_def stored_default_def\<close>)

section \<open>Required fields\<close>

lemma first_missing:
  "firstMissingRequiredCustomField ds vs = None \<longleftrightarrow>
     list_all (\<lambda>d. cf_required d = Some True \<longrightarrow> \<not> nullish (get_prop vs (field_key d))) ds"
  by (induction ds) auto

text \<open>
  A patch misses no required field exactly when it empties none; one that was empty before
  does not count.
\<close>

lemma required_kept:
  "firstMissingRequiredCustomField
      (filter (\<lambda>d. own_prop (customFieldPatchPayload loc definitions current edited) (field_key d)) definitions)
      (customFieldPatchPayload loc definitions current edited) = None \<longleftrightarrow>
   list_all (\<lambda>d. cf_required d = Some True \<and> nullish (own_or_null edited (field_key d)) \<longrightarrow>
      same_custom_value loc current edited (field_key d)) definitions"
proof -
  have own: "own_prop (customFieldPatchPayload loc definitions current edited) (field_key d)
      \<longleftrightarrow> \<not> same_custom_value loc current edited (field_key d)" if "d \<in> set definitions" for d
    using that map_of_patch [of loc definitions current edited "field_key d"] by (simp add: own_prop_map)
  have get: "get_prop (customFieldPatchPayload loc definitions current edited) (field_key d)
      = js_coalesce (own_or_null edited (field_key d)) Null"
    if "d \<in> set definitions" "\<not> same_custom_value loc current edited (field_key d)" for d
    using that map_of_patch [of loc definitions current edited "field_key d"] by (simp add: get_prop_def)
  have null: "nullish (js_coalesce v Null) = nullish v" for v by (simp add: js_coalesce_def nullish_def)
  have "(own_prop (customFieldPatchPayload loc definitions current edited) (field_key d) \<longrightarrow>
        cf_required d = Some True \<longrightarrow>
        \<not> nullish (get_prop (customFieldPatchPayload loc definitions current edited) (field_key d))) \<longleftrightarrow>
      (cf_required d = Some True \<and> nullish (own_or_null edited (field_key d)) \<longrightarrow>
        same_custom_value loc current edited (field_key d))" if "d \<in> set definitions" for d
    using own [OF that] get [OF that] null by auto
  then show ?thesis unfolding first_missing list_all_iff by auto
qed

section \<open>The form of a field\<close>

definition accepts_default :: "CustomFieldType \<Rightarrow> string \<Rightarrow> bool" where
  "accepts_default ft t \<longleftrightarrow> (case parseCustomFieldDefaultValue ft t of Inl _ \<Rightarrow> False | Inr _ \<Rightarrow> True)"

text \<open>exactly which inputs the form of a field accepts.\<close>

theorem form_accepted_iff:
  "(\<exists>nv. normalizeCustomFieldFormInput form_mode st ids = Inr nv) \<longleftrightarrow>
     (form_mode = EditMode \<or> trim (fs_fieldKey st) \<noteq> []) \<and> trim (fs_label st) \<noteq> [] \<and> ids \<noteq> []
     \<and> (trim (fs_validationRegex st) = [] \<or> fs_fieldType st \<in> set STRING_VALIDATION_FIELD_TYPES)
     \<and> accepts_default (fs_fieldType st) (fs_defaultValue st)"
  by (cases form_mode)
    (auto simp: normalizeCustomFieldFormInput_def Let_def accepts_default_def split: sum.splits)

text \<open>A field as the form saves it.\<close>

definition plain_text :: "string option \<Rightarrow> bool" where
  "plain_text v = (case v of None \<Rightarrow> True | Some s \<Rightarrow> s \<noteq> [] \<and> trim s = s)"

definition saved_field :: "custom_field \<Rightarrow> bool" where
  "saved_field field \<longleftrightarrow>
     plain_text (Some (coalesce (cf_label field) (field_key field)))
     \<and> plain_text (validation_regex field) \<and> plain_text (field_description field)
     \<and> (validation_regex field = None \<or> coalesce (field_type field) FText \<in> set STRING_VALIDATION_FIELD_TYPES)
     \<and> named_type (coalesce (field_type field) FText)
     \<and> (cf_default field = Null
        \<or> has_field_type (coalesce (field_type field) FText) (cf_default field) \<and> text_exact (cf_default field))
     \<and> (case board_ids field of None \<Rightarrow> False | Some ids \<Rightarrow> ids \<noteq> [] \<and> distinct ids)"

lemma plain_text_read: "plain_text v \<Longrightarrow> truthy_str (trim (coalesce v [])) = v"
  by (cases v) (simp_all add: plain_text_def truthy_str_def)

lemma default_read_back:
  assumes "named_type ft" and "v = Null \<or> has_field_type ft v \<and> text_exact v"
  shows "parseCustomFieldDefaultValue ft (formatCustomFieldDefaultValue pretty v) = Inr v"
  using assms(2)
proof
  assume "v = Null"
  then show ?thesis by (simp add: parseCustomFieldDefaultValue_def formatCustomFieldDefaultValue_def nullish_def)
qed (use default_text_round_trip [OF assms(1)] in blast)

lemma sorted_equal_refl: "areSortedStringArraysEqual xs xs"
  by (induction xs) (auto simp: areSortedStringArraysEqual_def)

lemma set_add_all_distinct: "distinct (xs @ ys) \<Longrightarrow> set_add_all ys xs = xs @ ys"
proof (induction ys arbitrary: xs)
  case (Cons y ys)
  then show ?case using Cons.IH [of "xs @ [y]"] by (simp add: set_add_def)
qed simp

text \<open>opening the form of a saved field and submitting it unchanged sends nothing and says so.\<close>

theorem unchanged_form_sends_nothing:
  assumes "saved_field field"
  shows "edit_submission field (deriveFormStateFromCustomField field)
      (set_add_all (coalesce (board_ids field) []) []) = Inl ''No changes were made.''"
proof -
  define ft where "ft = coalesce (field_type field) FText"
  define name where "name = coalesce (cf_label field) (field_key field)"
  obtain ids where ids: "board_ids field = Some ids" "ids \<noteq> []" "distinct ids"
    using assms by (auto simp: saved_field_def split: option.splits)
  have name: "name \<noteq> []" "trim name = name" using assms by (simp_all add: saved_field_def plain_text_def name_def)
  note plain = assms [unfolded saved_field_def]
  have default: "parseCustomFieldDefaultValue ft (formatCustomFieldDefaultValue True (cf_default field)) = Inr (cf_default field)"
    using plain default_read_back [of ft "cf_default field" True] by (simp add: ft_def)
  have regex: "truthy_str (trim (coalesce (validation_regex field) [])) = validation_regex field"
    "truthy_str (trim (coalesce (field_description field) [])) = field_description field"
    using plain plain_text_read by blast+
  have regex_ok: "trim (coalesce (validation_regex field) []) = [] \<or> ft \<in> set STRING_VALIDATION_FIELD_TYPES"
    using plain by (auto simp: ft_def)
  have "normalizeCustomFieldFormInput EditMode (deriveFormStateFromCustomField field) (set_add_all ids []) =
      Inr \<lparr>nv_fieldKey = trim (field_key field), nv_label = name, nv_fieldType = ft,
           nv_uiVisibility = coalesce (ui_visibility field) Always, nv_validationRegex = validation_regex field,
           nv_description = field_description field, nv_required = (cf_required field = Some True),
           nv_defaultValue = cf_default field, nv_boardIds = ids\<rparr>"
    using name ids default regex regex_ok
    by (simp add: normalizeCustomFieldFormInput_def deriveFormStateFromCustomField_def Let_def
        ft_def [symmetric] name_def [symmetric] set_add_all_distinct)
  then show ?thesis
    by (simp add: edit_submission_def ids(1) buildCustomFieldUpdatePayload_def ft_def name_def sorted_equal_refl)
qed

lemma sample_saved: "saved_field (sample_field FDecimal (Num (Fin (5 / 2))))"
proof -
  have "trim ''k'' = ''k''" by (rule trim_plain; code_simp)
  then show ?thesis using sample_decimal by (simp add: saved_field_def plain_text_def)
qed

theorem unchanged_form_sends_nothing_witness:
  "edit_submission (sample_field FDecimal (Num (Fin (5 / 2))))
      (deriveFormStateFromCustomField (sample_field FDecimal (Num (Fin (5 / 2))))) (set_add_all [''b''] [])
    = Inl ''No changes were made.''"
  using unchanged_form_sends_nothing [OF sample_saved] by simp

section \<open>Typing\<close>

text \<open>
  The text a control shows after a char is typed at its end, and after a text is typed char
  by char.
\<close>

definition type_char :: "custom_field \<Rightarrow> string \<Rightarrow> char \<Rightarrow> string" where
  "type_char d shown c = control_text (field_control d (edited_value d (shown @ [c])))"

definition type_text :: "custom_field \<Rightarrow> string \<Rightarrow> string" where
  "type_text d t = foldl (type_char d) [] t"

lemma trim_plain_space:
  assumes "list_all plain_char s"
  shows "trim (s @ [c]) = (if plain_char c then s @ [c] else trim (s @ [c]))"
    and "trim (s @ '' '') = s"
proof -
  show "trim (s @ [c]) = (if plain_char c then s @ [c] else trim (s @ [c]))"
    using assms by (cases s) (simp_all add: trim_plain)
  show "trim (s @ '' '') = s"
  proof (cases s)
    case Nil
    have "trim '' '' = []" by code_simp
    with Nil show ?thesis by simp
  next
    case (Cons a as)
    with assms have start: "trim_start (s @ '' '') = s @ '' ''" by (simp add: trim_start_plain)
    have "strip (map rev js_whitespace) (rev s) = rev s"
      using assms Cons plain_char_not_ws(2) [of "last s" "rev (butlast s)"]
      by (metis append_butlast_last_id list.distinct(1) list_all_iff last_in_set rev.simps(2) rev_append
          rev_rev_ident append_Cons append_Nil strip_id rev_singleton_conv)
    moreover have "strip (map rev js_whitespace) (CHR '' '' # rev s) = strip (map rev js_whitespace) (rev s)"
      by (simp add: strip.simps [of _ "CHR '' '' # rev s"] js_whitespace_def)
    ultimately show ?thesis unfolding trim_def start by (simp add: trim_end_def)
  qed
qed

text \<open>typed char by char at its end, a text field loses every space.\<close>

theorem typing_loses_spaces:
  assumes "field_type d = Some FText \<or> field_type d = Some FTextLong"
    and "list_all (\<lambda>c. plain_char c \<or> c = CHR '' '') t"
  shows "type_text d t = filter (\<lambda>c. c \<noteq> CHR '' '') t"
proof -
  have control: "control_text (field_control d v) = customFieldInputText v" for v
    using assms(1) by (auto simp: field_control_def)
  have edited: "edited_value d s = (if trim s = [] then Null else Str (trim s))" for s
    using assms(1) by (auto simp: edited_value_def parseCustomFieldInputValue_def Let_def)
  have char: "type_char d s c = trim (s @ [c])" for s c
    by (simp add: type_char_def control edited customFieldInputText_def nullish_def)
  have space: "\<not> plain_char (CHR '' '')" by code_simp
  from assms(2) have "foldl (type_char d) s t = s @ filter (\<lambda>c. c \<noteq> CHR '' '') t" if "list_all plain_char s" for s
    using that
  proof (induction t arbitrary: s)
    case (Cons c t)
    show ?case
    proof (cases "c = CHR '' ''")
      case True
      with Cons trim_plain_space(2) [OF Cons.prems(2)] show ?thesis by (simp add: char)
    next
      case False
      with Cons.prems trim_plain_space(1) [OF Cons.prems(2), of c] Cons.IH [of "s @ [c]"]
      show ?thesis by (simp add: char)
    qed
  qed simp
  from this [of "[]"] show ?thesis by (simp add: type_text_def)
qed

theorem typing_loses_spaces_witness: "type_text (sample_field FText Null) ''a b'' = ''ab''"
proof -
  have "list_all (\<lambda>c. plain_char c \<or> c = CHR '' '') ''a b''" by code_simp
  from typing_loses_spaces [OF _ this, of "sample_field FText Null"] show ?thesis by simp
qed

end
