(* ===== verification/TaskForm.thy ===== *)
theory TaskForm
  imports BoardState CustomFields
begin

text \<open>
  The forms of the board page (\<open>src/app/boards/[boardId]/page.tsx\<close>) that edit and create a
  task: the effect that fills the edit form from the selected task, the test that enables
  the save button, and the requests that are sent. \<open>tz\<close>, \<open>lt\<close> and \<open>loc\<close> are the
  browser's time zone and collation, as in the theories JsCalendar and CustomFields. How the
  backend writes a date-time again is a parameter (\<open>datetime_server\<close>).
\<close>

section \<open>The edit form\<close>

record edit_form =
  editTitle :: string
  editDescription :: string
  editStatus :: string
  editPriority :: string
  editDueDate :: string
  editAssigneeId :: string
  editTagIds :: "string list"
  editDependsOnTaskIds :: "string list"
  editCustomFieldValues :: js_record
  saveTaskError :: "string option"

text \<open>\<open>task.key ?? ""\<close> and \<open>task.key ?? []\<close> for fields that hold text and ids.\<close>

definition text_field :: "js_record \<Rightarrow> string \<Rightarrow> string" where
  "text_field task key = coalesce (str_prop task key) []"

definition ids_field :: "js_record \<Rightarrow> string \<Rightarrow> string list" where
  "ids_field task key =
     (case get_prop task key of Arr xs \<Rightarrow> List.map_filter as_string xs | _ \<Rightarrow> [])"

definition form_of_task ::
  "(int \<Rightarrow> int) \<Rightarrow> (int \<Rightarrow> int) \<Rightarrow> (string \<Rightarrow> string \<Rightarrow> int) \<Rightarrow> custom_field list \<Rightarrow> js_record option \<Rightarrow> edit_form" where
  "form_of_task tz lt loc definitions selected =
     (case selected of
        None \<Rightarrow>
          \<lparr>editTitle = [], editDescription = [], editStatus = ''inbox'', editPriority = ''medium'',
           editDueDate = [], editAssigneeId = [], editTagIds = [], editDependsOnTaskIds = [],
           editCustomFieldValues = boardCustomFieldValues loc definitions (Obj []), saveTaskError = None\<rparr>
      | Some task \<Rightarrow>
          \<lparr>editTitle = text_field task ''title'', editDescription = text_field task ''description'',
           editStatus = text_field task ''status'', editPriority = text_field task ''priority'',
           editDueDate = toLocalDateInput tz lt (str_prop task ''due_at''),
           editAssigneeId = text_field task ''assigned_agent_id'', editTagIds = ids_field task ''tag_ids'',
           editDependsOnTaskIds = ids_field task ''depends_on_task_ids'',
           editCustomFieldValues =
             boardCustomFieldValues loc definitions (get_prop task ''custom_field_values''),
           saveTaskError = None\<rparr>)"

definition sorted_ids :: "string list \<Rightarrow> string" where
  "sorted_ids ids = join ''|'' (js_sort string_cmp ids)"

definition customs_changed ::
  "(string \<Rightarrow> string \<Rightarrow> int) \<Rightarrow> custom_field list \<Rightarrow> js_record \<Rightarrow> edit_form \<Rightarrow> bool" where
  "customs_changed loc definitions task form \<longleftrightarrow>
     canonicalizeCustomFieldValues loc
       (Obj (boardCustomFieldValues loc definitions (get_prop task ''custom_field_values'')))
     \<noteq> canonicalizeCustomFieldValues loc (Obj (customFieldPayload definitions (editCustomFieldValues form)))"

definition hasTaskChanges ::
  "(int \<Rightarrow> int) \<Rightarrow> (int \<Rightarrow> int) \<Rightarrow> (string \<Rightarrow> string \<Rightarrow> int) \<Rightarrow> custom_field list \<Rightarrow> js_record option \<Rightarrow> edit_form \<Rightarrow> bool" where
  "hasTaskChanges tz lt loc definitions selected form =
     (case selected of
        None \<Rightarrow> False
      | Some task \<Rightarrow>
          trim (editTitle form) \<noteq> text_field task ''title''
          \<or> trim (editDescription form) \<noteq> trim (text_field task ''description'')
          \<or> editStatus form \<noteq> text_field task ''status''
          \<or> editPriority form \<noteq> text_field task ''priority''
          \<or> editDueDate form \<noteq> toLocalDateInput tz lt (str_prop task ''due_at'')
          \<or> editAssigneeId form \<noteq> text_field task ''assigned_agent_id''
          \<or> sorted_ids (ids_field task ''tag_ids'') \<noteq> sorted_ids (editTagIds form)
          \<or> sorted_ids (ids_field task ''depends_on_task_ids'') \<noteq> sorted_ids (editDependsOnTaskIds form)
          \<or> customs_changed loc definitions task form)"

section \<open>Saving\<close>

definition opt_json :: "string option \<Rightarrow> js" where
  "opt_json v = (case v of None \<Rightarrow> Null | Some s \<Rightarrow> Str s)"

definition edit_patch ::
  "(string \<Rightarrow> string \<Rightarrow> int) \<Rightarrow> custom_field list \<Rightarrow> js_record \<Rightarrow> edit_form \<Rightarrow> js_record" where
  "edit_patch loc definitions task form =
     customFieldPatchPayload loc definitions
       (boardCustomFieldValues loc definitions (get_prop task ''custom_field_values''))
       (customFieldPayload definitions (editCustomFieldValues form))"

definition required_message :: "string \<Rightarrow> string" where
  "required_message name = ''Custom field '' @ [CHR 0x22] @ name @ [CHR 0x22] @ '' is required.''"

text \<open>
  \<open>handleTaskSave\<close> until its request: nothing for a visitor or without a task, the text of
  the error, or the body of the request.
\<close>

definition save_payload ::
  "(int \<Rightarrow> int) \<Rightarrow> (int \<Rightarrow> int) \<Rightarrow> js_record \<Rightarrow> edit_form \<Rightarrow> js_record \<Rightarrow> js_record" where
  "save_payload tz lt task form patch =
     [(''title'', Str (trim (editTitle form))),
      (''description'', opt_json (truthy_str (trim (editDescription form)))),
      (''status'', Str (editStatus form)), (''priority'', Str (editPriority form)),
      (''assigned_agent_id'', opt_json (truthy_str (editAssigneeId form)))]
     @ (if sorted_ids (ids_field task ''depends_on_task_ids'') \<noteq> sorted_ids (editDependsOnTaskIds form)
           \<and> text_field task ''status'' \<noteq> ''done''
        then [(''depends_on_task_ids'', Arr (map Str (editDependsOnTaskIds form)))] else [])
     @ (if sorted_ids (ids_field task ''tag_ids'') \<noteq> sorted_ids (editTagIds form)
        then [(''tag_ids'', Arr (map Str (editTagIds form)))] else [])
     @ (if editDueDate form \<noteq> toLocalDateInput tz lt (str_prop task ''due_at'')
        then [(''due_at'', opt_json (localDateInputToUtcIso tz (Some (editDueDate form))))] else [])
     @ (if patch \<noteq> [] then [(''custom_field_values'', Obj patch)] else [])"

definition handleTaskSave_begin ::
  "(int \<Rightarrow> int) \<Rightarrow> (int \<Rightarrow> int) \<Rightarrow> (string \<Rightarrow> string \<Rightarrow> int) \<Rightarrow> custom_field list \<Rightarrow> bool \<Rightarrow> string option
    \<Rightarrow> js_record option \<Rightarrow> edit_form \<Rightarrow> (string + js_record) option" where
  "handleTaskSave_begin tz lt loc definitions isSignedIn boardId selected form =
     (case selected of
        None \<Rightarrow> None
      | Some task \<Rightarrow>
          if \<not> isSignedIn \<or> boardId \<bind> truthy_str = None then None
          else if trim (editTitle form) = [] then Some (Inl ''Title is required.'')
          else (let patch = edit_patch loc definitions task form
                in case firstMissingRequiredCustomField
                          (filter (\<lambda>d. own_prop patch (field_key d)) definitions) patch of
                     Some name \<Rightarrow>
                       if name \<noteq> [] then Some (Inl (required_message name))
                       else Some (Inr (save_payload tz lt task form patch))
                   | None \<Rightarrow> Some (Inr (save_payload tz lt task form patch))))"

text \<open>\<open>handleTaskReset\<close> refills the form.\<close>

definition handleTaskReset ::
  "(int \<Rightarrow> int) \<Rightarrow> (int \<Rightarrow> int) \<Rightarrow> (string \<Rightarrow> string \<Rightarrow> int) \<Rightarrow> custom_field list \<Rightarrow> js_record option \<Rightarrow> edit_form \<Rightarrow> edit_form" where
  "handleTaskReset tz lt loc definitions selected form =
     (case selected of None \<Rightarrow> form | Some task \<Rightarrow> form_of_task tz lt loc definitions selected)"

section \<open>Creating\<close>

record create_form =
  newTitle :: string
  newDescription :: string
  newPriority :: string
  createDueDate :: string
  createTagIds :: "string list"
  createCustomFieldValues :: js_record
  createError :: "string option"

definition resetForm :: "(string \<Rightarrow> string \<Rightarrow> int) \<Rightarrow> custom_field list \<Rightarrow> create_form" where
  "resetForm loc definitions =
     \<lparr>newTitle = [], newDescription = [], newPriority = ''medium'', createDueDate = [], createTagIds = [],
      createCustomFieldValues = boardCustomFieldValues loc definitions (Obj []), createError = None\<rparr>"

text \<open>The effect when the definitions of the board's fields change.\<close>

definition redefine_create :: "(string \<Rightarrow> string \<Rightarrow> int) \<Rightarrow> custom_field list \<Rightarrow> create_form \<Rightarrow> create_form" where
  "redefine_create loc definitions form =
     form\<lparr>createCustomFieldValues := boardCustomFieldValues loc definitions (Obj (createCustomFieldValues form))\<rparr>"

definition handleCreateTask_begin ::
  "(int \<Rightarrow> int) \<Rightarrow> custom_field list \<Rightarrow> bool \<Rightarrow> string option \<Rightarrow> create_form \<Rightarrow> (string + js_record) option" where
  "handleCreateTask_begin tz definitions isSignedIn boardId form =
     (if \<not> isSignedIn \<or> boardId \<bind> truthy_str = None then None
      else if trim (newTitle form) = [] then Some (Inl ''Add a task title to continue.'')
      else (let payload = customFieldPayload definitions (createCustomFieldValues form);
                body = [(''title'', Str (trim (newTitle form))),
                        (''description'', opt_json (truthy_str (trim (newDescription form)))),
                        (''status'', Str ''inbox''), (''priority'', Str (newPriority form)),
                        (''due_at'', opt_json (localDateInputToUtcIso tz (Some (createDueDate form)))),
                        (''tag_ids'', Arr (map Str (createTagIds form))),
                        (''custom_field_values'', Obj payload)]
            in case firstMissingRequiredCustomField definitions payload of
                 Some name \<Rightarrow> if name \<noteq> [] then Some (Inl (required_message name)) else Some (Inr body)
               | None \<Rightarrow> Some (Inr body)))"

section \<open>Options of the selects\<close>

record select_option =
  so_value :: js
  so_label :: string
  so_disabled :: bool

definition tag_options :: "js_record list \<Rightarrow> string list \<Rightarrow> select_option list" where
  "tag_options tags selected =
     map (\<lambda>tag. \<lparr>so_value = row_id tag,
                 so_label = text_field tag ''name'' @ '' (#'' @ to_upper (normalizeTagColor (str_prop tag ''color'')) @ '')'',
                 so_disabled = (row_id tag \<in> set (map Str selected))\<rparr>) tags"

definition dependencyOptions :: "js_record list \<Rightarrow> js_record option \<Rightarrow> string list \<Rightarrow> select_option list" where
  "dependencyOptions rows selected chosen =
     (case selected of
        None \<Rightarrow> []
      | Some task \<Rightarrow>
          map (\<lambda>t. \<lparr>so_value = row_id t,
                    so_label = text_field t ''title'' @ '' ('' @ replace_char (CHR ''_'') (CHR '' '') (text_field t ''status'') @ '')'',
                    so_disabled = (row_id t \<in> set (map Str chosen))\<rparr>)
            (filter (\<lambda>t. row_id t \<noteq> row_id task) rows))"

section \<open>The form and the stream\<close>

text \<open>
  The page with its edit form. The effect that fills the form runs after every render in
  which \<open>selectedTask\<close> is another object, and a task event about the selected task always
  stores a new one.
\<close>

record page =
  page_board :: board_state
  page_form :: edit_form

definition selected_replaced :: "task_payload \<Rightarrow> board_state \<Rightarrow> bool" where
  "selected_replaced payload b \<longleftrightarrow>
     (case (tp_task payload, selectedTask b) of
        (Some incomingTask, Some task) \<Rightarrow>
          selectedTaskIdRef b = Some (row_id incomingTask) \<and> row_id task = row_id incomingTask
          \<and> \<not> (case tp_comment payload of
                 Some comment \<Rightarrow> truthy (get_prop comment ''task_id'') \<and> tp_type payload = Some ''task.comment''
               | None \<Rightarrow> False)
      | _ \<Rightarrow> False)"

definition page_task_frame ::
  "(int \<Rightarrow> int) \<Rightarrow> (int \<Rightarrow> int) \<Rightarrow> (string \<Rightarrow> string \<Rightarrow> int) \<Rightarrow> custom_field list \<Rightarrow> task_payload \<Rightarrow> page \<Rightarrow> page" where
  "page_task_frame tz lt loc definitions payload p =
     (let b = rendered (task_frame tz payload (page_board p))
      in \<lparr>page_board = b,
          page_form = (if selected_replaced payload (page_board p)
                       then form_of_task tz lt loc definitions (selectedTask b) else page_form p)\<rparr>)"

section \<open>The form starts clean\<close>

lemma form_values:
  assumes "distinct (map field_key definitions)" and "stored_values v" and "list_all stored_default definitions"
  shows "customFieldPayload definitions (boardCustomFieldValues loc definitions v)
    = boardCustomFieldValues loc definitions v"
  unfolding payload_entries [OF assms(1)] board_values [OF assms(1)]
proof (rule map_cong [OF refl])
  fix d
  assume d: "d \<in> set definitions"
  have "get_prop (map (\<lambda>d. (field_key d, board_value loc v d)) definitions) (field_key d) = board_value loc v d"
    by (simp add: get_prop_def entry_of [OF assms(1) d])
  moreover have "board_value loc v d \<noteq> Undefined"
    using board_value_ok [OF assms(2), of d loc] assms(3) d by (auto simp: list_all_iff)
  ultimately show "(field_key d, js_coalesce (get_prop (map (\<lambda>d. (field_key d, board_value loc v d)) definitions) (field_key d)) Null)
      = (field_key d, board_value loc v d)"
    by (simp add: js_coalesce_def nullish_def)
qed

lemma form_clean:
  assumes "distinct (map field_key definitions)" and "list_all stored_default definitions"
    and "stored_values (get_prop task ''custom_field_values'')" and "trim (text_field task ''title'') = text_field task ''title''"
  shows "\<not> hasTaskChanges tz lt loc definitions (Some task) (form_of_task tz lt loc definitions (Some task))"
  using assms form_values [OF assms(1,3,2)]
  by (simp add: hasTaskChanges_def form_of_task_def customs_changed_def)

text \<open>after a reset the edit form has no unsaved changes, whatever was typed, if the stored title is trimmed.\<close>

theorem reset_form_clean:
  assumes "distinct (map field_key definitions)" and "list_all stored_default definitions"
    and "stored_values (get_prop task ''custom_field_values'')" and "trim (text_field task ''title'') = text_field task ''title''"
  shows "\<not> hasTaskChanges tz lt loc definitions (Some task) (handleTaskReset tz lt loc definitions (Some task) form)"
  using form_clean [OF assms] by (simp add: handleTaskReset_def)

lemma sample_title: "trim (text_field (sample_task i) ''title'') = text_field (sample_task i) ''title''"
proof -
  have "trim ''T'' = ''T''" by (rule trim_plain; code_simp)
  then show ?thesis by (simp add: sample_task_def text_field_def str_prop_def get_prop_def)
qed

lemma sample_stored: "stored_values (get_prop (sample_task i) ''custom_field_values'')"
  "list_all stored_default [sample_field FText Null]" "distinct (map field_key [sample_field FText Null])"
  by (simp_all add: stored_values_def stored_default_def sample_task_def get_prop_def)

definition utc :: "int \<Rightarrow> int" where
  "utc t = t"

theorem reset_form_clean_witness:
  "\<not> hasTaskChanges utc utc string_cmp [sample_field FText Null] (Some (sample_task ''a''))
     (handleTaskReset utc utc string_cmp [sample_field FText Null] (Some (sample_task ''a''))
        (form_of_task utc utc string_cmp [] None\<lparr>editTitle := ''typed''\<rparr>))"
  by (rule reset_form_clean [OF sample_stored(3,2,1) sample_title])

section \<open>The button and the request agree\<close>

text \<open>Arrays without objects are compared the same way by both.\<close>

fun arrays_flat :: "js \<Rightarrow> bool" where
  "arrays_flat (Arr xs) = list_all (\<lambda>x. \<not> isRecordObject x) xs"
| "arrays_flat _ = True"

lemma flat_entry: "arrays_flat v \<Longrightarrow> normal_entry loc v = normal_value loc v"
proof (cases v)
  case (Arr xs)
  assume "arrays_flat v"
  with Arr have "(case item of Obj ps \<Rightarrow> Obj (normalizeCustomFieldValues loc item) | _ \<Rightarrow> item) = item"
    if "item \<in> set xs" for item
    using that by (cases item) (auto simp: list_all_iff)
  then show ?thesis using Arr by (simp add: normal_entry_def normal_value_def map_idI)
qed (simp_all add: normal_entry_def normal_value_def)

lemma json_stringify_inj:
  "json_ok v \<Longrightarrow> json_ok w \<Longrightarrow>
   coalesce (json_stringify v) ''undefined'' = coalesce (json_stringify w) ''undefined'' \<longleftrightarrow> v = w"
  using json_stringify_parse [of v] json_stringify_parse [of w] by (auto dest: sym)

lemma canonical_objects_equal:
  assumes "json_ok (Obj ps)" and "json_ok (Obj qs)"
  shows "canonicalizeCustomFieldValues loc (Obj ps) = canonicalizeCustomFieldValues loc (Obj qs)
     \<longleftrightarrow> normalizeCustomFieldValues loc (Obj ps) = normalizeCustomFieldValues loc (Obj qs)"
proof -
  from json_stringify_inj [OF normal_object_ok [OF assms(1)] normal_object_ok [OF assms(2)]] show ?thesis by (simp add: canonicalizeCustomFieldValues_def)
qed

lemma normalize_per_definition:
  assumes "distinct (map field_key definitions)"
  shows "normalizeCustomFieldValues loc (Obj (map (\<lambda>d. (field_key d, f d)) definitions)) =
    map (\<lambda>d. (field_key d, normal_entry loc (f d))) (js_sort (cmp_on loc field_key) definitions)"
proof -
  have "distinct (map fst (map (\<lambda>d. (field_key d, f d)) definitions))" using assms by (simp add: comp_def)
  moreover have "js_sort (cmp_on loc fst) (map (\<lambda>d. (field_key d, f d)) definitions) =
      map (\<lambda>d. (field_key d, f d)) (js_sort (cmp_on loc field_key) definitions)"
    by (rule js_sort_map) (simp add: cmp_on_def)
  ultimately show ?thesis by (simp add: normalize_entries)
qed

definition edited_entry :: "edit_form \<Rightarrow> custom_field \<Rightarrow> js" where
  "edited_entry form d = js_coalesce (get_prop (editCustomFieldValues form) (field_key d)) Null"

text \<open>C15: the custom fields enable the save button exactly when the request would carry a patch, if no array holds objects.\<close>

theorem changes_match_patch:
  assumes "distinct (map field_key definitions)" and "list_all stored_default definitions"
    and "stored_values (get_prop task ''custom_field_values'')"
    and "list_all (\<lambda>d. json_ok (edited_entry form d)) definitions"
    and "list_all (\<lambda>d. arrays_flat (edited_entry form d)
           \<and> arrays_flat (board_value loc (get_prop task ''custom_field_values'') d)) definitions"
  shows "customs_changed loc definitions task form \<longleftrightarrow> edit_patch loc definitions task form \<noteq> []"
proof -
  define cur where "cur = board_value loc (get_prop task ''custom_field_values'')"
  define new where "new = edited_entry form"
  have current: "boardCustomFieldValues loc definitions (get_prop task ''custom_field_values'') = map (\<lambda>d. (field_key d, cur d)) definitions"
    by (simp add: board_values [OF assms(1)] cur_def)
  have edited: "customFieldPayload definitions (editCustomFieldValues form) = map (\<lambda>d. (field_key d, new d)) definitions"
    by (simp add: payload_entries [OF assms(1)] new_def edited_entry_def)
  have ok: "json_ok (cur d)" "json_ok (new d)" "arrays_flat (cur d)" "arrays_flat (new d)" if "d \<in> set definitions" for d
    using that assms board_value_ok [OF assms(3), of d loc] by (simp_all add: list_all_iff cur_def new_def)
  have objects: "json_ok (Obj (map (\<lambda>d. (field_key d, cur d)) definitions))" "json_ok (Obj (map (\<lambda>d. (field_key d, new d)) definitions))"
    using ok assms(1) by (auto simp: comp_def)
  have "customs_changed loc definitions task form \<longleftrightarrow> (\<exists>d \<in> set definitions. normal_entry loc (cur d) \<noteq> normal_entry loc (new d))"
    unfolding customs_changed_def current edited canonical_objects_equal [OF objects] normalize_per_definition [OF assms(1)]
    by auto
  also have "\<dots> \<longleftrightarrow> (\<exists>d \<in> set definitions. normal_value loc (cur d) \<noteq> normal_value loc (new d))"
    using ok flat_entry by auto
  also have "\<dots> \<longleftrightarrow> (\<exists>k. own_prop (edit_patch loc definitions task form) k)"
    unfolding edit_patch_def current edited own_prop_map map_of_patch
    using canonical_value_iff [OF ok(1,2)]
    by (auto simp: same_custom_value_def own_or_null_of entry_of [OF assms(1)])
  also have "\<dots> \<longleftrightarrow> edit_patch loc definitions task form \<noteq> []"
    by (cases "edit_patch loc definitions task form") (auto simp: own_prop_def)
  finally show ?thesis .
qed

definition typed_form :: "js \<Rightarrow> edit_form" where
  "typed_form v = form_of_task utc utc string_cmp [] None\<lparr>editTitle := ''T'', editCustomFieldValues := [(''k'', v)]\<rparr>"

theorem changes_match_patch_witness:
  "customs_changed string_cmp [sample_field FText Null] (sample_task ''a'') (typed_form (Str ''x'')) \<longleftrightarrow>
     edit_patch string_cmp [sample_field FText Null] (sample_task ''a'') (typed_form (Str ''x'')) \<noteq> []"
  by (rule changes_match_patch [OF sample_stored(3,2,1)])
    (simp_all add: edited_entry_def typed_form_def get_prop_def js_coalesce_def nullish_def board_value_def
      own_prop_def sample_task_def normalize_other)

text \<open>With objects in an array the two differ: the patch is not empty, the button is disabled.\<close>

definition pair_list :: "bool \<Rightarrow> js" where
  "pair_list swap =
     Arr [Obj (if swap then [(''b'', Null), (''a'', Null)] else [(''a'', Null), (''b'', Null)])]"

lemma hidden_reorder:
  "\<not> customs_changed string_cmp [sample_field FJson Null]
      [(''custom_field_values'', Obj [(''k'', pair_list False)])] (typed_form (pair_list True))
   \<and> edit_patch string_cmp [sample_field FJson Null]
      [(''custom_field_values'', Obj [(''k'', pair_list False)])] (typed_form (pair_list True)) \<noteq> []"
  by code_simp

section \<open>What is sent\<close>

lemma first_missing_label:
  "firstMissingRequiredCustomField ds vs = Some name \<Longrightarrow> list_all (\<lambda>d. field_key d \<noteq> []) ds \<Longrightarrow> name \<noteq> []"
  by (induction ds) (auto simp: field_label_def split: if_splits option.splits)

lemma missing_in_patch:
  "firstMissingRequiredCustomField
      (filter (\<lambda>d. own_prop (edit_patch loc definitions task form) (field_key d)) definitions)
      (edit_patch loc definitions task form) = None \<longleftrightarrow>
   list_all (\<lambda>d. cf_required d = Some True
        \<and> nullish (own_or_null (customFieldPayload definitions (editCustomFieldValues form)) (field_key d)) \<longrightarrow>
      same_custom_value loc (boardCustomFieldValues loc definitions (get_prop task ''custom_field_values''))
        (customFieldPayload definitions (editCustomFieldValues form)) (field_key d)) definitions"
  unfolding edit_patch_def by (rule required_kept)

text \<open>Two lists of ids give the same text exactly when one is a reordering of the other.\<close>

definition plain_ids :: "string list \<Rightarrow> bool" where
  "plain_ids ids \<longleftrightarrow> list_all (\<lambda>i. i \<noteq> [] \<and> CHR ''|'' \<notin> set i) ids"

lemma join_plain: "plain_ids xs \<Longrightarrow> plain_ids ys \<Longrightarrow> join ''|'' xs = join ''|'' ys \<Longrightarrow> xs = ys"
proof (induction xs arbitrary: ys)
  case Nil
  then show ?case by (cases ys) (auto simp: plain_ids_def join_rest)
next
  case (Cons x xs)
  then obtain y ys' where ys: "ys = y # ys'" by (cases ys) (auto simp: plain_ids_def join_rest)
  have first: "takeWhile (\<lambda>c. c \<noteq> CHR ''|'') (join ''|'' (i # ids)) = i" if "plain_ids (i # ids)" for i ids
  proof -
    have "takeWhile (\<lambda>c. c \<noteq> CHR ''|'') i = i" using that by (auto simp: plain_ids_def takeWhile_eq_all_conv)
    then show ?thesis using that by (auto simp: join_rest plain_ids_def takeWhile_append2)
  qed
  have "x = y" using first [of x xs] first [of y ys'] Cons.prems ys by simp
  with Cons ys show ?case by (auto simp: join_rest plain_ids_def split: if_splits)
qed

lemma sorted_ids_eq:
  assumes "plain_ids xs" and "plain_ids ys"
  shows "sorted_ids xs = sorted_ids ys \<longleftrightarrow> mset xs = mset ys"
proof
  assume "sorted_ids xs = sorted_ids ys"
  then have "js_sort string_cmp xs = js_sort string_cmp ys"
    using assms by (intro join_plain) (simp_all add: sorted_ids_def plain_ids_def list_all_iff)
  then show "mset xs = mset ys" by (metis mset_js_sort)
next
  assume "mset xs = mset ys"
  then have "js_sort string_cmp xs = js_sort string_cmp ys"
    by (intro sorted_wrt_unique [where R = "\<lambda>a b. string_cmp a b \<le> 0"] code_units.sorted_js_sort)
      (simp, metis string_cmp_minus string_cmp_eq antisym neg_le_0_iff_le)
  then show "sorted_ids xs = sorted_ids ys" by (simp add: sorted_ids_def)
qed

lemma save_accepted:
  assumes "list_all (\<lambda>d. field_key d \<noteq> []) definitions"
  shows "handleTaskSave_begin tz lt loc definitions isSignedIn boardId (Some task) form = Some (Inr body) \<longleftrightarrow>
    isSignedIn \<and> boardId \<bind> truthy_str \<noteq> None \<and> trim (editTitle form) \<noteq> []
    \<and> list_all (\<lambda>d. cf_required d = Some True
          \<and> nullish (own_or_null (customFieldPayload definitions (editCustomFieldValues form)) (field_key d)) \<longrightarrow>
        same_custom_value loc (boardCustomFieldValues loc definitions (get_prop task ''custom_field_values''))
          (customFieldPayload definitions (editCustomFieldValues form)) (field_key d)) definitions
    \<and> body = save_payload tz lt task form (edit_patch loc definitions task form)"
proof -
  define patch where "patch = edit_patch loc definitions task form"
  define missing where
    "missing = firstMissingRequiredCustomField (filter (\<lambda>d. own_prop patch (field_key d)) definitions) patch"
  have "missing \<noteq> Some []"
    using first_missing_label [of _ patch "[]"] assms unfolding missing_def by (fastforce simp: list_all_iff)
  then have "handleTaskSave_begin tz lt loc definitions isSignedIn boardId (Some task) form = Some (Inr body) \<longleftrightarrow>
      isSignedIn \<and> boardId \<bind> truthy_str \<noteq> None \<and> trim (editTitle form) \<noteq> [] \<and> missing = None
      \<and> body = save_payload tz lt task form patch"
    by (auto simp: handleTaskSave_begin_def Let_def missing_def [symmetric] patch_def [symmetric] split: option.splits)
  then show ?thesis unfolding missing_def patch_def missing_in_patch by simp
qed

lemma payload_get:
  "get_prop (save_payload tz lt task form patch) ''title'' = Str (trim (editTitle form))"
  "get_prop (save_payload tz lt task form patch) ''description'' = opt_json (truthy_str (trim (editDescription form)))"
  "get_prop (save_payload tz lt task form patch) ''status'' = Str (editStatus form)"
  "get_prop (save_payload tz lt task form patch) ''priority'' = Str (editPriority form)"
  "get_prop (save_payload tz lt task form patch) ''assigned_agent_id'' = opt_json (truthy_str (editAssigneeId form))"
  "get_prop (save_payload tz lt task form patch) ''depends_on_task_ids'' =
     (if sorted_ids (ids_field task ''depends_on_task_ids'') \<noteq> sorted_ids (editDependsOnTaskIds form)
         \<and> text_field task ''status'' \<noteq> ''done''
      then Arr (map Str (editDependsOnTaskIds form)) else Undefined)"
  "get_prop (save_payload tz lt task form patch) ''tag_ids'' =
     (if sorted_ids (ids_field task ''tag_ids'') \<noteq> sorted_ids (editTagIds form)
      then Arr (map Str (editTagIds form)) else Undefined)"
  "get_prop (save_payload tz lt task form patch) ''due_at'' =
     (if editDueDate form \<noteq> toLocalDateInput tz lt (str_prop task ''due_at'')
      then opt_json (localDateInputToUtcIso tz (Some (editDueDate form))) else Undefined)"
  "get_prop (save_payload tz lt task form patch) ''custom_field_values'' =
     (if patch \<noteq> [] then Obj patch else Undefined)"
  by (simp_all add: save_payload_def get_prop_def)

lemma payload_keys:
  "set (map fst (save_payload tz lt task form patch)) \<subseteq>
     {''title'', ''description'', ''status'', ''priority'', ''assigned_agent_id'', ''depends_on_task_ids'', ''tag_ids'',
      ''due_at'', ''custom_field_values''}"
  by (auto simp: save_payload_def)

lemma save_described:
  assumes "plain_ids (editTagIds form)" and "plain_ids (ids_field task ''tag_ids'')"
    and "plain_ids (editDependsOnTaskIds form)" and "plain_ids (ids_field task ''depends_on_task_ids'')"
  shows "get_prop (save_payload tz lt task form patch) ''title'' = Str (trim (editTitle form))
  \<and> get_prop (save_payload tz lt task form patch) ''description'' =
      (if trim (editDescription form) = [] then Null else Str (trim (editDescription form)))
  \<and> get_prop (save_payload tz lt task form patch) ''status'' = Str (editStatus form)
  \<and> get_prop (save_payload tz lt task form patch) ''priority'' = Str (editPriority form)
  \<and> get_prop (save_payload tz lt task form patch) ''assigned_agent_id'' = (if editAssigneeId form = [] then Null else Str (editAssigneeId form))
  \<and> get_prop (save_payload tz lt task form patch) ''depends_on_task_ids'' =
      (if mset (ids_field task ''depends_on_task_ids'') \<noteq> mset (editDependsOnTaskIds form)
          \<and> get_prop task ''status'' \<noteq> Str ''done''
      then Arr (map Str (editDependsOnTaskIds form)) else Undefined)
  \<and> get_prop (save_payload tz lt task form patch) ''tag_ids'' =
      (if mset (ids_field task ''tag_ids'') \<noteq> mset (editTagIds form)
      then Arr (map Str (editTagIds form)) else Undefined)
  \<and> get_prop (save_payload tz lt task form patch) ''due_at'' =
      (if editDueDate form \<noteq> toLocalDateInput tz lt (str_prop task ''due_at'')
      then opt_json (localDateInputToUtcIso tz (Some (editDueDate form))) else Undefined)
  \<and> get_prop (save_payload tz lt task form patch) ''custom_field_values'' =
      (if patch \<noteq> [] then Obj patch else Undefined)
  \<and> set (map fst (save_payload tz lt task form patch)) \<subseteq>
      {''title'', ''description'', ''status'', ''priority'', ''assigned_agent_id'', ''depends_on_task_ids'',
      ''tag_ids'', ''due_at'', ''custom_field_values''}"
proof -
  have done_field: "text_field task ''status'' = ''done'' \<longleftrightarrow> get_prop task ''status'' = Str ''done''"
    by (cases "get_prop task ''status''") (simp_all add: text_field_def str_prop_def)
  have optional: "opt_json (truthy_str t) = (if t = [] then Null else Str t)" for t
    by (simp add: opt_json_def truthy_str_def)
  show ?thesis
    unfolding payload_get done_field optional sorted_ids_eq [OF assms(2,1)] sorted_ids_eq [OF assms(4,3)]
    by (intro conjI refl payload_keys)
qed

text \<open>C29: which request handleTaskSave sends: a signed-in user with a title whose edit empties no required field sends the trimmed title, the trimmed description or null, status, priority and the assignee or null, and of dependencies (unless the task is done), tags, due date and custom fields those that changed, and nothing else; every other edit is refused.\<close>

theorem save_sends_iff:
  assumes "list_all (\<lambda>d. field_key d \<noteq> []) definitions"
    and "plain_ids (editTagIds form)" and "plain_ids (ids_field task ''tag_ids'')"
    and "plain_ids (editDependsOnTaskIds form)" and "plain_ids (ids_field task ''depends_on_task_ids'')"
    and "result = handleTaskSave_begin tz lt loc definitions isSignedIn boardId (Some task) form"
  shows "((\<exists>body. result = Some (Inr body)) \<longleftrightarrow>
      isSignedIn \<and> boardId \<bind> truthy_str \<noteq> None \<and> trim (editTitle form) \<noteq> []
      \<and> list_all (\<lambda>d. cf_required d = Some True
            \<and> nullish (own_or_null (customFieldPayload definitions (editCustomFieldValues form)) (field_key d)) \<longrightarrow>
          same_custom_value loc (boardCustomFieldValues loc definitions (get_prop task ''custom_field_values''))
            (customFieldPayload definitions (editCustomFieldValues form)) (field_key d)) definitions)
    \<and> (\<forall>body. result = Some (Inr body) \<longrightarrow>
        get_prop body ''title'' = Str (trim (editTitle form))
      \<and> get_prop body ''description'' =
          (if trim (editDescription form) = [] then Null else Str (trim (editDescription form)))
      \<and> get_prop body ''status'' = Str (editStatus form)
      \<and> get_prop body ''priority'' = Str (editPriority form)
      \<and> get_prop body ''assigned_agent_id'' = (if editAssigneeId form = [] then Null else Str (editAssigneeId form))
      \<and> get_prop body ''depends_on_task_ids'' =
          (if mset (ids_field task ''depends_on_task_ids'') \<noteq> mset (editDependsOnTaskIds form)
              \<and> get_prop task ''status'' \<noteq> Str ''done''
           then Arr (map Str (editDependsOnTaskIds form)) else Undefined)
      \<and> get_prop body ''tag_ids'' =
          (if mset (ids_field task ''tag_ids'') \<noteq> mset (editTagIds form)
           then Arr (map Str (editTagIds form)) else Undefined)
      \<and> get_prop body ''due_at'' =
          (if editDueDate form \<noteq> toLocalDateInput tz lt (str_prop task ''due_at'')
           then opt_json (localDateInputToUtcIso tz (Some (editDueDate form))) else Undefined)
      \<and> get_prop body ''custom_field_values'' =
          (if edit_patch loc definitions task form \<noteq> [] then Obj (edit_patch loc definitions task form) else Undefined)
      \<and> set (map fst body) \<subseteq>
          {''title'', ''description'', ''status'', ''priority'', ''assigned_agent_id'', ''depends_on_task_ids'',
           ''tag_ids'', ''due_at'', ''custom_field_values''})"
proof -
  note accepted = save_accepted [OF assms(1), of tz lt loc isSignedIn boardId task form, folded assms(6)]
  show ?thesis unfolding accepted
    by (rule conjI, blast, intro allI impI, elim conjE, hypsubst, rule save_described [OF assms(2-5)])
qed

definition titled_form :: edit_form where
  "titled_form = typed_form (Str ''x'')\<lparr>editDescription := '' d '', editTagIds := [''u''], editDependsOnTaskIds := [''v'']\<rparr>"

theorem save_sends_iff_witness:
  "(\<exists>body. handleTaskSave_begin utc utc string_cmp [sample_field FText Null] True (Some ''b'')
       (Some (sample_task ''a'')) titled_form = Some (Inr body))
   \<and> \<not> (\<exists>body. handleTaskSave_begin utc utc string_cmp [sample_field FText Null] False (Some ''b'')
       (Some (sample_task ''a'')) titled_form = Some (Inr body))"
proof -
  have title: "trim ''T'' = ''T''" by (rule trim_plain; code_simp)
  have keys: "list_all (\<lambda>d. field_key d \<noteq> []) [sample_field FText Null]" by code_simp
  have ids: "plain_ids (editTagIds titled_form)" "plain_ids (ids_field (sample_task ''a'') ''tag_ids'')"
    "plain_ids (editDependsOnTaskIds titled_form)" "plain_ids (ids_field (sample_task ''a'') ''depends_on_task_ids'')"
    by code_simp+
  note sends = save_sends_iff [OF keys ids refl, THEN conjunct1]
  show ?thesis unfolding sends by (simp add: title titled_form_def typed_form_def own_or_null_def own_prop_def
      customFieldPayload_def get_prop_def nullish_def map_set_def)
qed

lemma payload_due:
  assumes "editDueDate form \<noteq> toLocalDateInput tz lt (str_prop task ''due_at'')"
  shows "get_prop (save_payload tz lt task form patch) ''due_at''
    = opt_json (localDateInputToUtcIso tz (Some (editDueDate form)))"
  using assms by (simp add: save_payload_def get_prop_def)

text \<open>
  The backend keeps \<open>due_at\<close> as a datetime (\<open>TaskUpdate\<close> and \<open>Task\<close>) and writes it
  again in its responses: without the fraction when it is zero, else with six digits, and
  with \<open>Z\<close> or, from the database's column without time zone, with no offset.
\<close>

definition api_datetime :: "string \<Rightarrow> int \<Rightarrow> string" where
  "api_datetime zone ms =
     (let (y, m, d) = civil_from_days (ms div ms_per_day); t = ms mod ms_per_day
      in pad 4 y @ ''-'' @ pad 2 m @ ''-'' @ pad 2 d @ ''T'' @ pad 2 (t div 3600000) @ '':''
         @ pad 2 (t div 60000 mod 60) @ '':'' @ pad 2 (t div 1000 mod 60)
         @ (if t mod 1000 = 0 then [] else ''.'' @ pad 3 (t mod 1000) @ ''000'') @ zone)"

lemma api_datetime_example: "api_datetime [] 1709164800000 = ''2024-02-29T00:00:00''"
  by code_simp

lemma parse_clock:
  assumes "0 \<le> t" and "t < ms_per_day"
    and "clock = pad 2 (t div 3600000) @ '':'' @ pad 2 (t div 60000 mod 60) @ '':'' @ pad 2 (t div 1000 mod 60)
         @ (if t mod 1000 = 0 then [] else ''.'' @ pad 3 (t mod 1000) @ ''000'') @ ''Z''"
  shows "parse_time clock = Some (t, Some 0)"
proof -
  define h mi sec f where "h = t div 3600000" and "mi = t div 60000 mod 60" and "sec = t div 1000 mod 60" and "f = t mod 1000"
  have bounds: "0 \<le> h" "h < 24" "0 \<le> mi" "mi < 60" "0 \<le> sec" "sec < 60" "0 \<le> f" "f < 1000"
    unfolding h_def mi_def sec_def f_def by (rule time_parts [OF assms(1,2)], rule time_parts [OF assms(1,2)]) simp_all
  define fraction where "fraction = (if f = 0 then [] else ''.'' @ pad 3 f @ ''000'')"
  have off: "parse_offset ''Z'' = Some (Some 0)" by (simp add: parse_offset_def)
  have digit: "is_digit (CHR ''0'')" "\<not> is_digit (CHR ''Z'')" by code_simp+
  note p = pad_digits [of f 3]
  have "takeWhile is_digit (pad 3 f @ ''000Z'') = pad 3 f @ ''000''"
    using p bounds digit by (simp add: takeWhile_append2 list_all_iff)
  moreover have "frac_ms (pad 3 f @ ''000'') = f" using p bounds by (simp add: frac_ms_def)
  ultimately have parsed: "parse_fraction (fraction @ ''Z'') = Some (f, ''Z'')"
    using p bounds by (simp add: parse_fraction_def fraction_def)
  have "clock = pad 2 h @ '':'' @ pad 2 mi @ '':'' @ pad 2 sec @ fraction @ ''Z''"
    by (simp add: assms(3) h_def mi_def sec_def f_def fraction_def)
  then have "parse_time clock = Some (((h * 60 + mi) * 60 + sec) * 1000 + f, Some 0)"
    using bounds parsed by (simp add: parse_time_def take_pad2 off)
  then show ?thesis unfolding h_def mi_def sec_def f_def time_parts(1) [OF assms(1,2)] .
qed

lemma marks_no_digits:
  "\<not> is_digit (CHR ''z'')" "\<not> is_digit (CHR ''Z'')" "\<not> is_digit (CHR ''+'')" "\<not> is_digit (CHR ''-'')"
  by (simp_all add: is_digit_def char_code_def)

lemma plain_marks: "plain_char (CHR ''0'')" "plain_char (CHR ''Z'')"
  by code_simp+

lemma api_datetime_parts:
  assumes "civil_from_days (ms div ms_per_day) = (y, m, d)" and "0 \<le> y" and "y \<le> 9999"
  obtains date clock where "\<And>zone. api_datetime zone ms = date @ clock @ zone"
    and "plain_char (hd date)" and "date \<noteq> []" and "plain_char (last clock)" and "10 < length date" and "6 \<le> length clock"
    and "set date \<inter> set ''zZ'' = {}" and "set clock \<inter> set ''zZ+-'' = {}"
proof
  define t where "t = ms mod ms_per_day"
  have t: "0 \<le> t" "t < ms_per_day" by (simp_all add: t_def ms_per_day_def)
  have v: "valid_date y m d" using make_day_of_date [OF assms(1)] by simp
  define date where "date = pad 4 y @ ''-'' @ pad 2 m @ ''-'' @ pad 2 d @ ''T''"
  define seconds where "seconds = pad 2 (t div 1000 mod 60)"
  define clock where "clock = pad 2 (t div 3600000) @ '':'' @ pad 2 (t div 60000 mod 60) @ '':'' @ seconds
         @ (if t mod 1000 = 0 then [] else ''.'' @ pad 3 (t mod 1000) @ ''000'')"
  have digits: "length (pad 4 y) = 4" "list_all is_digit (pad 4 y)" "length (pad 2 m) = 2" "list_all is_digit (pad 2 m)"
    "length (pad 2 d) = 2" "list_all is_digit (pad 2 d)"
    using pad_digits [of y 4] pad_digits [of m 2] pad_digits [of d 2] padded_bounds [OF v] assms(2,3) by simp_all
  have two: "length (pad 2 i) = 2" "list_all is_digit (pad 2 i)" if "0 \<le> i" "i < 100" for i :: int
    using pad_digits [of i 2] that by simp_all
  have three: "length (pad 3 i) = 3" "list_all is_digit (pad 3 i)" if "0 \<le> i" "i < 1000" for i :: int
    using pad_digits [of i 3] that by simp_all
  have bounds: "0 \<le> t div 3600000" "t div 3600000 < 100" "0 \<le> k mod 60" "k mod 60 < 100" for k :: int
    using time_parts(2,3) [OF t] pos_mod_bound [of 60 k] by simp_all
  have clock_digits: "length (pad 2 (t div 3600000)) = 2" "list_all is_digit (pad 2 (t div 3600000))"
    "length (pad 2 (t div 60000 mod 60)) = 2" "list_all is_digit (pad 2 (t div 60000 mod 60))"
    "length seconds = 2" "list_all is_digit seconds"
    "length (pad 3 (t mod 1000)) = 3" "list_all is_digit (pad 3 (t mod 1000))"
    unfolding seconds_def by (rule two three; rule bounds pos_mod_sign pos_mod_bound | simp)+
  have no: "\<not> is_digit (CHR ''z'')" "\<not> is_digit (CHR ''Z'')" "\<not> is_digit (CHR ''+'')" "\<not> is_digit (CHR ''-'')"
    and zero: "plain_char (CHR ''0'')" by (rule marks_no_digits plain_marks)+
  show "api_datetime zone ms = date @ clock @ zone" for zone
    by (simp add: api_datetime_def assms(1) t_def [symmetric] date_def clock_def seconds_def)
  have "pad 4 y \<noteq> []" "seconds \<noteq> []" using digits clock_digits by auto
  then show "plain_char (hd date)" "plain_char (last clock)"
    using digits clock_digits digit_plain hd_digits [of "pad 4 y"] last_digits [of seconds] zero
    by (simp_all add: date_def clock_def)
  show "date \<noteq> []" "10 < length date" "6 \<le> length clock" using digits clock_digits by (simp_all add: date_def clock_def)
  have absent: "c \<notin> set p" if "list_all is_digit p" "\<not> is_digit c" for p c
    using that by (auto simp: list_all_iff)
  note absent = absent [OF digits(2)] absent [OF digits(4)] absent [OF digits(6)] absent [OF clock_digits(2)]
    absent [OF clock_digits(4)] absent [OF clock_digits(6)] absent [OF clock_digits(8)]
  show "set date \<inter> set ''zZ'' = {}" "set clock \<inter> set ''zZ+-'' = {}"
    using no by (simp_all add: date_def clock_def absent)
qed

lemma api_datetime_normal:
  assumes "civil_from_days (ms div ms_per_day) = (y, m, d)" and "0 \<le> y" and "y \<le> 9999" and "zone \<in> {[], ''Z''}"
  shows "api_datetime zone ms \<noteq> []" and "normalizeApiDatetime (api_datetime zone ms) = api_datetime ''Z'' ms"
proof -
  obtain date clock where parts: "\<And>zone. api_datetime zone ms = date @ clock @ zone"
    "plain_char (hd date)" "date \<noteq> []" "plain_char (last clock)" "10 < length date" "6 \<le> length clock"
    "set date \<inter> set ''zZ'' = {}" "set clock \<inter> set ''zZ+-'' = {}"
    by (rule api_datetime_parts [OF assms(1-3)]) blast
  show "api_datetime zone ms \<noteq> []" using parts(1,3) by simp
  have "clock \<noteq> []" using parts(6) by auto
  then have trim: "trim (date @ clock @ zone) = date @ clock @ zone"
    using parts assms(4) plain_marks(2) by (intro trim_plain) auto
  have offset: "\<not> ends_with_offset (date @ clock)"
  proof
    assume "ends_with_offset (date @ clock)"
    then have "drop (length clock - 6) clock ! 0 \<in> set ''+-''"
      using parts(6) by (simp add: ends_with_offset_def Let_def)
    moreover have "drop (length clock - 6) clock ! 0 \<in> set clock"
      using parts(6) by (metis \<open>clock \<noteq> []\<close> add_0_right diff_less length_greater_0_conv nth_drop nth_mem zero_less_numeral diff_le_self)
    ultimately show False using parts(8) by auto
  qed
  have "HAS_TZ_RE (date @ clock @ zone) \<longleftrightarrow> zone = ''Z''" and "\<not> DATE_ONLY_RE (date @ clock @ zone)"
    using parts(5,7,8) offset assms(4) by (auto simp: HAS_TZ_RE_def DATE_ONLY_RE_def)
  then show "normalizeApiDatetime (api_datetime zone ms) = api_datetime ''Z'' ms"
    using trim parts(3) assms(4) by (auto simp: normalizeApiDatetime_def Let_def parts(1))
qed

lemma parse_api_datetime:
  assumes "civil_from_days (ms div ms_per_day) = (y, m, d)" and "0 \<le> y" and "y \<le> 9999" and "zone \<in> {[], ''Z''}"
  shows "parseApiDatetime tz (Some (api_datetime zone ms)) = Some ms"
proof -
  define t where "t = ms mod ms_per_day"
  have t: "0 \<le> t" "t < ms_per_day" by (simp_all add: t_def ms_per_day_def)
  define clock where "clock = pad 2 (t div 3600000) @ '':'' @ pad 2 (t div 60000 mod 60) @ '':'' @ pad 2 (t div 1000 mod 60)
         @ (if t mod 1000 = 0 then [] else ''.'' @ pad 3 (t mod 1000) @ ''000'') @ ''Z''"
  note time = parse_clock [OF t clock_def] and date = make_day_of_date [OF assms(1)]
  have "api_datetime ''Z'' ms = pad 4 y @ ''-'' @ pad 2 m @ ''-'' @ pad 2 d @ ''T'' @ clock"
    by (simp add: api_datetime_def assms(1) clock_def t_def [symmetric])
  moreover have "parse_date (pad 4 y @ ''-'' @ pad 2 m @ ''-'' @ pad 2 d @ ''T'' @ clock) = Some ((y, m, d), ''T'' @ clock)"
    by (rule parse_padded_date [OF date(2) assms(2,3)]) simp
  ultimately have "date_parse tz (api_datetime ''Z'' ms) = Some ms"
    using time date(1) by (simp add: date_parse_def t_def)
  then show ?thesis using api_datetime_normal [OF assms] by (simp add: parseApiDatetime_def)
qed

text \<open>
  What the code relies on of the backend's JSON layer: the date-time that the browser
  sends is read and written again as the same instant.
\<close>

definition datetime_server :: "(string \<Rightarrow> string) \<Rightarrow> string \<Rightarrow> bool" where
  "datetime_server serve zone \<longleftrightarrow>
     zone \<in> {[], ''Z''} \<and>
     (\<forall>ms. fst (civil_from_days (ms div ms_per_day)) \<in> {1..9999} \<longrightarrow> serve (toISOString ms) = api_datetime zone ms)"

definition served_value :: "(string \<Rightarrow> string) \<Rightarrow> js \<Rightarrow> js" where
  "served_value serve v = (case v of Str s \<Rightarrow> Str (serve s) | _ \<Rightarrow> v)"

text \<open>C30: a due date that is picked and saved is the one the form shows of the stored task, in the form the backend writes date-times, if the day starts on that day in the browser's time zone.\<close>

theorem due_date_round_trip:
  assumes "editDueDate form = date_text y m d" and "valid_date y m d" and "1000 \<le> y" and "y \<le> 9998"
    and "regular_day tz lt (make_day y m d)"
    and "date_text y m d \<noteq> toLocalDateInput tz lt (str_prop task ''due_at'')"
    and "datetime_server serve zone"
    and "get_prop stored ''due_at'' = served_value serve (get_prop (save_payload tz lt task form patch) ''due_at'')"
  shows "editDueDate (form_of_task tz lt loc definitions (Some stored)) = date_text y m d"
proof -
  obtain u where u: "localDateInputToUtcIso tz (Some (date_text y m d)) = Some (toISOString u)"
      "fst (civil_from_days (u div ms_per_day)) \<in> {1..9999}"
      "lt u div ms_per_day = make_day y m d"
    by (rule date_input_sent [OF assms(2-5)])
  obtain y' m' d' where c: "civil_from_days (u div ms_per_day) = (y', m', d')" by (metis prod_cases3)
  have "get_prop stored ''due_at'' = Str (serve (toISOString u))"
    using assms(8) payload_due [of form tz lt task patch] assms(1,6) u(1) by (simp add: served_value_def opt_json_def)
  moreover have "serve (toISOString u) = api_datetime zone u" "zone \<in> {[], ''Z''}"
    using assms(7) u(2) by (simp_all add: datetime_server_def)
  ultimately have "parseApiDatetime tz (str_prop stored ''due_at'') = Some u"
    using parse_api_datetime [OF c, of zone tz] u(2) c by (simp add: str_prop_def)
  then show ?thesis
    using u(3) date_of_make_day [OF assms(2)] show_year [of y] assms(3,4)
    by (simp add: form_of_task_def toLocalDateInput_def date_text_def)
qed

lemma utc_regular: "regular_day utc utc day"
  by (simp add: regular_day_def utc_def ms_per_day_def)

text \<open>A server that reads the text with the browser's parser, and one round trip through it.\<close>

definition sample_server :: "string \<Rightarrow> string" where
  "sample_server s = (case date_parse utc s of Some ms \<Rightarrow> api_datetime [] ms | None \<Rightarrow> s)"

lemma sample_server: "datetime_server sample_server []"
  unfolding datetime_server_def sample_server_def
proof (intro conjI allI impI)
  fix ms :: int
  assume year: "fst (civil_from_days (ms div ms_per_day)) \<in> {1..9999}"
  obtain y m d where c: "civil_from_days (ms div ms_per_day) = (y, m, d)" by (metis prod_cases3)
  show "(case date_parse utc (toISOString ms) of Some ms \<Rightarrow> api_datetime [] ms | None \<Rightarrow> toISOString ms) = api_datetime [] ms"
    using date_parse_iso [OF c, of utc] year c by simp
qed simp

theorem due_date_round_trip_witness:
  "editDueDate (form_of_task utc utc string_cmp []
     (Some [(''due_at'', served_value sample_server (get_prop (save_payload utc utc (sample_task ''a'')
        (typed_form Null\<lparr>editDueDate := date_text 2024 2 29\<rparr>) []) ''due_at''))])) = date_text 2024 2 29"
proof (rule due_date_round_trip)
  show "valid_date 2024 2 29" by (simp add: valid_date_def month_length_def leap_def)
  show "date_text 2024 2 29 \<noteq> toLocalDateInput utc utc (str_prop (sample_task ''a'') ''due_at'')"
    using date_text_trimmed(2) [of 2024 2 29]
    by (simp add: valid_date_def month_length_def leap_def toLocalDateInput_def sample_task_def str_prop_def
        get_prop_def parseApiDatetime_def)
  show "datetime_server sample_server []" by (rule sample_server)
qed (simp_all add: utc_regular get_prop_def)

section \<open>Edits and events\<close>

lemma selected_after_event:
  assumes "selectedTask b = Some task" and "selectedTaskIdRef b = Some (row_id task)"
    and "tp_task payload = Some event" and "tp_comment payload = None" and "row_id event = row_id task"
  shows "selectedTask (rendered (task_frame tz payload b)) = merge_selected event (Some task)"
    and "selected_replaced payload b"
  using assms
  by (auto simp: task_frame_def put_incoming_def Let_def rendered_def push_feed_def selected_replaced_def split: option.split)

text \<open>C14: an event about the open task throws away what was typed: the form shows the stored task again and the save button is disabled.\<close>

theorem event_discards_edits:
  assumes "selectedTask b = Some task" and "selectedTaskIdRef b = Some (row_id task)"
    and "tp_task payload = Some event" and "tp_comment payload = None" and "row_id event = row_id task"
    and "get_prop event ''title'' = get_prop task ''title''" and "trim (text_field task ''title'') = text_field task ''title''"
    and "distinct (map field_key definitions)" and "list_all stored_default definitions"
    and "stored_values (get_prop task ''custom_field_values'')" and "stored_values (get_prop event ''custom_field_values'')"
    and "p' = page_task_frame tz lt loc definitions payload \<lparr>page_board = b, page_form = typed\<rparr>"
  shows "editTitle (page_form p') = text_field task ''title'' \<and>
    \<not> hasTaskChanges tz lt loc definitions (selectedTask (page_board p')) (page_form p')"
proof (rule conjI)
  obtain now where now: "merge_selected event (Some task) = Some now"
    using assms(5) by (auto simp: merge_selected_def)
  note selected = selected_after_event [OF assms(1-5)]
  have board: "selectedTask (page_board p') = Some now"
    and form: "page_form p' = form_of_task tz lt loc definitions (Some now)"
    using selected now by (simp_all add: assms(12) page_task_frame_def Let_def)
  have fields: "get_prop now ''title'' = get_prop task ''title''"
    "get_prop now ''custom_field_values'' =
      (if get_prop event ''custom_field_values'' \<noteq> Undefined then get_prop event ''custom_field_values''
       else get_prop task ''custom_field_values'')"
    using now assms(5) get_prop_spread_same [OF assms(6)]
    by (auto simp: merge_selected_def get_prop_spread [of _ "[(''custom_field_values'', _)]"] split: if_splits)
  have title: "text_field now ''title'' = text_field task ''title''" using fields(1) by (simp add: text_field_def str_prop_def)
  then show "editTitle (page_form p') = text_field task ''title''" by (simp add: form form_of_task_def)
  have "stored_values (get_prop now ''custom_field_values'')" using fields(2) assms(10,11) by simp
  from form_clean [OF assms(8,9) this] title assms(7)
  show "\<not> hasTaskChanges tz lt loc definitions (selectedTask (page_board p')) (page_form p')"
    by (simp add: board form)
qed

definition open_board :: board_state where
  "open_board = initial_board\<lparr>selectedTask := Some (sample_task ''a''), selectedTaskIdRef := Some (Str ''a'')\<rparr>"

theorem event_discards_edits_witness:
  "editTitle (page_form (page_task_frame utc utc string_cmp [sample_field FText Null] (task_event (sample_task ''a''))
     \<lparr>page_board = open_board, page_form = typed_form (Str ''x'')\<lparr>editTitle := ''Typed''\<rparr>\<rparr>)) = ''T''"
proof -
  have row: "row_id (sample_task ''a'') = Str ''a''" by (simp add: row_id_def sample_task_def get_prop_def)
  have title: "text_field (sample_task ''a'') ''title'' = ''T''"
    by (simp add: sample_task_def text_field_def str_prop_def get_prop_def)
  have "selectedTask open_board = Some (sample_task ''a'')" "selectedTaskIdRef open_board = Some (row_id (sample_task ''a''))"
    by (simp_all add: open_board_def row)
  from event_discards_edits [OF this _ _ refl refl sample_title sample_stored(3,2,1) sample_stored(1) refl,
      of "task_event (sample_task ''a'')"]
  show ?thesis by (simp add: task_event_def title)
qed

end
