(* ===== verification/ActivityPage.thy ===== *)
theory ActivityPage
  imports LiveFeed EventStream
begin

text \<open>
  The activity page (\<open>src/app/activity/page.tsx\<close>): one feed for all boards. Which event it
  shows how, where each item links to, the lists it is filled from (boards, their snapshots,
  pages of the activity log), the four streams that add to it, its filter in the URL and the
  item an address selects. The routes come from the backend
  (\<open>backend/app/api/activity.py\<close>).
\<close>

section \<open>Routes\<close>

type_synonym route_params = "(string \<times> string) list"

record RoutedEvent = ActivityEventRead +
  ae_route_name :: "string option"
  ae_route_params :: js

text \<open>
  \<open>Object.entries\<close> of a value that came as JSON; assigning a string to \<open>__proto__\<close>
  of a plain object does nothing.
\<close>

fun object_entries :: "js \<Rightarrow> (string \<times> js) list" where
  "object_entries (Obj p) = p"
| "object_entries (Arr vs) = map (\<lambda>(i, v). (show_nat i, v)) (enumerate 0 vs)"
| "object_entries _ = []"

fun text_entry :: "string \<times> js \<Rightarrow> (string \<times> string) option" where
  "text_entry (key, Str v) = (if v = [] \<or> key = ''__proto__'' then None else Some (key, v))"
| "text_entry _ = None"

definition normalizeRouteParams :: "js \<Rightarrow> route_params" where
  "normalizeRouteParams params = List.map_filter text_entry (object_entries params)"

definition route_param :: "string \<Rightarrow> route_params \<Rightarrow> string option" where
  "route_param k ps = map_of ps k"

record route_fallback =
  fb_eventId :: string
  fb_eventType :: string
  fb_createdAt :: string
  fb_taskId :: "string option"

definition truthy_option :: "string option \<Rightarrow> string option" where
  "truthy_option v = (case v of None \<Rightarrow> None | Some s \<Rightarrow> truthy_str s)"

definition ACTIVITY_FEED_PATH :: string where
  "ACTIVITY_FEED_PATH = ''/activity''"

definition activity_query :: "route_params \<Rightarrow> route_fallback \<Rightarrow> search_params" where
  "activity_query routeParams fallback =
     (let params = (if routeParams \<noteq> [] then routeParams
                    else [(''eventId'', fb_eventId fallback), (''eventType'', fb_eventType fallback),
                          (''createdAt'', fb_createdAt fallback)])
      in case truthy_option (fb_taskId fallback) of
           None \<Rightarrow> params
         | Some t \<Rightarrow> if params_get ''taskId'' params = None then params_set ''taskId'' t params else params)"

definition board_query :: "route_params \<Rightarrow> search_params" where
  "board_query routeParams =
     foldl (\<lambda>params (key, v). if key \<noteq> ''boardId'' then params_set key v params else params) [] routeParams"

definition with_query :: "string \<Rightarrow> string \<Rightarrow> string" where
  "with_query path query = (if query \<noteq> [] then path @ ''?'' @ query else path)"

definition buildRouteHref :: "string option \<Rightarrow> route_params \<Rightarrow> route_fallback \<Rightarrow> string" where
  "buildRouteHref routeName routeParams fallback =
     (let boardId = truthy_option (route_param ''boardId'' routeParams);
          feed = ACTIVITY_FEED_PATH @ ''?'' @ params_to_string (activity_query routeParams fallback)
      in case boardId of
           None \<Rightarrow> feed
         | Some b \<Rightarrow>
             if routeName = Some ''board.approvals'' then ''/boards/'' @ encodeURIComponent b @ ''/approvals''
             else if routeName = Some ''board''
             then with_query (''/boards/'' @ encodeURIComponent b) (params_to_string (board_query routeParams))
             else feed)"

definition buildBoardHref :: "route_params \<Rightarrow> string option \<Rightarrow> string option" where
  "buildBoardHref routeParams boardId =
     (case truthy_option (case route_param ''boardId'' routeParams of Some b \<Rightarrow> Some b | None \<Rightarrow> boardId) of
        None \<Rightarrow> None
      | Some resolved \<Rightarrow> Some (''/boards/'' @ encodeURIComponent resolved))"

text \<open>The routes as the backend chooses them; ids and times are already text.\<close>

record backend_event =
  be_id :: string
  be_event_type :: string
  be_created_at :: string
  be_task_id :: "string option"

definition build_activity_route :: "backend_event \<Rightarrow> string option \<Rightarrow> string \<times> route_params" where
  "build_activity_route event board_id =
     (case board_id of
        Some b \<Rightarrow>
          (let board_params = [(''boardId'', b)] in
           case be_task_id event of
             Some t \<Rightarrow>
               if be_event_type event = ''task.comment''
               then (''board'', board_params @ [(''taskId'', t), (''commentId'', be_id event)])
               else if starts_with (be_event_type event) ''approval.'' then (''board.approvals'', board_params)
               else if starts_with (be_event_type event) ''board.'' then (''board'', board_params @ [(''panel'', ''chat'')])
               else (''board'', board_params @ [(''taskId'', t)])
           | None \<Rightarrow>
               if starts_with (be_event_type event) ''approval.'' then (''board.approvals'', board_params)
               else if starts_with (be_event_type event) ''board.'' then (''board'', board_params @ [(''panel'', ''chat'')])
               else (''board'', board_params))
      | None \<Rightarrow>
          (''activity'', [(''eventId'', be_id event), (''eventType'', be_event_type event),
                        (''createdAt'', be_created_at event)]
             @ (case be_task_id event of None \<Rightarrow> [] | Some t \<Rightarrow> [(''taskId'', t)])))"

text \<open>
  How the backend sends an event: with its board and route from the log (\<open>list_activity\<close>),
  without them in the frames of a task stream (\<open>_task_event_payload\<close>).
\<close>

definition served :: "string option \<Rightarrow> RoutedEvent \<Rightarrow> RoutedEvent" where
  "served board_id event =
     (let route = build_activity_route
            \<lparr>be_id = ae_id event, be_event_type = ae_event_type event,
             be_created_at = ae_created_at event, be_task_id = ae_task_id event\<rparr> board_id
      in event\<lparr>ae_board_id := board_id, ae_route_name := Some (fst route),
               ae_route_params := Obj (map (\<lambda>(k, v). (k, Str v)) (snd route))\<rparr>)"

definition streamed :: "RoutedEvent \<Rightarrow> RoutedEvent" where
  "streamed event = event\<lparr>ae_board_id := None, ae_route_name := None, ae_route_params := Undefined\<rparr>"

section \<open>Labels\<close>

definition eventLabel :: "string \<Rightarrow> string" where
  "eventLabel eventType =
     (if eventType = ''task.comment'' then ''Comment''
      else if eventType = ''task.assignee_notified'' then ''Assigned''
      else if eventType = ''task.assignee_notify_failed'' then ''Assign failed''
      else if eventType = ''task.rework_notified'' then ''Rework''
      else if eventType = ''task.rework_notify_failed'' then ''Rework failed''
      else if eventType = ''task.lead_notified'' then ''Lead notified''
      else if eventType = ''task.lead_notify_failed'' then ''Lead failed''
      else if eventType = ''task.lead_unassigned_notified'' then ''Lead inbox''
      else if eventType = ''task.lead_unassigned_notify_failed'' then ''Lead inbox failed''
      else if eventType = ''task.execution_run.created'' then ''Run queued''
      else if eventType = ''task.execution_run.dispatched'' then ''Run sent''
      else if eventType = ''task.execution_run.retried'' then ''Run retried''
      else if eventType = ''task.execution_run.updated'' then ''Run update''
      else if eventType = ''task.execution_run.report'' then ''Run report''
      else if eventType = ''task.execution_run.acknowledged'' then ''Run acknowledged''
      else if eventType = ''task.execution_run.escalated'' then ''Run escalated''
      else if eventType = ''task.created'' then ''Created''
      else if eventType = ''task.status_changed'' then ''Status''
      else if eventType = ''board.chat'' then ''Chat''
      else if eventType = ''board.command'' then ''Command''
      else if eventType = ''agent.created'' then ''Agent''
      else if eventType = ''agent.online'' then ''Online''
      else if eventType = ''agent.offline'' then ''Offline''
      else if eventType = ''agent.updated'' then ''Agent update''
      else if eventType = ''agent.heartbeat'' then ''Heartbeat''
      else if eventType = ''agent.wakeup.sent'' then ''Wakeup''
      else if eventType = ''agent.delete.direct'' then ''Deleted''
      else if starts_with eventType ''agent.'' \<and> ends_with eventType ''.direct'' then ''Lifecycle''
      else if starts_with eventType ''agent.'' \<and> ends_with eventType ''.failed'' then ''Lifecycle failed''
      else if eventType = ''approval.created'' then ''Approval''
      else if eventType = ''approval.updated'' then ''Approval update''
      else if eventType = ''approval.approved'' then ''Approved''
      else if eventType = ''approval.rejected'' then ''Rejected''
      else if eventType = ''silo.request.created'' then ''Request created''
      else if eventType = ''silo.request.planned'' then ''Request planned''
      else if eventType = ''silo.request.cancelled'' then ''Request cancelled''
      else if eventType = ''silo.request.materialized'' then ''Request materialized''
      else if starts_with eventType ''silo.request.'' then ''Silo request''
      else if eventType = ''silo.runtime.validate'' then ''Runtime validate''
      else if eventType = ''silo.runtime.apply'' then ''Runtime apply''
      else if eventType = ''queue.worker.batch_started'' then ''Worker start''
      else if eventType = ''queue.worker.batch_complete'' then ''Worker batch''
      else if eventType = ''queue.worker.stopped'' then ''Worker stopped''
      else if eventType = ''queue.worker.success'' then ''Worker success''
      else if eventType = ''queue.worker.failed'' then ''Worker failed''
      else if starts_with eventType ''queue.worker.'' then ''Worker''
      else if starts_with eventType ''board.group.'' \<and> ends_with eventType ''.notified'' then ''Group notified''
      else if starts_with eventType ''board.group.'' \<and> ends_with eventType ''.notify_failed'' then ''Group failed''
      else if eventType = ''board.lead_notified'' then ''Board lead''
      else if eventType = ''board.lead_notify_failed'' then ''Board lead failed''
      else if eventType = ''agent.nudge.sent'' then ''Nudge''
      else if eventType = ''agent.nudge.failed'' then ''Nudge failed''
      else if eventType = ''agent.soul.updated'' then ''SOUL updated''
      else if eventType = ''gateway.lead.ask_user.sent'' then ''Ask user''
      else if eventType = ''gateway.lead.ask_user.failed'' then ''Ask user failed''
      else if eventType = ''gateway.main.lead_message.sent'' then ''Lead message''
      else if eventType = ''gateway.main.lead_message.failed'' then ''Lead message failed''
      else if eventType = ''gateway.main.lead_broadcast.sent'' then ''Lead broadcast''
      else if eventType = ''webhook.dispatch.batch_started'' then ''Webhook batch''
      else if eventType = ''webhook.dispatch.batch_complete'' then ''Webhook batch''
      else if eventType = ''webhook.dispatch.batch_finished'' then ''Webhook finished''
      else if eventType = ''webhook.dispatch.success'' then ''Webhook sent''
      else if eventType = ''webhook.dispatch.failed'' then ''Webhook failed''
      else if eventType = ''webhook.dispatch.requeued'' then ''Webhook retried''
      else ''Updated'')"

definition eventPillClass :: "string \<Rightarrow> string" where
  "eventPillClass eventType =
     (if eventType = ''task.comment'' then ''border-blue-200 bg-blue-50 text-blue-700''
      else if eventType = ''task.assignee_notified'' then ''border-emerald-200 bg-emerald-50 text-emerald-700''
      else if eventType = ''task.assignee_notify_failed'' then ''border-rose-200 bg-rose-50 text-rose-700''
      else if eventType = ''task.rework_notified'' then ''border-orange-200 bg-orange-50 text-orange-700''
      else if eventType = ''task.rework_notify_failed'' then ''border-rose-200 bg-rose-50 text-rose-700''
      else if eventType = ''task.lead_notified'' then ''border-cyan-200 bg-cyan-50 text-cyan-700''
      else if eventType = ''task.lead_notify_failed'' then ''border-rose-200 bg-rose-50 text-rose-700''
      else if eventType = ''task.lead_unassigned_notified'' then ''border-amber-200 bg-amber-50 text-amber-700''
      else if eventType = ''task.lead_unassigned_notify_failed'' then ''border-rose-200 bg-rose-50 text-rose-700''
      else if eventType = ''task.execution_run.created'' then ''border-amber-200 bg-amber-50 text-amber-700''
      else if eventType = ''task.execution_run.dispatched'' then ''border-indigo-200 bg-indigo-50 text-indigo-700''
      else if eventType = ''task.execution_run.retried'' then ''border-orange-200 bg-orange-50 text-orange-700''
      else if eventType = ''task.execution_run.updated'' then ''border-sky-200 bg-sky-50 text-sky-700''
      else if eventType = ''task.execution_run.report'' then ''border-cyan-200 bg-cyan-50 text-cyan-700''
      else if eventType = ''task.execution_run.acknowledged'' then ''border-emerald-200 bg-emerald-50 text-emerald-700''
      else if eventType = ''task.execution_run.escalated'' then ''border-violet-200 bg-violet-50 text-violet-700''
      else if eventType = ''task.created'' then ''border-emerald-200 bg-emerald-50 text-emerald-700''
      else if eventType = ''task.status_changed'' then ''border-amber-200 bg-amber-50 text-amber-700''
      else if eventType = ''board.chat'' then ''border-teal-200 bg-teal-50 text-teal-700''
      else if eventType = ''board.command'' then ''border-fuchsia-200 bg-fuchsia-50 text-fuchsia-700''
      else if eventType = ''agent.created'' then ''border-violet-200 bg-violet-50 text-violet-700''
      else if eventType = ''agent.online'' then ''border-lime-200 bg-lime-50 text-lime-700''
      else if eventType = ''agent.offline'' then ''border-slate-300 bg-slate-100 text-slate-700''
      else if eventType = ''agent.updated'' then ''border-indigo-200 bg-indigo-50 text-indigo-700''
      else if eventType = ''agent.heartbeat'' then ''border-lime-200 bg-lime-50 text-lime-700''
      else if eventType = ''agent.wakeup.sent'' then ''border-cyan-200 bg-cyan-50 text-cyan-700''
      else if eventType = ''agent.delete.direct'' then ''border-slate-300 bg-slate-100 text-slate-700''
      else if starts_with eventType ''agent.'' \<and> ends_with eventType ''.direct'' then ''border-violet-200 bg-violet-50 text-violet-700''
      else if starts_with eventType ''agent.'' \<and> ends_with eventType ''.failed'' then ''border-rose-200 bg-rose-50 text-rose-700''
      else if eventType = ''approval.created'' then ''border-cyan-200 bg-cyan-50 text-cyan-700''
      else if eventType = ''approval.updated'' then ''border-sky-200 bg-sky-50 text-sky-700''
      else if eventType = ''approval.approved'' then ''border-emerald-200 bg-emerald-50 text-emerald-700''
      else if eventType = ''approval.rejected'' then ''border-rose-200 bg-rose-50 text-rose-700''
      else if eventType = ''silo.request.created'' \<or> eventType = ''silo.request.planned'' then ''border-sky-200 bg-sky-50 text-sky-700''
      else if eventType = ''silo.request.materialized'' then ''border-emerald-200 bg-emerald-50 text-emerald-700''
      else if eventType = ''silo.request.cancelled'' then ''border-amber-200 bg-amber-50 text-amber-700''
      else if starts_with eventType ''silo.request.'' then ''border-slate-200 bg-slate-100 text-slate-700''
      else if eventType = ''silo.runtime.validate'' then ''border-sky-200 bg-sky-50 text-sky-700''
      else if eventType = ''silo.runtime.apply'' then ''border-indigo-200 bg-indigo-50 text-indigo-700''
      else if eventType = ''queue.worker.success'' \<or> eventType = ''queue.worker.batch_complete'' then ''border-emerald-200 bg-emerald-50 text-emerald-700''
      else if eventType = ''queue.worker.failed'' \<or> eventType = ''queue.worker.dequeue_failed'' then ''border-rose-200 bg-rose-50 text-rose-700''
      else if starts_with eventType ''queue.worker.'' then ''border-slate-200 bg-slate-100 text-slate-700''
      else if eventType = ''webhook.dispatch.success'' \<or> eventType = ''webhook.dispatch.batch_complete'' then ''border-emerald-200 bg-emerald-50 text-emerald-700''
      else if eventType = ''webhook.dispatch.failed'' then ''border-rose-200 bg-rose-50 text-rose-700''
      else if eventType = ''webhook.dispatch.requeued'' then ''border-amber-200 bg-amber-50 text-amber-700''
      else if starts_with eventType ''webhook.dispatch.'' then ''border-sky-200 bg-sky-50 text-sky-700''
      else if starts_with eventType ''board.group.'' \<and> ends_with eventType ''.notified'' then ''border-teal-200 bg-teal-50 text-teal-700''
      else if starts_with eventType ''board.group.'' \<and> ends_with eventType ''.notify_failed'' then ''border-rose-200 bg-rose-50 text-rose-700''
      else if eventType = ''board.lead_notified'' then ''border-cyan-200 bg-cyan-50 text-cyan-700''
      else if eventType = ''board.lead_notify_failed'' then ''border-rose-200 bg-rose-50 text-rose-700''
      else if eventType = ''agent.nudge.sent'' then ''border-indigo-200 bg-indigo-50 text-indigo-700''
      else if eventType = ''agent.nudge.failed'' then ''border-rose-200 bg-rose-50 text-rose-700''
      else if eventType = ''agent.soul.updated'' then ''border-violet-200 bg-violet-50 text-violet-700''
      else if eventType = ''gateway.lead.ask_user.sent'' then ''border-fuchsia-200 bg-fuchsia-50 text-fuchsia-700''
      else if eventType = ''gateway.lead.ask_user.failed'' then ''border-rose-200 bg-rose-50 text-rose-700''
      else if eventType = ''gateway.main.lead_message.sent'' then ''border-sky-200 bg-sky-50 text-sky-700''
      else if eventType = ''gateway.main.lead_message.failed'' then ''border-rose-200 bg-rose-50 text-rose-700''
      else if eventType = ''gateway.main.lead_broadcast.sent'' then ''border-amber-200 bg-amber-50 text-amber-700''
      else ''border-slate-200 bg-slate-100 text-slate-700'')"

section \<open>Names and states\<close>

definition normalizeActivityAgent :: "js_record \<Rightarrow> js_record" where
  "normalizeActivityAgent agent =
     with_prop ''status'' (Str (text_or (trim (coalesce (str_prop agent ''status'') ''offline'')) ''offline'')) agent"

definition normalizeStatus :: "string option \<Rightarrow> string" where
  "normalizeStatus v = text_or (to_lower (trim (coalesce v []))) ''offline''"

definition humanizeApprovalAction :: "string \<Rightarrow> string" where
  "humanizeApprovalAction v =
     (let cleaned = trim (collapse_separators v)
      in if cleaned = [] then ''Approval'' else capitalize cleaned)"

definition humanizeStatus :: "string \<Rightarrow> string" where
  "humanizeStatus v = text_or (trim (replace_char (CHR ''_'') (CHR '' '') v)) ''offline''"

definition roleFromAgent :: "js_record option \<Rightarrow> string option" where
  "roleFromAgent agent =
     (case agent of
        None \<Rightarrow> None
      | Some a \<Rightarrow>
          (case get_prop a ''identity_profile'' of
             Obj profile \<Rightarrow>
               (case get_prop profile ''role'' of Str role \<Rightarrow> truthy_str (trim role) | _ \<Rightarrow> None)
           | _ \<Rightarrow> None))"

text \<open>
  \<open>feedItemElementId\<close>: one dash for each UTF-16 unit that is not allowed, so none for
  the later bytes of a character and two for a character of four bytes.
\<close>

definition element_char :: "char \<Rightarrow> string" where
  "element_char c =
     (let n = char_code c
      in if is_alnum c \<or> c = CHR ''_'' \<or> c = CHR ''-'' then [c]
         else if n < 128 \<or> 192 \<le> n \<and> n < 240 then ''-''
         else if n < 192 then [] else ''--'')"

definition feedItemElementId :: "string \<Rightarrow> string" where
  "feedItemElementId i = ''activity-item-'' @ concat (map element_char i)"

section \<open>The page's state\<close>

record FeedItem =
  fi_id :: string
  fi_created_at :: string
  fi_event_type :: string
  fi_message :: "string option"
  fi_payload :: js
  fi_source_event_id :: "string option"
  fi_agent_id :: "string option"
  fi_actor_name :: string
  fi_actor_role :: "string option"
  fi_board_id :: "string option"
  fi_board_name :: "string option"
  fi_board_href :: "string option"
  fi_task_id :: "string option"
  fi_task_title :: "string option"
  fi_title :: string
  fi_context_href :: "string option"

record TaskMeta =
  tm_title :: string
  tm_boardId :: "string option"

text \<open>
  What the page keeps: the feed and the flags that are shown, and the references that
  callbacks read and write at once: the ids already taken, and the boards, tasks, agents and
  approvals by id.
\<close>

record activity_state =
  feedItems :: "FeedItem list"
  boards :: "js_record list"
  feedError :: "string option"
  isFeedLoading :: bool
  seenIds :: "string list"
  boardsById :: "(string \<times> js_record) list"
  taskMetaById :: "(string \<times> TaskMeta) list"
  agentsById :: "(string \<times> js_record) list"
  approvalsById :: "(string \<times> js_record) list"

definition MAX_FEED_ITEMS :: nat where
  "MAX_FEED_ITEMS = 300"

definition PAGED_LIMIT :: nat where
  "PAGED_LIMIT = 200"

definition PAGED_MAX :: nat where
  "PAGED_MAX = 1000"

definition pushFeedItem :: "FeedItem \<Rightarrow> activity_state \<Rightarrow> activity_state" where
  "pushFeedItem item s =
     (if fi_id item \<in> set (seenIds s) then s
      else s\<lparr>seenIds := set_add (fi_id item) (seenIds s),
             feedItems := take MAX_FEED_ITEMS (item # feedItems s)\<rparr>)"

record author =
  author_id :: "string option"
  author_name :: string
  author_role :: "string option"

definition resolveAuthor :: "activity_state \<Rightarrow> string option \<Rightarrow> string \<Rightarrow> author" where
  "resolveAuthor s agentId fallbackName =
     (case (case truthy_option agentId of None \<Rightarrow> None | Some i \<Rightarrow> map_of (agentsById s) i) of
        Some agent \<Rightarrow> \<lparr>author_id = Some (prop_text agent ''id''), author_name = prop_text agent ''name'',
                       author_role = roleFromAgent (Some agent)\<rparr>
      | None \<Rightarrow> \<lparr>author_id = agentId, author_name = fallbackName, author_role = None\<rparr>)"

definition boardNameForId :: "activity_state \<Rightarrow> string option \<Rightarrow> string option" where
  "boardNameForId s boardId =
     (case truthy_option boardId of
        None \<Rightarrow> None
      | Some b \<Rightarrow> (case map_of (boardsById s) b of None \<Rightarrow> None | Some board \<Rightarrow> str_prop board ''name''))"

definition updateTaskMeta :: "js_record \<Rightarrow> string \<Rightarrow> activity_state \<Rightarrow> activity_state" where
  "updateTaskMeta task fallbackBoardId s =
     s\<lparr>taskMetaById := map_set (prop_text task ''id'')
         \<lparr>tm_title = prop_text task ''title'',
          tm_boardId = Some (coalesce (str_prop task ''board_id'') fallbackBoardId)\<rparr> (taskMetaById s)\<rparr>"

section \<open>Items\<close>

definition TASK_EVENT_TYPES :: "string list" where
  "TASK_EVENT_TYPES =
     [''task.comment'', ''task.assignee_notified'', ''task.assignee_notify_failed'',
      ''task.rework_notified'', ''task.rework_notify_failed'', ''task.lead_notified'',
      ''task.lead_notify_failed'', ''task.lead_unassigned_notified'',
      ''task.lead_unassigned_notify_failed'', ''task.execution_run.created'',
      ''task.execution_run.dispatched'', ''task.execution_run.retried'',
      ''task.execution_run.updated'', ''task.execution_run.report'',
      ''task.execution_run.acknowledged'', ''task.execution_run.escalated'',
      ''task.created'', ''task.updated'', ''task.status_changed'']"

definition isTaskEventType :: "string \<Rightarrow> bool" where
  "isTaskEventType v \<longleftrightarrow> v \<in> set TASK_EVENT_TYPES"

definition first_of :: "string option list \<Rightarrow> string option" where
  "first_of vs = foldr (\<lambda>v rest. if v = None then rest else v) vs None"

definition fallback_params :: "string option \<Rightarrow> string option \<Rightarrow> route_params" where
  "fallback_params boardId taskId =
     (case truthy_option boardId of None \<Rightarrow> [] | Some b \<Rightarrow> [(''boardId'', b)])
     @ (case truthy_option taskId of None \<Rightarrow> [] | Some t \<Rightarrow> [(''taskId'', t)])"

definition effective_params :: "route_params \<Rightarrow> string option \<Rightarrow> string option \<Rightarrow> route_params" where
  "effective_params routeParams boardId taskId =
     (if routeParams \<noteq> [] then routeParams else fallback_params boardId taskId)"

definition effective_route :: "string option \<Rightarrow> string option \<Rightarrow> string option" where
  "effective_route routeName boardId =
     (if routeName \<noteq> None then routeName
      else Some (if truthy_option boardId \<noteq> None then ''board'' else ''activity''))"

definition meta_for :: "activity_state \<Rightarrow> string option \<Rightarrow> TaskMeta option" where
  "meta_for s taskId = (case truthy_option taskId of None \<Rightarrow> None | Some t \<Rightarrow> map_of (taskMetaById s) t)"

definition mapTaskActivity ::
  "activity_state \<Rightarrow> string \<Rightarrow> RoutedEvent \<Rightarrow> string option \<Rightarrow> FeedItem option" where
  "mapTaskActivity s user event fallbackBoardId =
     (if \<not> isTaskEventType (ae_event_type event) then None
      else
        (let meta = meta_for s (ae_task_id event);
             routeParams = normalizeRouteParams (ae_route_params event);
             taskId = first_of [ae_task_id event, route_param ''taskId'' routeParams];
             boardId = first_of [Option.bind meta tm_boardId, ae_board_id event,
                                 route_param ''boardId'' routeParams, fallbackBoardId];
             effectiveRouteParams = effective_params routeParams boardId taskId;
             author = resolveAuthor s (ae_agent_id event) user
         in Some \<lparr>fi_id = ''activity:'' @ ae_id event, fi_created_at = ae_created_at event,
                  fi_event_type = ae_event_type event, fi_message = ae_message event,
                  fi_payload = object_or_null (ae_payload event), fi_source_event_id = Some (ae_id event),
                  fi_agent_id = author_id author, fi_actor_name = author_name author,
                  fi_actor_role = author_role author, fi_board_id = boardId,
                  fi_board_name = boardNameForId s boardId,
                  fi_board_href = buildBoardHref effectiveRouteParams boardId,
                  fi_task_id = taskId, fi_task_title = map_option tm_title meta,
                  fi_title = (case meta of Some m \<Rightarrow> tm_title m
                              | None \<Rightarrow> if truthy_option taskId \<noteq> None then ''Unknown task'' else ''Task activity''),
                  fi_context_href = Some (buildRouteHref (effective_route (ae_route_name event) boardId)
                    effectiveRouteParams
                    \<lparr>fb_eventId = ae_id event, fb_eventType = ae_event_type event,
                     fb_createdAt = ae_created_at event, fb_taskId = taskId\<rparr>)\<rparr>))"

definition mapGenericActivity :: "activity_state \<Rightarrow> string \<Rightarrow> RoutedEvent \<Rightarrow> FeedItem" where
  "mapGenericActivity s user event =
     (let routeParams = normalizeRouteParams (ae_route_params event);
          boardId = first_of [ae_board_id event, route_param ''boardId'' routeParams];
          taskId = first_of [ae_task_id event, route_param ''taskId'' routeParams];
          effectiveRouteParams = effective_params routeParams boardId taskId;
          author = resolveAuthor s (ae_agent_id event) user;
          meta = meta_for s taskId
      in \<lparr>fi_id = ''activity:'' @ ae_id event, fi_created_at = ae_created_at event,
          fi_event_type = ae_event_type event, fi_message = ae_message event,
          fi_payload = object_or_null (ae_payload event), fi_source_event_id = Some (ae_id event),
          fi_agent_id = author_id author, fi_actor_name = author_name author,
          fi_actor_role = author_role author, fi_board_id = boardId,
          fi_board_name = boardNameForId s boardId,
          fi_board_href = buildBoardHref effectiveRouteParams boardId,
          fi_task_id = taskId, fi_task_title = map_option tm_title meta,
          fi_title = (if truthy_option taskId \<noteq> None
                      then coalesce (map_option tm_title meta) ''Task activity''
                      else eventLabel (ae_event_type event)),
          fi_context_href = Some (buildRouteHref (effective_route (ae_route_name event) boardId)
            effectiveRouteParams
            \<lparr>fb_eventId = ae_id event, fb_eventType = ae_event_type event,
             fb_createdAt = ae_created_at event, fb_taskId = taskId\<rparr>)\<rparr>)"

definition mapTaskComment :: "activity_state \<Rightarrow> string \<Rightarrow> js_record \<Rightarrow> string \<Rightarrow> FeedItem" where
  "mapTaskComment s user comment fallbackBoardId =
     (let meta = meta_for s (str_prop comment ''task_id'');
          boardId = first_of [Option.bind meta tm_boardId, Some fallbackBoardId];
          taskId = str_prop comment ''task_id'';
          i = prop_text comment ''id''; stamp = prop_text comment ''created_at'';
          routeParams = fallback_params boardId taskId @ [(''commentId'', i)];
          author = resolveAuthor s (str_prop comment ''agent_id'') user
      in \<lparr>fi_id = ''comment:'' @ i, fi_created_at = stamp, fi_event_type = ''task.comment'',
          fi_message = str_prop comment ''message'', fi_payload = Undefined, fi_source_event_id = None,
          fi_agent_id = author_id author, fi_actor_name = author_name author,
          fi_actor_role = author_role author, fi_board_id = boardId,
          fi_board_name = boardNameForId s boardId, fi_board_href = buildBoardHref routeParams boardId,
          fi_task_id = taskId, fi_task_title = map_option tm_title meta,
          fi_title = (case meta of Some m \<Rightarrow> tm_title m
                      | None \<Rightarrow> if truthy_option taskId \<noteq> None then ''Unknown task'' else ''Task activity''),
          fi_context_href = Some (buildRouteHref (Some ''board'') routeParams
            \<lparr>fb_eventId = i, fb_eventType = ''task.comment'', fb_createdAt = stamp, fb_taskId = taskId\<rparr>)\<rparr>)"

definition approval_kind :: "string \<Rightarrow> string option \<Rightarrow> string" where
  "approval_kind nextStatus previousStatus =
     (case previousStatus of
        None \<Rightarrow> if nextStatus = ''approved'' then ''approval.approved''
                else if nextStatus = ''rejected'' then ''approval.rejected'' else ''approval.created''
      | Some p \<Rightarrow> if nextStatus \<noteq> p
                 then (if nextStatus = ''approved'' then ''approval.approved''
                       else if nextStatus = ''rejected'' then ''approval.rejected'' else ''approval.updated'')
                 else ''approval.updated'')"

definition mapApprovalEvent ::
  "activity_state \<Rightarrow> string \<Rightarrow> js_record \<Rightarrow> string \<Rightarrow> js_record option \<Rightarrow> FeedItem" where
  "mapApprovalEvent s user approval boardId previous =
     (let nextStatus = coalesce (str_prop approval ''status'') ''pending'';
          previousStatus = (case previous of None \<Rightarrow> None | Some p \<Rightarrow> str_prop p ''status'');
          kind = approval_kind nextStatus previousStatus;
          stamp = (if kind = ''approval.created'' then prop_text approval ''created_at''
                   else coalesce (str_prop approval ''resolved_at'') (prop_text approval ''created_at''));
          action = humanizeApprovalAction (prop_text approval ''action_type'');
          author = resolveAuthor s (str_prop approval ''agent_id'') user;
          statusText = (if nextStatus = ''approved'' then ''approved''
                        else if nextStatus = ''rejected'' then ''rejected'' else ''pending'');
          confidence = prop_text approval ''confidence'';
          message = (if kind = ''approval.created''
                     then action @ '' requested ('' @ confidence @ ''% confidence).''
                     else if kind = ''approval.approved''
                     then action @ '' approved ('' @ confidence @ ''% confidence).''
                     else if kind = ''approval.rejected''
                     then action @ '' rejected ('' @ confidence @ ''% confidence).''
                     else action @ '' updated ('' @ statusText @ '', '' @ confidence @ ''% confidence).'');
          taskId = str_prop approval ''task_id'';
          taskMeta = meta_for s taskId;
          routeParams = [(''boardId'', boardId)];
          i = prop_text approval ''id''
      in \<lparr>fi_id = ''approval:'' @ i @ '':'' @ kind @ '':'' @ stamp, fi_created_at = stamp,
          fi_event_type = kind, fi_message = Some message, fi_payload = Undefined,
          fi_source_event_id = None, fi_agent_id = author_id author,
          fi_actor_name = author_name author, fi_actor_role = author_role author,
          fi_board_id = Some boardId, fi_board_name = boardNameForId s (Some boardId),
          fi_board_href = buildBoardHref routeParams (Some boardId),
          fi_task_id = taskId, fi_task_title = map_option tm_title taskMeta,
          fi_title = ''Approval '' @ MIDDOT @ '' '' @ action,
          fi_context_href = Some (buildRouteHref (Some ''board.approvals'') routeParams
            \<lparr>fb_eventId = i, fb_eventType = kind, fb_createdAt = stamp, fb_taskId = taskId\<rparr>)\<rparr>)"

definition mapBoardChat :: "activity_state \<Rightarrow> string \<Rightarrow> js_record \<Rightarrow> string \<Rightarrow> FeedItem" where
  "mapBoardChat s user memory boardId =
     (let content = trim (coalesce (str_prop memory ''content'') []);
          actorName = resolveHumanActorName (str_prop memory ''source'') user;
          command = starts_with content ''/'';
          kind = (if command then ''board.command'' else ''board.chat'');
          routeParams = [(''boardId'', boardId), (''panel'', ''chat'')];
          i = prop_text memory ''id''; stamp = prop_text memory ''created_at''
      in \<lparr>fi_id = ''chat:'' @ i, fi_created_at = stamp, fi_event_type = kind,
          fi_message = truthy_str content, fi_payload = Undefined, fi_source_event_id = None,
          fi_agent_id = None, fi_actor_name = actorName, fi_actor_role = None,
          fi_board_id = Some boardId, fi_board_name = boardNameForId s (Some boardId),
          fi_board_href = buildBoardHref routeParams (Some boardId),
          fi_task_id = None, fi_task_title = None,
          fi_title = (if command then ''Board command'' else ''Board chat''),
          fi_context_href = Some (buildRouteHref (Some ''board'') routeParams
            \<lparr>fb_eventId = i, fb_eventType = kind, fb_createdAt = stamp, fb_taskId = None\<rparr>)\<rparr>)"

definition agent_kind :: "js_record \<Rightarrow> js_record option \<Rightarrow> bool \<Rightarrow> string option" where
  "agent_kind agent previous isSnapshot =
     (let nextStatus = normalizeStatus (str_prop agent ''status'');
          statusChanged = (case previous of None \<Rightarrow> False
                           | Some p \<Rightarrow> nextStatus \<noteq> normalizeStatus (str_prop p ''status''));
          profileChanged = (case previous of None \<Rightarrow> False
                            | Some p \<Rightarrow> get_prop p ''name'' \<noteq> get_prop agent ''name''
                                \<or> get_prop p ''is_board_lead'' \<noteq> get_prop agent ''is_board_lead''
                                \<or> profile_differs (get_prop p ''identity_profile'') (get_prop agent ''identity_profile''))
      in if isSnapshot
         then Some (if nextStatus = ''online'' then ''agent.online''
                    else if nextStatus = ''offline'' then ''agent.offline'' else ''agent.updated'')
         else if previous = None then Some ''agent.created''
         else if statusChanged \<and> nextStatus = ''online'' then Some ''agent.online''
         else if statusChanged \<and> nextStatus = ''offline'' then Some ''agent.offline''
         else if statusChanged \<or> profileChanged then Some ''agent.updated''
         else None)"

definition mapAgentEvent ::
  "activity_state \<Rightarrow> js_record \<Rightarrow> js_record option \<Rightarrow> bool \<Rightarrow> FeedItem option" where
  "mapAgentEvent s agent previous isSnapshot =
     (case agent_kind agent previous isSnapshot of
        None \<Rightarrow> None
      | Some kind \<Rightarrow>
          (let name = prop_text agent ''name''; i = prop_text agent ''id''; stamp = agent_stamp agent;
               message = (if kind = ''agent.created'' then name @ '' joined this board.''
                          else if kind = ''agent.online'' then name @ '' is online.''
                          else if kind = ''agent.offline'' then name @ '' is offline.''
                          else name @ '' updated ('' @ humanizeStatus
                                 (normalizeStatus (str_prop agent ''status'')) @ '').'');
               boardId = str_prop agent ''board_id'';
               routeParams = fallback_params boardId None
           in Some \<lparr>fi_id = ''agent:'' @ i @ '':'' @ (if isSnapshot then ''snapshot'' else kind) @ '':'' @ stamp,
                    fi_created_at = stamp, fi_event_type = kind, fi_message = Some message,
                    fi_payload = Undefined, fi_source_event_id = None, fi_agent_id = Some i,
                    fi_actor_name = name, fi_actor_role = roleFromAgent (Some agent),
                    fi_board_id = boardId, fi_board_name = boardNameForId s boardId,
                    fi_board_href = buildBoardHref routeParams boardId,
                    fi_task_id = None, fi_task_title = None,
                    fi_title = ''Agent '' @ MIDDOT @ '' '' @ name,
                    fi_context_href = (if boardId = None then None
                      else Some (buildRouteHref (Some ''board'') routeParams
                        \<lparr>fb_eventId = i, fb_eventType = kind, fb_createdAt = stamp, fb_taskId = None\<rparr>))\<rparr>))"

section \<open>Times\<close>

definition feed_time :: "(int \<Rightarrow> int) \<Rightarrow> FeedItem \<Rightarrow> int" where
  "feed_time tz item = coalesce (apiDatetimeToMs tz (Some (fi_created_at item))) 0"

definition latestTimestamp :: "(int \<Rightarrow> int) \<Rightarrow> (FeedItem \<Rightarrow> bool) \<Rightarrow> FeedItem list \<Rightarrow> string option" where
  "latestTimestamp tz predicate items =
     (let latest = foldl (\<lambda>latest item.
          if \<not> predicate item then latest
          else if feed_time tz item > latest then feed_time tz item else latest) 0 items
      in if latest \<noteq> 0 then Some (toISOString latest) else None)"

text \<open>The items each stream counts when it asks for what is newer.\<close>

definition task_stream_item :: "string \<Rightarrow> FeedItem \<Rightarrow> bool" where
  "task_stream_item boardId item \<longleftrightarrow> fi_board_id item = Some boardId \<and> isTaskEventType (fi_event_type item)"

definition approval_stream_item :: "string \<Rightarrow> FeedItem \<Rightarrow> bool" where
  "approval_stream_item boardId item \<longleftrightarrow>
     fi_board_id item = Some boardId \<and> starts_with (fi_event_type item) ''approval.''"

definition chat_stream_item :: "string \<Rightarrow> FeedItem \<Rightarrow> bool" where
  "chat_stream_item boardId item \<longleftrightarrow>
     fi_board_id item = Some boardId
     \<and> (fi_event_type item = ''board.chat'' \<or> fi_event_type item = ''board.command'')"

definition agent_stream_item :: "FeedItem \<Rightarrow> bool" where
  "agent_stream_item item \<longleftrightarrow> starts_with (fi_event_type item) ''agent.''"

section \<open>The streams\<close>

record activity_task_payload =
  at_type :: "string option"
  at_activity :: "RoutedEvent option"
  at_task :: "js_record option"
  at_comment :: "js_record option"

definition titled :: "js_record option \<Rightarrow> FeedItem \<Rightarrow> FeedItem" where
  "titled task mapped =
     (case (case task of None \<Rightarrow> None | Some t \<Rightarrow> truthy_option (str_prop t ''title'')) of
        None \<Rightarrow> mapped
      | Some title \<Rightarrow> if truthy_option (fi_task_title mapped) = None
                      then mapped\<lparr>fi_task_title := Some title, fi_title := title\<rparr> else mapped)"

definition receive_task ::
  "string \<Rightarrow> string \<Rightarrow> activity_task_payload \<Rightarrow> activity_state \<Rightarrow> activity_state" where
  "receive_task user boardId payload s =
     (let s' = (case at_task payload of None \<Rightarrow> s | Some task \<Rightarrow> updateTaskMeta task boardId s)
      in case at_activity payload of
           Some event \<Rightarrow>
             (case mapTaskActivity s' user event (Some boardId) of
                None \<Rightarrow> s'
              | Some mapped \<Rightarrow> pushFeedItem (titled (at_task payload) mapped) s')
         | None \<Rightarrow>
             (case at_comment payload of
                None \<Rightarrow> s'
              | Some comment \<Rightarrow>
                  if at_type payload = Some ''task.comment''
                  then pushFeedItem (mapTaskComment s' user comment boardId) s' else s'))"

definition receive_approval ::
  "string \<Rightarrow> string \<Rightarrow> js_record option \<Rightarrow> activity_state \<Rightarrow> activity_state" where
  "receive_approval user boardId approval s =
     (case approval of
        None \<Rightarrow> s
      | Some a \<Rightarrow>
          (let i = prop_text a ''id'';
               previous = map_of (approvalsById s) i;
               s' = s\<lparr>approvalsById := map_set i a (approvalsById s)\<rparr>
           in pushFeedItem (mapApprovalEvent s' user a boardId previous) s'))"

fun chat_tagged :: "js \<Rightarrow> bool" where
  "chat_tagged (Arr tags) = (Str ''chat'' \<in> set tags)"
| "chat_tagged (Str s) = str_includes s ''chat''"
| "chat_tagged _ = False"

definition receive_memory ::
  "string \<Rightarrow> string \<Rightarrow> js_record option \<Rightarrow> activity_state \<Rightarrow> activity_state" where
  "receive_memory user boardId memory s =
     (case memory of
        None \<Rightarrow> s
      | Some m \<Rightarrow> if chat_tagged (get_prop m ''tags'') then pushFeedItem (mapBoardChat s user m boardId) s else s)"

definition receive_agent :: "js_record option \<Rightarrow> activity_state \<Rightarrow> activity_state" where
  "receive_agent agent s =
     (case agent of
        None \<Rightarrow> s
      | Some a \<Rightarrow>
          (let normalized = normalizeActivityAgent a; i = prop_text normalized ''id'';
               previous = map_of (agentsById s) i;
               s' = s\<lparr>agentsById := map_set i normalized (agentsById s)\<rparr>
           in case mapAgentEvent s' normalized previous False of
                None \<Rightarrow> s'
              | Some mapped \<Rightarrow> pushFeedItem mapped s'))"

section \<open>Loading\<close>

text \<open>
  \<open>loadInitial\<close> is cut where it awaits the server: it waits for a page of boards, for the
  snapshots of all boards, or for a page of the activity log. A request is rejected, with the
  message of the error when it is an \<open>Error\<close>, or answered with a status.
\<close>

datatype 'a fetched = Rejected "string option" | Answered int 'a

datatype load_phase =
  AwaitBoards nat "js_record list"
| AwaitSnapshots "js_record list"
| AwaitHistory nat "FeedItem list"

record board_snapshot =
  sn_tasks :: "js_record list"
  sn_agents :: "js_record list"
  sn_approvals :: "js_record list"
  sn_chat_messages :: "js_record list"

type_synonym page_run = "activity_state \<times> load_phase option"

definition load_failed :: "string option \<Rightarrow> activity_state \<Rightarrow> page_run" where
  "load_failed message s =
     (s\<lparr>feedError := Some (coalesce message ''Unable to load activity feed.''), isFeedLoading := False\<rparr>, None)"

definition signed_out :: "activity_state \<Rightarrow> activity_state" where
  "signed_out s =
     s\<lparr>boards := [], feedItems := [], feedError := None, isFeedLoading := False, seenIds := [],
       boardsById := [], taskMetaById := [], agentsById := [], approvalsById := []\<rparr>"

definition load_start :: "activity_state \<Rightarrow> page_run" where
  "load_start s = (s\<lparr>isFeedLoading := True, feedError := None\<rparr>, Some (AwaitBoards 0 []))"

definition last_page :: "nat \<Rightarrow> 'a list \<Rightarrow> bool" where
  "last_page offset items \<longleftrightarrow> length items < PAGED_LIMIT \<or> \<not> offset + PAGED_LIMIT < PAGED_MAX"

definition boards_loaded :: "js_record list \<Rightarrow> activity_state \<Rightarrow> activity_state" where
  "boards_loaded nextBoards s =
     s\<lparr>boards := nextBoards,
       boardsById := foldl (\<lambda>m board. map_set (prop_text board ''id'') board m) [] nextBoards\<rparr>"

definition load_boards ::
  "js_record list option fetched \<Rightarrow> nat \<Rightarrow> js_record list \<Rightarrow> activity_state \<Rightarrow> page_run" where
  "load_boards result offset nextBoards s =
     (case result of
        Rejected message \<Rightarrow> load_failed message s
      | Answered status data \<Rightarrow>
          if status \<noteq> 200 then load_failed (Some ''Unable to load boards.'') s
          else (let items = coalesce data []; all_boards = nextBoards @ items
                in if last_page offset items
                   then (boards_loaded all_boards s, Some (AwaitSnapshots all_boards))
                   else (s, Some (AwaitBoards (offset + PAGED_LIMIT) all_boards))))"

text \<open>\<open>seedSeen\<close> holds the ids of \<open>seeded\<close>.\<close>

definition seed :: "FeedItem \<Rightarrow> FeedItem list \<Rightarrow> FeedItem list" where
  "seed item seeded = (if fi_id item \<in> fi_id ` set seeded then seeded else seeded @ [item])"

definition seed_task :: "string \<Rightarrow> activity_state \<Rightarrow> js_record \<Rightarrow> activity_state" where
  "seed_task boardId s task =
     s\<lparr>taskMetaById := map_set (prop_text task ''id'')
         \<lparr>tm_title = prop_text task ''title'', tm_boardId = Some boardId\<rparr> (taskMetaById s)\<rparr>"

definition seed_agent :: "activity_state \<times> FeedItem list \<Rightarrow> js_record \<Rightarrow> activity_state \<times> FeedItem list" where
  "seed_agent run agent =
     (let (s, seeded) = run; normalized = normalizeActivityAgent agent;
          s' = s\<lparr>agentsById := map_set (prop_text normalized ''id'') normalized (agentsById s)\<rparr>
      in (s', case mapAgentEvent s' normalized None True of None \<Rightarrow> seeded | Some item \<Rightarrow> seed item seeded))"

definition seed_approval ::
  "string \<Rightarrow> string \<Rightarrow> activity_state \<times> FeedItem list \<Rightarrow> js_record \<Rightarrow> activity_state \<times> FeedItem list" where
  "seed_approval user boardId run approval =
     (let (s, seeded) = run;
          s' = s\<lparr>approvalsById := map_set (prop_text approval ''id'') approval (approvalsById s)\<rparr>
      in (s', seed (mapApprovalEvent s' user approval boardId None) seeded))"

definition seed_board ::
  "string \<Rightarrow> activity_state \<times> FeedItem list \<Rightarrow> js_record \<times> board_snapshot option \<Rightarrow> activity_state \<times> FeedItem list" where
  "seed_board user run result =
     (case result of
        (_, None) \<Rightarrow> run
      | (board, Some snapshot) \<Rightarrow>
          (let (s, seeded) = run; boardId = prop_text board ''id'';
               s1 = foldl (seed_task boardId) s (sn_tasks snapshot);
               (s2, seeded2) = foldl seed_agent (s1, seeded) (sn_agents snapshot);
               (s3, seeded3) = foldl (seed_approval user boardId) (s2, seeded2) (sn_approvals snapshot)
           in (s3, foldl (\<lambda>items memory. seed (mapBoardChat s3 user memory boardId) items)
                     seeded3 (sn_chat_messages snapshot))))"

text \<open>The snapshots are settled together, one result for each board; a failed one is skipped.\<close>

definition load_snapshots ::
  "string \<Rightarrow> board_snapshot option list \<Rightarrow> js_record list \<Rightarrow> activity_state \<Rightarrow> page_run" where
  "load_snapshots user results nextBoards s =
     (let (s', seeded) = foldl (seed_board user) (s, []) (zip nextBoards results)
      in (s', Some (AwaitHistory 0 seeded)))"

definition mapActivity :: "activity_state \<Rightarrow> string \<Rightarrow> RoutedEvent \<Rightarrow> FeedItem" where
  "mapActivity s user event = coalesce (mapTaskActivity s user event None) (mapGenericActivity s user event)"

definition seed_events :: "activity_state \<Rightarrow> string \<Rightarrow> RoutedEvent list \<Rightarrow> FeedItem list \<Rightarrow> FeedItem list" where
  "seed_events s user events seeded = foldl (\<lambda>items event. seed (mapActivity s user event) items) seeded events"

definition feed_order :: "(int \<Rightarrow> int) \<Rightarrow> FeedItem list \<Rightarrow> FeedItem list" where
  "feed_order tz items = js_sort (descending (feed_time tz)) items"

definition load_finished :: "(int \<Rightarrow> int) \<Rightarrow> FeedItem list \<Rightarrow> activity_state \<Rightarrow> activity_state" where
  "load_finished tz seeded s =
     (let next = take MAX_FEED_ITEMS (feed_order tz seeded)
      in s\<lparr>feedItems := next, seenIds := map fi_id next, isFeedLoading := False\<rparr>)"

definition load_history ::
  "(int \<Rightarrow> int) \<Rightarrow> string \<Rightarrow> RoutedEvent list option fetched \<Rightarrow> nat \<Rightarrow> FeedItem list \<Rightarrow> activity_state \<Rightarrow> page_run" where
  "load_history tz user result offset seeded s =
     (case result of
        Rejected message \<Rightarrow> load_failed message s
      | Answered status data \<Rightarrow>
          if status \<noteq> 200 then load_failed (Some ''Unable to load activity feed.'') s
          else (let items = coalesce data []; seeded' = seed_events s user items seeded
                in if last_page offset items then (load_finished tz seeded' s, None)
                   else (s, Some (AwaitHistory (offset + PAGED_LIMIT) seeded'))))"

section \<open>What is shown\<close>

fun category_name :: "ActivityCategory \<Rightarrow> string" where
  "category_name AllEvents = ''all''"
| "category_name Runs = ''runs''"
| "category_name Runtime = ''runtime''"
| "category_name Tasks = ''tasks''"
| "category_name Approvals = ''approvals''"
| "category_name Boards = ''boards''"
| "category_name Agents = ''agents''"
| "category_name Gateway = ''gateway''"
| "category_name Chat = ''chat''"

definition ACTIVITY_FILTERS :: "(string \<times> string) list" where
  "ACTIVITY_FILTERS =
     [(''all'', ''All''), (''runs'', ''Runs''), (''runtime'', ''Runtime''), (''tasks'', ''Tasks''),
      (''approvals'', ''Approvals''), (''boards'', ''Boards''), (''agents'', ''Agents''),
      (''gateway'', ''Gateway''), (''chat'', ''Chat'')]"

definition isActivityCategory :: "string option \<Rightarrow> bool" where
  "isActivityCategory v \<longleftrightarrow> list_ex (\<lambda>filter. v = Some (fst filter)) ACTIVITY_FILTERS"

definition resolveActivityFilter :: "search_params \<Rightarrow> string" where
  "resolveActivityFilter params =
     (let category = params_get ''category'' params
      in if isActivityCategory category then the category
         else if params_get ''feed'' params = Some ''runs'' then ''runs'' else ''all'')"

definition feed_mode_params :: "string \<Rightarrow> search_params \<Rightarrow> search_params" where
  "feed_mode_params nextMode params =
     (if nextMode = ''runs'' then params_set ''category'' ''runs'' (params_set ''feed'' ''runs'' params)
      else (let params' = params_delete ''feed'' params
            in if nextMode = ''all'' then params_delete ''category'' params'
               else params_set ''category'' nextMode params'))"

text \<open>The address that choosing a filter goes to.\<close>

definition updateFeedMode :: "string \<Rightarrow> string \<Rightarrow> search_params \<Rightarrow> string" where
  "updateFeedMode pathname nextMode searchParams =
     with_query pathname (params_to_string (feed_mode_params nextMode (parse_params (params_to_string searchParams))))"

definition visibleFeed :: "(int \<Rightarrow> int) \<Rightarrow> string \<Rightarrow> FeedItem list \<Rightarrow> FeedItem list" where
  "visibleFeed tz feedMode items =
     (let orderedFeed = feed_order tz items
      in if feedMode = ''all'' then orderedFeed
         else filter (\<lambda>item. category_name (activityCategoryForEvent (fi_event_type item)) = feedMode) orderedFeed)"

definition selectedEventId :: "search_params \<Rightarrow> string option" where
  "selectedEventId params =
     (case truthy_option (params_get ''eventId'' params) of None \<Rightarrow> None | Some v \<Rightarrow> truthy_str (trim v))"

definition selectedFeedItemId :: "(int \<Rightarrow> int) \<Rightarrow> FeedItem list \<Rightarrow> string option \<Rightarrow> string option" where
  "selectedFeedItemId tz items selected =
     (case selected of
        None \<Rightarrow> None
      | Some e \<Rightarrow>
          (case find (\<lambda>item. fi_source_event_id item = Some e) (feed_order tz items) of
             Some item \<Rightarrow> Some (fi_id item)
           | None \<Rightarrow> map_option fi_id
               (find (\<lambda>item. fi_id item = e \<or> fi_id item = ''activity:'' @ e) (feed_order tz items))))"

definition hasUnresolvedDeepLink :: "(int \<Rightarrow> int) \<Rightarrow> string option \<Rightarrow> activity_state \<Rightarrow> bool" where
  "hasUnresolvedDeepLink tz selected s \<longleftrightarrow>
     selected \<noteq> None \<and> selectedFeedItemId tz (feedItems s) selected = None
     \<and> \<not> isFeedLoading s \<and> feedError s = None"

section \<open>Steps\<close>

definition boardIds :: "activity_state \<Rightarrow> string list" where
  "boardIds s = map (\<lambda>board. prop_text board ''id'') (boards s)"

text \<open>
  What can happen to the page: signing out, a load that starts (and drops the one under
  way), an answer to what the load awaits, and a frame of one of the streams. The name of the
  user may differ from step to step.
\<close>

inductive activity_step :: "(int \<Rightarrow> int) \<Rightarrow> page_run \<Rightarrow> page_run \<Rightarrow> bool" for tz where
  sign_out: "activity_step tz (s, l) (signed_out s, None)"
| start: "activity_step tz (s, l) (load_start s)"
| boards_page: "activity_step tz (s, Some (AwaitBoards offset items)) (load_boards result offset items s)"
| snapshots: "length results = length items \<Longrightarrow>
    activity_step tz (s, Some (AwaitSnapshots items)) (load_snapshots user results items s)"
| history_page: "activity_step tz (s, Some (AwaitHistory offset seeded)) (load_history tz user result offset seeded s)"
| task: "boardId \<in> set (boardIds s) \<Longrightarrow> activity_step tz (s, l) (receive_task user boardId payload s, l)"
| approval: "boardId \<in> set (boardIds s) \<Longrightarrow> activity_step tz (s, l) (receive_approval user boardId a s, l)"
| memory: "boardId \<in> set (boardIds s) \<Longrightarrow> activity_step tz (s, l) (receive_memory user boardId m s, l)"
| agent: "activity_step tz (s, l) (receive_agent a s, l)"

definition initial_activity :: activity_state where
  "initial_activity =
     \<lparr>feedItems = [], boards = [], feedError = None, isFeedLoading = False, seenIds = [],
      boardsById = [], taskMetaById = [], agentsById = [], approvalsById = []\<rparr>"

inductive reachable_activity :: "(int \<Rightarrow> int) \<Rightarrow> page_run \<Rightarrow> bool" for tz where
  initially: "reachable_activity tz (initial_activity, None)"
| step: "reachable_activity tz run \<Longrightarrow> activity_step tz run run' \<Longrightarrow> reachable_activity tz run'"

section \<open>Lemmas\<close>

text \<open>Items made from an event of the activity log are named after it.\<close>

definition item_ok :: "FeedItem \<Rightarrow> bool" where
  "item_ok item \<longleftrightarrow> (\<forall>e. fi_source_event_id item = Some e \<longrightarrow> fi_id item = ''activity:'' @ e)"

lemma mapped_items_ok [simp]:
  "item_ok (mapGenericActivity s user event)" "item_ok (mapTaskComment s user comment b)"
  "item_ok (mapApprovalEvent s user a b previous)" "item_ok (mapBoardChat s user memory b)"
  by (simp_all add: item_ok_def mapGenericActivity_def mapTaskComment_def mapApprovalEvent_def
      mapBoardChat_def Let_def)

lemma mapTaskActivity_ok: "mapTaskActivity s user event b = Some item \<Longrightarrow> item_ok item"
  by (auto simp: item_ok_def mapTaskActivity_def Let_def split: if_splits)

lemma mapAgentEvent_ok: "mapAgentEvent s agent previous isSnapshot = Some item \<Longrightarrow> item_ok item"
  by (auto simp: item_ok_def mapAgentEvent_def Let_def split: option.splits)

lemma titled_ok [simp]: "item_ok (titled task item) = item_ok item"
  by (simp add: titled_def item_ok_def split: option.split)

lemma mapActivity_ok [simp]: "item_ok (mapActivity s user event)"
  by (cases "mapTaskActivity s user event None") (auto simp: mapActivity_def mapTaskActivity_ok)

definition feed_ok :: "activity_state \<Rightarrow> bool" where
  "feed_ok s \<longleftrightarrow>
     list_all item_ok (feedItems s) \<and> distinct (map fi_id (feedItems s)) \<and> length (feedItems s) \<le> MAX_FEED_ITEMS
     \<and> fi_id ` set (feedItems s) \<subseteq> set (seenIds s)"

definition seeded_ok :: "FeedItem list \<Rightarrow> bool" where
  "seeded_ok seeded \<longleftrightarrow> list_all item_ok seeded \<and> distinct (map fi_id seeded)"

fun phase_ok :: "load_phase option \<Rightarrow> bool" where
  "phase_ok (Some (AwaitHistory offset seeded)) =
     (seeded_ok seeded \<and> offset < PAGED_MAX \<and> PAGED_LIMIT dvd offset)"
| "phase_ok (Some (AwaitBoards offset items)) = (offset < PAGED_MAX \<and> PAGED_LIMIT dvd offset)"
| "phase_ok _ = True"

lemma list_all_take: "list_all P xs \<Longrightarrow> list_all P (take n xs)"
  by (auto simp: list_all_iff dest: in_set_takeD)

lemma push_feed_ok: "feed_ok s \<Longrightarrow> item_ok item \<Longrightarrow> feed_ok (pushFeedItem item s)"
proof -
  assume ok: "feed_ok s" "item_ok item"
  show ?thesis
  proof (cases "fi_id item \<in> set (seenIds s)")
    case False
    with ok have "distinct (map fi_id (item # feedItems s))" by (auto simp: feed_ok_def)
    moreover have "list_all item_ok (take MAX_FEED_ITEMS (item # feedItems s))"
      using ok by (intro list_all_take) (simp add: feed_ok_def)
    ultimately show ?thesis using set_take_subset [of MAX_FEED_ITEMS "item # feedItems s"]
      using distinct_map_take [of fi_id "item # feedItems s" MAX_FEED_ITEMS] ok False
      by (fastforce simp: feed_ok_def pushFeedItem_def)
  qed (simp add: pushFeedItem_def ok)
qed

lemma feed_ok_cong:
  "feedItems s' = feedItems s \<Longrightarrow> seenIds s' = seenIds s \<Longrightarrow> feed_ok s' = feed_ok s"
  by (simp add: feed_ok_def)

lemma feed_ok_refs [simp]:
  "feed_ok (s\<lparr>approvalsById := m\<rparr>) = feed_ok s" "feed_ok (s\<lparr>agentsById := m\<rparr>) = feed_ok s"
  "feed_ok (s\<lparr>feedError := e, isFeedLoading := b\<rparr>) = feed_ok s"
  "feed_ok (boards_loaded bs s) = feed_ok s"
  by (simp_all add: feed_ok_def boards_loaded_def)

lemma updateTaskMeta_ok [simp]: "feed_ok (updateTaskMeta task b s) = feed_ok s"
  by (rule feed_ok_cong) (simp_all add: updateTaskMeta_def)

lemma receive_task_ok: "feed_ok s \<Longrightarrow> feed_ok (receive_task user b payload s)"
  by (auto simp: receive_task_def Let_def push_feed_ok mapTaskActivity_ok split: option.split)

lemma receive_approval_ok: "feed_ok s \<Longrightarrow> feed_ok (receive_approval user b a s)"
  by (auto simp: receive_approval_def Let_def push_feed_ok split: option.split)

lemma receive_memory_ok: "feed_ok s \<Longrightarrow> feed_ok (receive_memory user b m s)"
  by (auto simp: receive_memory_def push_feed_ok split: option.split)

lemma receive_agent_ok: "feed_ok s \<Longrightarrow> feed_ok (receive_agent a s)"
  by (auto simp: receive_agent_def Let_def push_feed_ok mapAgentEvent_ok split: option.split)

lemmas frames_ok = receive_task_ok receive_approval_ok receive_memory_ok receive_agent_ok

lemma seed_ok: "seeded_ok seeded \<Longrightarrow> item_ok item \<Longrightarrow> seeded_ok (seed item seeded)"
  by (auto simp: seed_def seeded_ok_def)

lemma seed_ids: "fi_id ` set (seed item seeded) = insert (fi_id item) (fi_id ` set seeded)"
  by (auto simp: seed_def)

lemma seed_all_ok:
  "seeded_ok seeded \<Longrightarrow> (\<And>x. item_ok (f x)) \<Longrightarrow> seeded_ok (foldl (\<lambda>items x. seed (f x) items) seeded xs)"
  by (induction xs arbitrary: seeded) (simp_all add: seed_ok)

lemma seed_all_ids:
  "fi_id ` set (foldl (\<lambda>items x. seed (f x) items) seeded xs) = fi_id ` set seeded \<union> (\<lambda>x. fi_id (f x)) ` set xs"
  by (induction xs arbitrary: seeded) (auto simp: seed_ids)

lemma foldl_invariant: "P a \<Longrightarrow> (\<And>a x. P a \<Longrightarrow> x \<in> set xs \<Longrightarrow> P (f a x)) \<Longrightarrow> P (foldl f a xs)"
  by (induction xs arbitrary: a) simp_all

definition run_ok :: "activity_state \<times> FeedItem list \<Rightarrow> bool" where
  "run_ok run \<longleftrightarrow> feed_ok (fst run) \<and> seeded_ok (snd run)"

lemma seed_task_ok [simp]: "feed_ok (seed_task b s task) = feed_ok s"
  by (rule feed_ok_cong) (simp_all add: seed_task_def)

lemma seed_agent_ok: "run_ok run \<Longrightarrow> run_ok (seed_agent run agent)"
  by (cases run) (auto simp: run_ok_def seed_agent_def Let_def seed_ok mapAgentEvent_ok split: option.split)

lemma seed_approval_ok: "run_ok run \<Longrightarrow> run_ok (seed_approval user b run a)"
  by (cases run) (auto simp: run_ok_def seed_approval_def Let_def seed_ok)

lemma seed_board_ok:
  assumes "run_ok run"
  shows "run_ok (seed_board user run result)"
proof (cases result)
  case (Pair board snapshot)
  show ?thesis
  proof (cases snapshot)
    case (Some sn)
    obtain s seeded where run: "run = (s, seeded)" by (cases run)
    let ?b = "prop_text board ''id''"
    let ?r1 = "(foldl (seed_task ?b) s (sn_tasks sn), seeded)"
    have "feed_ok (foldl (seed_task ?b) s (sn_tasks sn))"
      using assms by (intro foldl_invariant [of feed_ok]) (simp_all add: run run_ok_def)
    then have r1: "run_ok ?r1" using assms by (simp add: run run_ok_def)
    obtain s2 seeded2 where r2: "foldl seed_agent ?r1 (sn_agents sn) = (s2, seeded2)" by fastforce
    have "run_ok (s2, seeded2)"
      unfolding r2 [symmetric] by (rule foldl_invariant [of run_ok, OF r1]) (rule seed_agent_ok)
    then have "run_ok (foldl (seed_approval user ?b) (s2, seeded2) (sn_approvals sn))"
      by (rule foldl_invariant [of run_ok]) (rule seed_approval_ok)
    moreover obtain s3 seeded3 where r3: "foldl (seed_approval user ?b) (s2, seeded2) (sn_approvals sn) = (s3, seeded3)"
      by fastforce
    ultimately have "run_ok (s3, seeded3)" by simp
    with Pair Some show ?thesis
      by (simp add: seed_board_def run r2 r3 run_ok_def Let_def seed_all_ok)
  qed (simp add: Pair seed_board_def assms)
qed

lemma set_feed_order [simp]: "set (feed_order tz items) = set items"
  by (simp add: feed_order_def)

lemma feed_order_sorted: "sorted_wrt (\<lambda>a b. feed_time tz b \<le> feed_time tz a) (feed_order tz items)"
  unfolding feed_order_def using by_key_desc.sorted_js_sort [of "feed_time tz" items]
  by (simp add: descending_def)

lemma load_finished_ok: "seeded_ok seeded \<Longrightarrow> feed_ok (load_finished tz seeded s)"
proof -
  assume ok: "seeded_ok seeded"
  then have "distinct (map fi_id (feed_order tz seeded))" by (simp only: feed_order_def distinct_map_js_sort seeded_ok_def)
  moreover have "list_all item_ok (take MAX_FEED_ITEMS (feed_order tz seeded))"
    using ok by (intro list_all_take) (simp add: seeded_ok_def list_all_iff)
  ultimately show ?thesis using distinct_map_take [of fi_id "feed_order tz seeded" MAX_FEED_ITEMS]
    by (simp add: load_finished_def Let_def feed_ok_def del: take_map)
qed

definition page_ok :: "page_run \<Rightarrow> bool" where
  "page_ok run \<longleftrightarrow> feed_ok (fst run) \<and> phase_ok (snd run)"

lemma load_failed_ok: "feed_ok s \<Longrightarrow> page_ok (load_failed m s)"
  by (simp add: page_ok_def load_failed_def feed_ok_def)

lemma next_page:
  "\<not> last_page offset items \<Longrightarrow> PAGED_LIMIT dvd offset \<Longrightarrow>
   offset + PAGED_LIMIT < PAGED_MAX \<and> PAGED_LIMIT dvd offset + PAGED_LIMIT"
  by (simp add: last_page_def)

lemma load_boards_ok:
  "page_ok (s, Some (AwaitBoards offset items)) \<Longrightarrow> page_ok (load_boards result offset items s)"
  by (auto simp: load_boards_def Let_def page_ok_def next_page load_failed_def split: fetched.split)

lemma load_snapshots_ok: "feed_ok s \<Longrightarrow> page_ok (load_snapshots user results items s)"
proof -
  assume "feed_ok s"
  then have "run_ok (s, [])" by (simp add: run_ok_def seeded_ok_def)
  then have "run_ok (foldl (seed_board user) (s, []) (zip items results))"
    by (rule foldl_invariant [of run_ok]) (rule seed_board_ok)
  then show ?thesis
    by (simp add: load_snapshots_def split_beta page_ok_def run_ok_def PAGED_MAX_def)
qed

lemma load_history_ok:
  "page_ok (s, Some (AwaitHistory offset seeded)) \<Longrightarrow> page_ok (load_history tz user result offset seeded s)"
  by (auto simp: load_history_def Let_def page_ok_def seed_events_def next_page load_finished_ok
      seed_all_ok load_failed_def split: fetched.split)

lemma activity_step_ok: "activity_step tz run run' \<Longrightarrow> page_ok run \<Longrightarrow> page_ok run'"
proof (induction rule: activity_step.induct)
  case (sign_out s l)
  then show ?case by (simp add: page_ok_def signed_out_def feed_ok_def)
next
  case (start s l)
  then show ?case by (simp add: page_ok_def load_start_def feed_ok_def PAGED_MAX_def)
qed (auto simp: load_boards_ok load_history_ok, auto simp: page_ok_def frames_ok load_snapshots_ok [unfolded page_ok_def])

lemma reachable_activity_ok: "reachable_activity tz run \<Longrightarrow> page_ok run"
  by (induction rule: reachable_activity.induct)
    (simp_all add: activity_step_ok, simp add: page_ok_def initial_activity_def feed_ok_def)

section \<open>A load comes to its end\<close>

text \<open>The answer to whatever is awaited next.\<close>

record load_reply =
  boards_reply :: "js_record list option fetched"
  snapshots_reply :: "board_snapshot option list"
  history_reply :: "RoutedEvent list option fetched"

definition load_answer :: "(int \<Rightarrow> int) \<Rightarrow> string \<Rightarrow> page_run \<Rightarrow> load_reply \<Rightarrow> page_run" where
  "load_answer tz user run reply =
     (case run of
        (s, None) \<Rightarrow> run
      | (s, Some (AwaitBoards offset items)) \<Rightarrow> load_boards (boards_reply reply) offset items s
      | (s, Some (AwaitSnapshots items)) \<Rightarrow> load_snapshots user (snapshots_reply reply) items s
      | (s, Some (AwaitHistory offset seeded)) \<Rightarrow> load_history tz user (history_reply reply) offset seeded s)"

text \<open>How many answers a load can still wait for.\<close>

fun answers_left :: "load_phase option \<Rightarrow> nat" where
  "answers_left None = 0"
| "answers_left (Some (AwaitBoards offset items)) = 6 + (PAGED_MAX - offset) div PAGED_LIMIT"
| "answers_left (Some (AwaitSnapshots items)) = 6"
| "answers_left (Some (AwaitHistory offset seeded)) = (PAGED_MAX - offset) div PAGED_LIMIT"

fun offset_ok :: "load_phase option \<Rightarrow> bool" where
  "offset_ok (Some (AwaitBoards offset items)) = (offset < PAGED_MAX \<and> PAGED_LIMIT dvd offset)"
| "offset_ok (Some (AwaitHistory offset seeded)) = (offset < PAGED_MAX \<and> PAGED_LIMIT dvd offset)"
| "offset_ok _ = True"

definition loading :: "page_run \<Rightarrow> bool" where
  "loading run \<longleftrightarrow> offset_ok (snd run) \<and> (snd run = None \<longrightarrow> \<not> isFeedLoading (fst run))"

lemma pages_left:
  "\<not> last_page offset items \<Longrightarrow> PAGED_LIMIT dvd offset \<Longrightarrow>
   (PAGED_MAX - (offset + PAGED_LIMIT)) div PAGED_LIMIT < (PAGED_MAX - offset) div PAGED_LIMIT"
  by (auto simp: last_page_def PAGED_MAX_def PAGED_LIMIT_def elim!: dvdE)

lemma pages_some: "offset < PAGED_MAX \<Longrightarrow> PAGED_LIMIT dvd offset \<Longrightarrow> 0 < (PAGED_MAX - offset) div PAGED_LIMIT"
  by (auto simp: PAGED_MAX_def PAGED_LIMIT_def elim!: dvdE)

lemma load_answer_progress:
  assumes "loading run" "snd run \<noteq> None"
  shows "loading (load_answer tz user run reply)
    \<and> answers_left (snd (load_answer tz user run reply)) < answers_left (snd run)"
proof -
  obtain s phase where run: "run = (s, Some phase)" using assms(2) by (cases run) auto
  show ?thesis
  proof (cases phase)
    case (AwaitBoards offset items)
    with assms run pages_some [of offset] pages_left [of offset] next_page [of offset] show ?thesis
      by (auto simp: load_answer_def load_boards_def load_failed_def loading_def Let_def split: fetched.split)
  next
    case (AwaitSnapshots items)
    then show ?thesis
      by (simp add: run load_answer_def load_snapshots_def loading_def split_beta PAGED_MAX_def PAGED_LIMIT_def)
  next
    case (AwaitHistory offset seeded)
    with assms run pages_some [of offset] pages_left [of offset] next_page [of offset] show ?thesis
      by (auto simp: load_answer_def load_history_def load_failed_def loading_def load_finished_def Let_def
          split: fetched.split)
  qed
qed

lemma load_runs_out:
  "loading run \<Longrightarrow> answers_left (snd run) \<le> length answers \<Longrightarrow>
   loading (foldl (load_answer tz user) run answers) \<and> snd (foldl (load_answer tz user) run answers) = None"
proof (induction answers arbitrary: run)
  case Nil
  then show ?case
    by (cases "snd run" rule: answers_left.cases) (auto simp: loading_def dest!: pages_some)
next
  case (Cons reply answers)
  show ?case
  proof (cases "snd run = None")
    case True
    then have "load_answer tz user run reply = run" by (cases run) (simp add: load_answer_def)
    with Cons True show ?thesis by simp
  next
    case False
    from load_answer_progress [OF Cons.prems(1) False, of tz user reply] Cons.prems(2)
    show ?thesis using Cons.IH [of "load_answer tz user run reply"] by simp
  qed
qed

lemma load_start_loading: "loading (load_start s)"
  by (simp add: loading_def load_start_def PAGED_MAX_def)

section \<open>Reading an address\<close>

definition link_path :: "string \<Rightarrow> string" where
  "link_path href = takeWhile (\<lambda>c. c \<noteq> CHR ''?'') href"

definition link_query :: "string \<Rightarrow> search_params" where
  "link_query href = parse_params (drop (Suc (length (link_path href))) href)"

lemma component_no_question: "CHR ''?'' \<notin> set (encodeURIComponent s)"
proof -
  have "CHR ''?'' \<notin> set (percent c)" for c
  proof -
    have "char_code c div 16 < 16" using char_code_less [of c] by simp
    then have safe: "form_safe (hex_digit (char_code c div 16))" "form_safe (hex_digit (char_code c mod 16))"
      by (simp_all add: hex_digit_safe)
    have "hex_digit (char_code c div 16) \<noteq> CHR ''?''" using form_safe_plain [OF safe(1)] by (elim conjE)
    moreover have "hex_digit (char_code c mod 16) \<noteq> CHR ''?''" using form_safe_plain [OF safe(2)] by (elim conjE)
    ultimately show ?thesis by (simp add: percent_def)
  qed
  moreover have "\<not> is_alnum (CHR ''?'')" by (simp add: is_alnum_def is_digit_def char_code_def)
  ultimately have "CHR ''?'' \<notin> set (component_char c)" for c by (auto simp: component_char_def)
  then show ?thesis by (simp add: encodeURIComponent_def)
qed

lemma pair_text_nonempty [simp]: "pair_text kv \<noteq> []"
  by (simp add: pair_text_def)

lemma params_to_string_empty [simp]: "params_to_string ps = [] \<longleftrightarrow> ps = []"
proof (cases ps)
  case (Cons kv rest)
  then show ?thesis by (cases rest) (simp_all add: params_to_string_def)
qed (simp add: params_to_string_def)

lemma link_with_query:
  assumes "CHR ''?'' \<notin> set path"
  shows "link_path (with_query path (params_to_string ps)) = path"
    and "link_query (with_query path (params_to_string ps)) = ps"
proof -
  have none: "takeWhile (\<lambda>c. c \<noteq> CHR ''?'') path = path" using assms by (auto simp: takeWhile_eq_all_conv)
  have "takeWhile (\<lambda>c. c \<noteq> CHR ''?'') (path @ CHR ''?'' # rest) = path" for rest
    using assms by (subst takeWhile_append2) auto
  with none show path: "link_path (with_query path (params_to_string ps)) = path"
    by (simp add: link_path_def with_query_def)
  show "link_query (with_query path (params_to_string ps)) = ps"
  proof (cases "ps = []")
    case True
    then show ?thesis using path by (simp add: link_query_def with_query_def parse_params_def drop_question_def)
  next
    case False
    then show ?thesis using path by (simp add: link_query_def with_query_def parse_params_to_string)
  qed
qed

lemma feed_link_query: "link_query (ACTIVITY_FEED_PATH @ ''?'' @ params_to_string ps) = ps"
proof (cases "ps = []")
  case True
  then show ?thesis
    by (simp add: ACTIVITY_FEED_PATH_def link_query_def link_path_def parse_params_def drop_question_def params_to_string_def)
next
  case False
  then show ?thesis using link_with_query(2) [of ACTIVITY_FEED_PATH ps]
    by (simp add: ACTIVITY_FEED_PATH_def with_query_def)
qed

lemma board_link:
  assumes "truthy_option (route_param ''boardId'' routeParams) = Some b"
  shows "link_path (buildRouteHref (Some ''board'') routeParams fb) = ''/boards/'' @ encodeURIComponent b"
    and "link_query (buildRouteHref (Some ''board'') routeParams fb) = board_query routeParams"
  using link_with_query [of "''/boards/'' @ encodeURIComponent b" "board_query routeParams"] assms
    component_no_question [of b]
  by (simp_all add: buildRouteHref_def)

lemma params_set_new: "k \<notin> fst ` set ps \<Longrightarrow> params_set k v ps = ps @ [(k, v)]"
  by (induction k v ps rule: params_set.induct) auto

lemma board_query_distinct:
  assumes "distinct (map fst ps)"
  shows "board_query ps = filter (\<lambda>kv. fst kv \<noteq> ''boardId'') ps"
proof -
  have "foldl (\<lambda>params (key, v). if key \<noteq> ''boardId'' then params_set key v params else params) acc ps
      = acc @ filter (\<lambda>kv. fst kv \<noteq> ''boardId'') ps"
    if "distinct (map fst ps)" "fst ` set acc \<inter> fst ` set ps = {}" for acc
    using that
  proof (induction ps arbitrary: acc)
    case (Cons kv ps)
    obtain k v where kv: "kv = (k, v)" by (cases kv)
    have "k \<notin> fst ` set acc" using Cons.prems kv by auto
    then show ?case using Cons.prems Cons.IH [of acc] Cons.IH [of "acc @ [(k, v)]"] kv
      by (auto simp: params_set_new)
  qed simp
  from this [of "[]"] assms show ?thesis by (simp add: board_query_def)
qed

lemma feed_link_path: "link_path (ACTIVITY_FEED_PATH @ ''?'' @ query) = ACTIVITY_FEED_PATH"
  by (simp add: link_path_def ACTIVITY_FEED_PATH_def)

lemma mapActivity_source: "fi_source_event_id (mapActivity s user event) = Some (ae_id event)"
  by (simp add: mapActivity_def mapTaskActivity_def mapGenericActivity_def Let_def)

lemma mapActivity_href:
  "\<exists>boardId taskId. fi_context_href (mapActivity s user event)
    = Some (buildRouteHref (effective_route (ae_route_name event) boardId)
        (effective_params (normalizeRouteParams (ae_route_params event)) boardId taskId)
        \<lparr>fb_eventId = ae_id event, fb_eventType = ae_event_type event,
         fb_createdAt = ae_created_at event, fb_taskId = taskId\<rparr>)"
  by (cases "isTaskEventType (ae_event_type event)")
    (auto simp: mapActivity_def mapTaskActivity_def mapGenericActivity_def Let_def)

lemma activity_query_get:
  "k \<noteq> ''taskId'' \<Longrightarrow> ps \<noteq> [] \<Longrightarrow> params_get k (activity_query ps fb) = params_get k ps"
  by (simp add: activity_query_def Let_def params_get_set split: option.split)

lemma activity_href:
  assumes "ae_route_name event = Some ''activity''"
    and "ae_route_params event = Obj (map (\<lambda>(k, v). (k, Str v)) ((''eventId'', i) # ps))" and "i \<noteq> []"
  shows "\<exists>query. fi_context_href (mapActivity s user event) = Some (ACTIVITY_FEED_PATH @ ''?'' @ params_to_string query)
    \<and> params_get ''eventId'' query = Some i"
proof -
  have "\<exists>qs. normalizeRouteParams (ae_route_params event) = (''eventId'', i) # qs"
    using assms(2,3) by (simp add: normalizeRouteParams_def List.map_filter_def)
  then obtain qs where params: "normalizeRouteParams (ae_route_params event) = (''eventId'', i) # qs" by blast
  have "buildRouteHref (Some ''activity'') ((''eventId'', i) # qs) fb
      = ACTIVITY_FEED_PATH @ ''?'' @ params_to_string (activity_query ((''eventId'', i) # qs) fb)" for fb
    by (simp add: buildRouteHref_def Let_def split: option.split)
  moreover have "params_get ''eventId'' (activity_query ((''eventId'', i) # qs) fb) = Some i" for fb
    by (subst activity_query_get) (simp_all add: params_get_def)
  ultimately show ?thesis
    using mapActivity_href [of s user event] assms(1) params by (auto simp: effective_route_def effective_params_def)
qed

lemma task_comment_type: "isTaskEventType ''task.comment''"
  by (simp add: isTaskEventType_def TASK_EVENT_TYPES_def)

lemma board_link_params:
  "b \<noteq> [] \<Longrightarrow> distinct (map fst ((''boardId'', b) # ps)) \<Longrightarrow>
   link_path (buildRouteHref (Some ''board'') ((''boardId'', b) # ps) fb) = ''/boards/'' @ encodeURIComponent b
   \<and> link_query (buildRouteHref (Some ''board'') ((''boardId'', b) # ps) fb) = filter (\<lambda>kv. fst kv \<noteq> ''boardId'') ps"
  using board_link [of "(''boardId'', b) # ps" b fb] board_query_distinct [of "(''boardId'', b) # ps"]
  by (simp add: truthy_option_def truthy_str_def route_param_def)

lemma loaded_comment_link:
  assumes "ae_event_type event = ''task.comment''" and "ae_task_id event = Some t"
    and "t \<noteq> []" and "b \<noteq> []" and "ae_id event \<noteq> []"
  shows "\<exists>loaded. fi_context_href (mapActivity s user (served (Some b) event)) = Some loaded
    \<and> link_path loaded = ''/boards/'' @ encodeURIComponent b
    \<and> link_query loaded = [(''taskId'', t), (''commentId'', ae_id event)]"
proof -
  let ?ps = "[(''taskId'', t), (''commentId'', ae_id event)]"
  let ?fb = "\<lparr>fb_eventId = ae_id event, fb_eventType = ''task.comment'', fb_createdAt = ae_created_at event, fb_taskId = Some t\<rparr>"
  have params: "normalizeRouteParams (ae_route_params (served (Some b) event)) = (''boardId'', b) # ?ps"
    using assms by (simp add: served_def build_activity_route_def normalizeRouteParams_def List.map_filter_def)
  have "fi_context_href (mapActivity s user (served (Some b) event))
      = Some (buildRouteHref (Some ''board'') ((''boardId'', b) # ?ps) ?fb)"
    using assms(1,2) params task_comment_type
    by (simp add: mapActivity_def mapTaskActivity_def Let_def effective_params_def effective_route_def
        served_def build_activity_route_def first_of_def)
  moreover have "distinct (map fst ((''boardId'', b) # ?ps))" by simp
  from board_link_params [OF assms(4) this, of ?fb]
  have "link_path (buildRouteHref (Some ''board'') ((''boardId'', b) # ?ps) ?fb) = ''/boards/'' @ encodeURIComponent b
    \<and> link_query (buildRouteHref (Some ''board'') ((''boardId'', b) # ?ps) ?fb) = ?ps" by simp
  ultimately show ?thesis by blast
qed

lemma streamed_comment_link:
  assumes "ae_event_type event = ''task.comment''" and "ae_task_id event = Some t"
    and "t \<noteq> []" and "b \<noteq> []" and "ae_id event \<noteq> []"
    and "\<forall>m. meta_for s (Some t) = Some m \<longrightarrow> tm_boardId m = Some b"
  shows "\<exists>live. map_option fi_context_href (mapTaskActivity s user (streamed event) (Some b)) = Some (Some live)
    \<and> link_path live = ''/boards/'' @ encodeURIComponent b \<and> link_query live = [(''taskId'', t)]"
proof -
  let ?fb = "\<lparr>fb_eventId = ae_id event, fb_eventType = ''task.comment'', fb_createdAt = ae_created_at event, fb_taskId = Some t\<rparr>"
  have none: "normalizeRouteParams (ae_route_params (streamed event)) = []"
    by (simp add: streamed_def normalizeRouteParams_def List.map_filter_def)
  have "map_option fi_context_href (mapTaskActivity s user (streamed event) (Some b))
      = Some (Some (buildRouteHref (Some ''board'') [(''boardId'', b), (''taskId'', t)] ?fb))"
    using assms none task_comment_type
    by (cases "meta_for s (Some t)") (simp_all add: mapTaskActivity_def Let_def effective_params_def effective_route_def fallback_params_def
        truthy_option_def truthy_str_def streamed_def route_param_def first_of_def)
  moreover have "distinct (map fst [(''boardId'', b), (''taskId'', t)])" by simp
  from board_link_params [OF assms(4) this, of ?fb]
  have "link_path (buildRouteHref (Some ''board'') [(''boardId'', b), (''taskId'', t)] ?fb) = ''/boards/'' @ encodeURIComponent b
    \<and> link_query (buildRouteHref (Some ''board'') [(''boardId'', b), (''taskId'', t)] ?fb) = [(''taskId'', t)]" by simp
  ultimately show ?thesis by blast
qed

section \<open>Properties\<close>

text \<open>C3: whatever happens, in whatever order, the feed holds at most 300 items, no two with the
  same id, every id that is shown is known as seen, and a load asks for pages below offset
  1000 only.\<close>

theorem activity_feed_invariant:
  assumes "reachable_activity tz (s, l)"
  shows "distinct (map fi_id (feedItems s)) \<and> length (feedItems s) \<le> 300
    \<and> fi_id ` set (feedItems s) \<subseteq> set (seenIds s)
    \<and> (\<forall>offset items. l = Some (AwaitBoards offset items) \<longrightarrow> offset < 1000)
    \<and> (\<forall>offset seeded. l = Some (AwaitHistory offset seeded) \<longrightarrow> offset < 1000)"
  using reachable_activity_ok [OF assms]
  by (auto simp: page_ok_def feed_ok_def MAX_FEED_ITEMS_def PAGED_MAX_def)

definition sample_event :: "string \<Rightarrow> RoutedEvent" where
  "sample_event i =
     \<lparr>ae_id = i, ae_event_type = ''task.comment'', ae_created_at = ''2026-03-01T10:00:00'', ae_message = Some ''Done'',
      ae_payload = Null, ae_agent_id = None, ae_task_id = Some ''t'', ae_board_id = None,
      ae_route_name = None, ae_route_params = Undefined\<rparr>"

definition sample_frame :: "string \<Rightarrow> activity_task_payload" where
  "sample_frame i =
     \<lparr>at_type = Some ''task.comment'', at_activity = Some (sample_event i), at_task = None, at_comment = None\<rparr>"

definition one_board :: "js_record list" where
  "one_board = [[(''id'', Str ''b''), (''name'', Str ''Board'')]]"

definition board_open :: page_run where
  "board_open = load_boards (Answered 200 (Some one_board)) 0 [] (fst (load_start initial_activity))"

lemma reachable_board_open: "reachable_activity tz board_open"
proof -
  have "reachable_activity tz (load_start initial_activity)"
    by (rule reachable_activity.step [OF reachable_activity.initially activity_step.start])
  from reachable_activity.step [OF this, unfolded load_start_def, OF activity_step.boards_page]
  show ?thesis by (simp add: board_open_def load_start_def)
qed

lemma board_open_ids: "boardIds (fst board_open) = [''b'']"
  by (simp add: board_open_def load_boards_def load_start_def one_board_def boards_loaded_def boardIds_def
      last_page_def PAGED_LIMIT_def Let_def prop_text_def get_prop_def)

theorem activity_feed_invariant_witness:
  "length (feedItems (receive_task ''User'' ''b'' (sample_frame ''e'') (fst board_open))) \<le> 300"
proof -
  obtain s l where b: "board_open = (s, l)" by fastforce
  have "activity_step id (s, l) (receive_task ''User'' ''b'' (sample_frame ''e'') s, l)"
    by (rule activity_step.task) (use board_open_ids in \<open>simp add: b\<close>)
  from reachable_activity.step [OF reachable_board_open [unfolded b] this]
  have "reachable_activity id (receive_task ''User'' ''b'' (sample_frame ''e'') s, l)" .
  from activity_feed_invariant [OF this] show ?thesis by (simp add: b)
qed

text \<open>C6: a load ends: after eleven answers of the server (five pages of boards, the snapshots, five
  pages of events), whatever they are, nothing is awaited and the page no longer says that it
  is loading.\<close>

theorem load_terminates:
  assumes "length answers \<ge> 11"
  shows "snd (foldl (load_answer tz user) (load_start s) answers) = None
    \<and> \<not> isFeedLoading (fst (foldl (load_answer tz user) (load_start s) answers))"
proof -
  have "answers_left (snd (load_start s)) \<le> length answers"
    using assms by (simp add: load_start_def PAGED_MAX_def PAGED_LIMIT_def)
  from load_runs_out [OF load_start_loading this] show ?thesis by (simp add: loading_def)
qed

theorem load_terminates_witness:
  "snd (foldl (load_answer id ''User'') (load_start initial_activity)
     (replicate 11 \<lparr>boards_reply = Answered 200 (Some (replicate 200 [])), snapshots_reply = [],
        history_reply = Answered 200 (Some (replicate 200 (sample_event ''e'')))\<rparr>)) = None"
  using load_terminates [of "replicate 11 \<lparr>boards_reply = Answered 200 (Some (replicate 200 [])), snapshots_reply = [],
        history_reply = Answered 200 (Some (replicate 200 (sample_event ''e'')))\<rparr>" id "''User''" initial_activity]
  by simp

text \<open>C9: the link of a comment that was loaded from the log opens its board with the task and the
  comment; the link of the same comment received from the stream opens the task only,
  because the backend sends streamed events without their route.\<close>

theorem comment_links:
  assumes "ae_event_type event = ''task.comment''" and "ae_task_id event = Some t"
    and "t \<noteq> []" and "b \<noteq> []" and "ae_id event \<noteq> []"
    and "\<forall>m. meta_for s (Some t) = Some m \<longrightarrow> tm_boardId m = Some b"
  shows "\<exists>loaded live. fi_context_href (mapActivity s user (served (Some b) event)) = Some loaded
    \<and> map_option fi_context_href (mapTaskActivity s user (streamed event) (Some b)) = Some (Some live)
    \<and> link_path loaded = ''/boards/'' @ encodeURIComponent b \<and> link_path live = link_path loaded
    \<and> link_query loaded = [(''taskId'', t), (''commentId'', ae_id event)]
    \<and> link_query live = [(''taskId'', t)]"
  using loaded_comment_link [OF assms(1-5), of s user] streamed_comment_link [OF assms, of user] by fastforce

theorem comment_links_witness:
  "\<exists>live. map_option fi_context_href (mapTaskActivity initial_activity ''User'' (streamed (sample_event ''e'')) (Some ''b''))
     = Some (Some live) \<and> link_query live = [(''taskId'', ''t'')]"
proof -
  have "ae_event_type (sample_event ''e'') = ''task.comment''" "ae_task_id (sample_event ''e'') = Some ''t''"
    by (simp_all add: sample_event_def)
  note links = comment_links [OF this]
  have "ae_id (sample_event ''e'') \<noteq> []" by (simp add: sample_event_def)
  moreover have "\<forall>m. meta_for initial_activity (Some ''t'') = Some m \<longrightarrow> tm_boardId m = Some ''b''"
    by (simp add: meta_for_def initial_activity_def truthy_option_def truthy_str_def)
  ultimately show ?thesis using links [of "''b''" initial_activity "''User''"] by blast
qed

text \<open>C31: the link of an event that belongs to no board comes back to the feed and selects that
  event, as long as it is still among the items of the feed.\<close>

theorem deep_link_selects:
  assumes "reachable_activity tz (s, l)"
    and "trim (ae_id event) = ae_id event" and "ae_id event \<noteq> []"
    and "mapActivity s' user (served None event) \<in> set (feedItems s)"
    and "fi_context_href (mapActivity s' user (served None event)) = Some href"
  shows "link_path href = ACTIVITY_FEED_PATH
    \<and> selectedFeedItemId tz (feedItems s) (selectedEventId (link_query href)) = Some (''activity:'' @ ae_id event)"
proof -
  have ok: "list_all item_ok (feedItems s)"
    using reachable_activity_ok [OF assms(1)] by (simp add: page_ok_def feed_ok_def)
  let ?params = "[(''eventType'', ae_event_type event), (''createdAt'', ae_created_at event)]
    @ (case ae_task_id event of None \<Rightarrow> [] | Some t \<Rightarrow> [(''taskId'', t)])"
  have route: "ae_route_name (served None event) = Some ''activity''"
    "ae_route_params (served None event) = Obj (map (\<lambda>(k, v). (k, Str v)) ((''eventId'', ae_id event) # ?params))"
    by (simp_all add: served_def build_activity_route_def)
  obtain query where href: "href = ACTIVITY_FEED_PATH @ ''?'' @ params_to_string query"
    and query: "params_get ''eventId'' query = Some (ae_id event)"
    using activity_href [OF route assms(3), of s' user] assms(5) by auto
  have source: "fi_source_event_id (mapActivity s' user (served None event)) = Some (ae_id event)"
    by (simp add: mapActivity_source served_def Let_def)
  let ?P = "\<lambda>item. fi_source_event_id item = Some (ae_id event)"
  obtain item where item: "find ?P (feed_order tz (feedItems s)) = Some item"
    using assms(4) source by (cases "find ?P (feed_order tz (feedItems s))") (auto simp: find_None_iff)
  then have "item \<in> set (feed_order tz (feedItems s))" "?P item" by (auto simp: find_Some_iff simp del: set_feed_order)
  then have "item \<in> set (feedItems s)" by (simp only: set_feed_order)
  with ok \<open>?P item\<close> have "fi_id item = ''activity:'' @ ae_id event" by (auto simp: list_all_iff item_ok_def)
  moreover have "selectedEventId query = Some (ae_id event)"
    using query assms(2,3) by (simp add: selectedEventId_def truthy_option_def truthy_str_def)
  ultimately show ?thesis using item
    by (simp add: href feed_link_query [simplified] feed_link_path [simplified] selectedFeedItemId_def)
qed
definition sample_global :: RoutedEvent where
  "sample_global = (sample_event ''e'')\<lparr>ae_event_type := ''queue.worker.success'', ae_task_id := None\<rparr>"

definition empty_org :: activity_state where
  "empty_org = initial_activity\<lparr>isFeedLoading := True\<rparr>"

definition loaded_org :: page_run where
  "loaded_org = load_history id ''User'' (Answered 200 (Some [served None sample_global])) 0 [] empty_org"

lemma reachable_loading: "reachable_activity tz (empty_org, Some (AwaitHistory 0 []))"
proof -
  have start: "load_start initial_activity = (empty_org, Some (AwaitBoards 0 []))"
    by (simp add: load_start_def empty_org_def initial_activity_def)
  have boards: "load_boards (Answered 200 None) 0 [] empty_org = (empty_org, Some (AwaitSnapshots []))"
    by (simp add: load_boards_def last_page_def PAGED_LIMIT_def boards_loaded_def empty_org_def initial_activity_def)
  have snapshots: "load_snapshots ''User'' [] [] empty_org = (empty_org, Some (AwaitHistory 0 []))"
    by (simp add: load_snapshots_def)
  have "reachable_activity tz (empty_org, Some (AwaitBoards 0 []))"
    unfolding start [symmetric] by (rule reachable_activity.step [OF reachable_activity.initially activity_step.start])
  note reachable_activity.step [OF this activity_step.boards_page, of "Answered 200 None", unfolded boards]
  from reachable_activity.step [OF this activity_step.snapshots, of "[]" "''User''", unfolded snapshots]
  show ?thesis by simp
qed

theorem deep_link_selects_witness:
  "selectedFeedItemId id (feedItems (fst loaded_org))
     (selectedEventId (link_query (the (fi_context_href (mapActivity empty_org ''User'' (served None sample_global))))))
   = Some ''activity:e''"
proof -
  let ?item = "mapActivity empty_org ''User'' (served None sample_global)"
  have run: "loaded_org = (load_finished id [?item] empty_org, None)"
    by (simp add: loaded_org_def load_history_def seed_events_def seed_def last_page_def PAGED_LIMIT_def)
  have "?item \<in> set (feedItems (fst loaded_org))"
    by (simp add: run load_finished_def feed_order_def MAX_FEED_ITEMS_def)
  moreover obtain href where href: "fi_context_href ?item = Some href" using mapActivity_href by blast
  moreover have "reachable_activity id (fst loaded_org, snd loaded_org)"
    using reachable_activity.step [OF reachable_loading activity_step.history_page] by (simp add: loaded_org_def)
  moreover have "ae_id sample_global = ''e''" by (simp add: sample_global_def sample_event_def)
  moreover have "trim ''e'' = ''e''" by code_simp
  ultimately show ?thesis
    using deep_link_selects [of id "fst loaded_org" "snd loaded_org" sample_global empty_org "''User''" href] by simp
qed

text \<open>choosing a filter is remembered by the address: the page that is opened there shows that
  filter, and all other parameters are as before.\<close>

theorem filter_round_trip:
  assumes "isActivityCategory (Some mode)" and "CHR ''?'' \<notin> set pathname"
  shows "resolveActivityFilter (link_query (updateFeedMode pathname mode params)) = mode
    \<and> other_params {''feed'', ''category''} (link_query (updateFeedMode pathname mode params))
      = other_params {''feed'', ''category''} params"
proof -
  have "resolveActivityFilter (feed_mode_params mode params) = mode"
    using assms(1) by (auto simp: resolveActivityFilter_def feed_mode_params_def Let_def params_get_set
        params_get_delete isActivityCategory_def ACTIVITY_FILTERS_def)
  moreover have "other_params {''feed'', ''category''} (feed_mode_params mode params)
      = other_params {''feed'', ''category''} params"
    by (simp add: feed_mode_params_def Let_def)
  ultimately show ?thesis
    by (simp add: updateFeedMode_def link_with_query(2) [OF assms(2)] parse_params_to_string)
qed

theorem filter_round_trip_witness:
  "resolveActivityFilter (link_query (updateFeedMode ''/activity'' ''agents'' [(''category'', ''runs''), (''feed'', ''runs'')])) = ''agents''"
  using filter_round_trip [of "''agents''" "''/activity''" "[(''category'', ''runs''), (''feed'', ''runs'')]"]
  by (simp add: isActivityCategory_def ACTIVITY_FILTERS_def)

lemma known_labels_agree:
  "list_all (\<lambda>e. eventLabel e = liveFeedEventLabel e \<longleftrightarrow>
     e \<notin> {''agent.nudge.failed'', ''queue.worker.dequeue_failed''}) LIVE_FEED_EVENT_TYPES"
  by code_simp

lemma prefix_other:
  "starts_with e p \<Longrightarrow> \<not> starts_with q p \<Longrightarrow> e \<noteq> q"
  by auto

lemma agent_labels_agree:
  assumes "starts_with e ''agent.''" and "ends_with e ''.direct'' \<or> ends_with e ''.failed''"
    and "e \<notin> set LIVE_FEED_EVENT_TYPES" and "e \<noteq> ''agent.delete.direct''"
  shows "eventLabel e = liveFeedEventLabel e"
proof -
  have neq: "e \<noteq> q" if "\<not> starts_with q ''agent.'' \<or> q \<in> set LIVE_FEED_EVENT_TYPES" for q
    using that assms(1,3) by auto
  have "eventLabel e = (if ends_with e ''.direct'' then ''Lifecycle'' else ''Lifecycle failed'')"
    using assms(1,2,4) by (simp add: eventLabel_def neq LIVE_FEED_EVENT_TYPES_def, blast?)
  moreover have "liveFeedEventLabel e = (if ends_with e ''.direct'' then ''Lifecycle'' else ''Lifecycle failed'')"
    using assms(1,2,4) by (simp add: liveFeedEventLabel_def neq LIVE_FEED_EVENT_TYPES_def, blast?)
  ultimately show ?thesis by simp
qed

lemma group_labels_agree:
  assumes "starts_with e ''board.group.''" and "ends_with e ''.notified'' \<or> ends_with e ''.notify_failed''"
  shows "eventLabel e = liveFeedEventLabel e"
proof -
  have neq: "e \<noteq> q" if "\<not> starts_with q ''board.group.''" for q
    using that assms(1) by auto
  have other: "\<not> starts_with e p" if "\<not> starts_with ''board.group.'' p" "\<not> starts_with p ''board.group.''" for p
    using starts_with_incomparable [OF assms(1) that] .
  have "eventLabel e = (if ends_with e ''.notified'' then ''Group notified'' else ''Group failed'')"
    using assms by (simp add: eventLabel_def neq other, blast?)
  moreover have "liveFeedEventLabel e = (if ends_with e ''.notified'' then ''Group notified'' else ''Group failed'')"
    using assms by (simp add: liveFeedEventLabel_def neq other, blast?)
  ultimately show ?thesis by simp
qed

text \<open>the two pages name events alike: for every type that the feed of a board takes, the label is
  the same, except for a nudge that failed (the activity page has a label for it that it never
  reaches), a worker that failed to dequeue, and an agent that was deleted directly.\<close>

theorem labels_agree:
  assumes "isLiveFeedEventType e"
  shows "eventLabel e = liveFeedEventLabel e \<longleftrightarrow>
    e \<notin> {''agent.nudge.failed'', ''queue.worker.dequeue_failed'', ''agent.delete.direct''}"
proof (cases "e \<in> set LIVE_FEED_EVENT_TYPES")
  case True
  moreover have "''agent.delete.direct'' \<notin> set LIVE_FEED_EVENT_TYPES" by (simp add: LIVE_FEED_EVENT_TYPES_def)
  ultimately show ?thesis using known_labels_agree unfolding list_all_iff by blast
next
  case False
  have listed: "''agent.nudge.failed'' \<in> set LIVE_FEED_EVENT_TYPES"
    "''queue.worker.dequeue_failed'' \<in> set LIVE_FEED_EVENT_TYPES" by (simp_all add: LIVE_FEED_EVENT_TYPES_def)
  show ?thesis
  proof (cases "e = ''agent.delete.direct''")
    case True
    have "eventLabel ''agent.delete.direct'' \<noteq> liveFeedEventLabel ''agent.delete.direct''" by code_simp
    with True show ?thesis by simp
  next
    case other: False
    have "eventLabel e = liveFeedEventLabel e"
      using assms False agent_labels_agree [OF _ _ False other] group_labels_agree
      unfolding isLiveFeedEventType_def by blast
    with False other listed show ?thesis by auto
  qed
qed

theorem labels_agree_witness:
  "eventLabel ''agent.nudge.failed'' \<noteq> liveFeedEventLabel ''agent.nudge.failed''"
proof -
  have "isLiveFeedEventType ''agent.nudge.failed''" by code_simp
  with labels_agree [OF this] show ?thesis by simp
qed

lemma if_neqI: "(P \<Longrightarrow> x \<noteq> z) \<Longrightarrow> (\<not> P \<Longrightarrow> y \<noteq> z) \<Longrightarrow> (if P then x else y) \<noteq> z"
  by simp

lemma nudge_label_unreachable: "eventLabel e \<noteq> ''Nudge failed''"
proof (cases "e = ''agent.nudge.failed''")
  case True
  have "eventLabel ''agent.nudge.failed'' = ''Lifecycle failed''" by code_simp
  with True show ?thesis by simp
next
  case False
  then show ?thesis
    unfolding eventLabel_def by (intro if_neqI; (simp (no_asm); fail)?) (erule (1) notE)
qed

text \<open>C7: what the streams deliver while the activity log is loading is lost: when the last page is
  answered, the feed holds loaded items only, so a comment frame that came in between is
  not shown, and it is not known as seen either.\<close>

theorem streamed_while_loading_lost:
  assumes "last_page offset (coalesce data [])"
    and "fi_id item \<notin> fi_id ` set (seed_events s' user (coalesce data []) seeded)"
    and "s' = pushFeedItem item s"
    and "load_history tz user (Answered 200 data) offset seeded s' = (s'', l)"
  shows "l = None \<and> fi_id item \<notin> fi_id ` set (feedItems s'') \<and> fi_id item \<notin> set (seenIds s'')"
proof -
  have s'': "s'' = load_finished tz (seed_events s' user (coalesce data []) seeded) s'" and l: "l = None"
    using assms(1,4) by (simp_all add: load_history_def Let_def)
  have "fi_id ` set (take n (feed_order tz items)) \<subseteq> fi_id ` set items" for n items
    using set_take_subset [of n "feed_order tz items"] by (intro image_mono) simp
  then have "fi_id item \<notin> fi_id ` set (feedItems s'')"
    using assms(2) unfolding s'' by (auto simp: load_finished_def Let_def)
  moreover have "seenIds s'' = map fi_id (feedItems s'')" by (simp add: s'' load_finished_def Let_def)
  ultimately show ?thesis using l by simp
qed

theorem streamed_while_loading_lost_witness:
  "feedItems (fst (load_history id ''User'' (Answered 200 None) 0 [] (receive_task ''User'' ''b'' (sample_frame ''e'') empty_org))) = []
   \<and> feedItems (receive_task ''User'' ''b'' (sample_frame ''e'') empty_org) \<noteq> []"
proof -
  obtain item where item: "mapTaskActivity empty_org ''User'' (sample_event ''e'') (Some ''b'') = Some item"
    by (simp add: mapTaskActivity_def sample_event_def isTaskEventType_def TASK_EVENT_TYPES_def Let_def)
  let ?s = "pushFeedItem item empty_org"
  have frame: "receive_task ''User'' ''b'' (sample_frame ''e'') empty_org = ?s"
    by (simp add: receive_task_def sample_frame_def item titled_def)
  have pushed: "feedItems ?s \<noteq> []" by (simp add: pushFeedItem_def empty_org_def initial_activity_def MAX_FEED_ITEMS_def)
  obtain s'' l where run: "load_history id ''User'' (Answered 200 None) 0 [] ?s = (s'', l)" by fastforce
  have "last_page 0 (coalesce (None :: RoutedEvent list option) [])" by (simp add: last_page_def PAGED_LIMIT_def)
  from streamed_while_loading_lost [OF this _ refl run] have "fi_id item \<notin> fi_id ` set (feedItems s'')"
    by (simp add: seed_events_def)
  moreover have "set (feedItems s'') \<subseteq> {item}"
    using run by (auto simp: load_history_def last_page_def PAGED_LIMIT_def seed_events_def load_finished_def feed_order_def)
  ultimately have "feedItems s'' = []" by (cases "feedItems s''") auto
  with run frame pushed show ?thesis by simp
qed

end
