(* ===== verification/BoardPanels.thy ===== *)
theory BoardPanels
  imports BoardState ActivityPage
begin

text \<open>
  The panels of the board page (\<open>src/app/boards/[boardId]/page.tsx\<close>): the open task, the chat and
  the live feed, how they follow the address and change it, and the requests for comments that
  are under way. \<open>router.replace\<close> only asks for an address: the parameters that the page reads
  change when the router gets there. The effect that opens the task of the address runs again
  when one of its dependencies has changed. Answers to saves, deletions and comments come at any
  time; every other change of the rows is a step of \<open>BoardState\<close> (\<open>rows_step\<close>).
\<close>

section \<open>Addresses\<close>

definition set_or_delete :: "string \<Rightarrow> string option \<Rightarrow> search_params \<Rightarrow> search_params" where
  "set_or_delete k v params =
     (case truthy_option v of Some w \<Rightarrow> params_set k w params | None \<Rightarrow> params_delete k params)"

definition panel_params ::
  "search_params \<Rightarrow> string option \<Rightarrow> string option \<Rightarrow> string option \<Rightarrow> string option \<Rightarrow> search_params" where
  "panel_params searchParams taskId commentId panel feed =
     (let params = set_or_delete ''panel'' panel (set_or_delete ''commentId'' commentId
            (set_or_delete ''taskId'' taskId (parse_params (params_to_string searchParams))))
      in case truthy_option feed of
           None \<Rightarrow> params
         | Some f \<Rightarrow> if f \<noteq> ''all'' then params_set ''feed'' f params else params_delete ''feed'' params)"

definition buildUrlWithTaskAndComment ::
  "string \<Rightarrow> search_params \<Rightarrow> string option \<Rightarrow> string option \<Rightarrow> string option \<Rightarrow> string option \<Rightarrow> string" where
  "buildUrlWithTaskAndComment pathname searchParams taskId commentId panel feed =
     with_query pathname (params_to_string (panel_params searchParams taskId commentId panel feed))"

definition liveFeedModeFromUrl :: "search_params \<Rightarrow> string" where
  "liveFeedModeFromUrl searchParams =
     (if isBoardLiveFeedCategory (params_get ''feed'' searchParams) then the (params_get ''feed'' searchParams)
      else ''all'')"

section \<open>The state\<close>

record panels =
  page_rows :: board_state
  searchParams :: search_params
  replaced :: "string option"
  hasLoadedBoardSnapshot :: bool
  isDetailOpen :: bool
  isChatOpen :: bool
  isLiveFeedOpen :: bool
  isEditDialogOpen :: bool
  openedTaskIdFromUrlRef :: "string option"
  openedPanelFromUrlRef :: "string option"
  highlightedCommentId :: "string option"
  liveFeedMode :: string
  commentsError :: "string option"
  postCommentError :: "string option"
  chatError :: "string option"
  commentRequests :: "js list"

definition taskIdFromUrl :: "panels \<Rightarrow> string option" where
  "taskIdFromUrl p = params_get ''taskId'' (searchParams p)"

definition commentIdFromUrl :: "panels \<Rightarrow> string option" where
  "commentIdFromUrl p = params_get ''commentId'' (searchParams p)"

definition panelFromUrl :: "panels \<Rightarrow> string option" where
  "panelFromUrl p = params_get ''panel'' (searchParams p)"

section \<open>Opening and closing\<close>

text \<open>\<open>loadComments\<close> up to its request.\<close>

definition loadComments_begin :: "js \<Rightarrow> panels \<Rightarrow> panels" where
  "loadComments_begin taskId p = p\<lparr>commentsError := None, commentRequests := commentRequests p @ [taskId]\<rparr>"

text \<open>An answer to any of the requests under way.\<close>

definition comments_answered ::
  "(int \<Rightarrow> int) \<Rightarrow> js \<Rightarrow> string option + js_record list \<Rightarrow> panels \<Rightarrow> panels" where
  "comments_answered tz taskId answer p =
     (let p' = p\<lparr>commentRequests := remove1 taskId (commentRequests p)\<rparr>
      in case answer of
           Inr items \<Rightarrow> p'\<lparr>page_rows := loadComments_end tz items (page_rows p)\<rparr>
         | Inl message \<Rightarrow> p'\<lparr>commentsError := Some (coalesce message ''Something went wrong.'')\<rparr>)"

definition open_task :: "string \<Rightarrow> js \<Rightarrow> bool \<Rightarrow> panels \<Rightarrow> panels" where
  "open_task pathname taskId preserveCommentTarget p =
     (let p1 = p\<lparr>isChatOpen := False, isLiveFeedOpen := False\<rparr>
      in case find_row taskId (tasksRef (page_rows p)) of
           None \<Rightarrow> p1
         | Some fullTask \<Rightarrow>
             (let fullId = prop_text fullTask ''id'';
                  targetCommentId = (if preserveCommentTarget then commentIdFromUrl p else None);
                  p2 = (if taskIdFromUrl p \<noteq> Some fullId \<or> commentIdFromUrl p \<noteq> targetCommentId
                        then p1\<lparr>replaced := Some (buildUrlWithTaskAndComment pathname (searchParams p)
                                                (Some fullId) targetCommentId None None)\<rparr>
                        else p1)
              in loadComments_begin taskId
                   (p2\<lparr>page_rows := openComments taskId (page_rows p), isDetailOpen := True\<rparr>)))"

text \<open>\<open>closeComments\<close>, with the address of the render that it was made in.\<close>

definition close_task_of :: "panels \<Rightarrow> string \<Rightarrow> panels \<Rightarrow> panels" where
  "close_task_of seen pathname p =
     p\<lparr>openedTaskIdFromUrlRef := None,
       replaced := (if truthy_option (taskIdFromUrl seen) \<noteq> None \<or> truthy_option (commentIdFromUrl seen) \<noteq> None
                    then Some (buildUrlWithTaskAndComment pathname (searchParams seen) None None None None)
                    else replaced p),
       isDetailOpen := False, page_rows := closeComments (page_rows p), highlightedCommentId := None,
       commentsError := None, postCommentError := None, isEditDialogOpen := False\<rparr>"

definition close_task :: "string \<Rightarrow> panels \<Rightarrow> panels" where
  "close_task pathname p = close_task_of p pathname p"

definition openBoardChat :: "string \<Rightarrow> panels \<Rightarrow> panels" where
  "openBoardChat pathname p =
     (let p1 = (if isDetailOpen p then close_task pathname p else p);
          p2 = p1\<lparr>isLiveFeedOpen := False\<rparr>;
          p3 = (if panelFromUrl p \<noteq> Some ''chat'' \<or> truthy_option (taskIdFromUrl p) \<noteq> None
                     \<or> truthy_option (commentIdFromUrl p) \<noteq> None
                then p2\<lparr>replaced := Some (buildUrlWithTaskAndComment pathname (searchParams p) None None (Some ''chat'') None)\<rparr>
                else p2)
      in p3\<lparr>isChatOpen := True\<rparr>)"

definition closeBoardChat :: "string \<Rightarrow> panels \<Rightarrow> panels" where
  "closeBoardChat pathname p =
     (let p1 = (if panelFromUrl p = Some ''chat''
                then p\<lparr>replaced := Some (buildUrlWithTaskAndComment pathname (searchParams p) None None None None)\<rparr>
                else p)
      in p1\<lparr>isChatOpen := False, chatError := None\<rparr>)"

definition openLiveFeed :: "string \<Rightarrow> panels \<Rightarrow> panels" where
  "openLiveFeed pathname p =
     (let p1 = (if isDetailOpen p then close_task pathname p else p);
          p2 = (if isChatOpen p then closeBoardChat pathname p1 else p1)
      in p2\<lparr>isLiveFeedOpen := True\<rparr>)"

definition closeLiveFeed :: "panels \<Rightarrow> panels" where
  "closeLiveFeed p = p\<lparr>isLiveFeedOpen := False\<rparr>"

text \<open>A click beside the panel.\<close>

definition close_panel :: "string \<Rightarrow> panels \<Rightarrow> panels" where
  "close_panel pathname p =
     (if isChatOpen p then closeBoardChat pathname p
      else if isLiveFeedOpen p then closeLiveFeed p else close_task pathname p)"

definition updateLiveFeedMode :: "string \<Rightarrow> string \<Rightarrow> panels \<Rightarrow> panels" where
  "updateLiveFeedMode pathname nextMode p =
     p\<lparr>liveFeedMode := nextMode,
       replaced := Some (buildUrlWithTaskAndComment pathname (searchParams p) (taskIdFromUrl p) (commentIdFromUrl p)
                           (if panelFromUrl p = Some ''chat'' then Some ''chat'' else None) (Some nextMode))\<rparr>"

section \<open>Effects\<close>

text \<open>The router arrives at the address that was asked for; the feed takes its filter from it when that changes.\<close>

definition navigated :: "panels \<Rightarrow> panels" where
  "navigated p =
     (case replaced p of
        None \<Rightarrow> p
      | Some url \<Rightarrow> p\<lparr>searchParams := link_query url, replaced := None,
                      liveFeedMode := (if liveFeedModeFromUrl (link_query url) = liveFeedModeFromUrl (searchParams p)
                        then liveFeedMode p else liveFeedModeFromUrl (link_query url))\<rparr>)"

definition task_from_url :: "string \<Rightarrow> panels \<Rightarrow> panels" where
  "task_from_url pathname p =
     (if \<not> hasLoadedBoardSnapshot p then p
      else case truthy_option (taskIdFromUrl p) of
             None \<Rightarrow> p\<lparr>openedTaskIdFromUrlRef := None\<rparr>
           | Some taskId \<Rightarrow>
               if openedTaskIdFromUrlRef p = Some taskId then p
               else if \<not> list_ex (\<lambda>task. row_id task = Str taskId) (tasks (page_rows p))
               then p\<lparr>replaced := Some (buildUrlWithTaskAndComment pathname (searchParams p) None None None None)\<rparr>
               else open_task pathname (Str taskId) True (p\<lparr>openedTaskIdFromUrlRef := Some taskId\<rparr>))"

text \<open>
  The effect runs after a render in which one of its dependencies is not that of the render
  before: the snapshot flag, the tasks, the id in the address, or one of the callbacks, which
  are new when the parameters of the address are. (A new array of equal rows counts as
  changed too; \<open>panel_step\<close> below leaves the render before arbitrary.)
\<close>

definition effect_dependencies :: "panels \<Rightarrow> bool \<times> search_params \<times> js_record list" where
  "effect_dependencies p = (hasLoadedBoardSnapshot p, searchParams p, tasks (page_rows p))"

definition run_task_effect :: "string \<Rightarrow> panels \<Rightarrow> panels \<Rightarrow> panels" where
  "run_task_effect pathname before p =
     (if effect_dependencies before = effect_dependencies p then p else task_from_url pathname p)"

definition panel_from_url :: "panels \<Rightarrow> panels" where
  "panel_from_url p =
     (if \<not> hasLoadedBoardSnapshot p then p
      else if panelFromUrl p \<noteq> Some ''chat'' then p\<lparr>openedPanelFromUrlRef := None\<rparr>
      else if openedPanelFromUrlRef p = Some ''chat'' then p
      else p\<lparr>openedPanelFromUrlRef := Some ''chat'', isDetailOpen := False,
             page_rows := (page_rows p)\<lparr>selectedTaskIdRef := None, selectedTask := None, comments := []\<rparr>,
             commentsError := None, postCommentError := None, isLiveFeedOpen := False, isChatOpen := True\<rparr>)"

definition highlight_comment :: "panels \<Rightarrow> panels" where
  "highlight_comment p =
     (case truthy_option (commentIdFromUrl p) of
        None \<Rightarrow> p\<lparr>highlightedCommentId := None\<rparr>
      | Some commentId \<Rightarrow>
          if \<not> isDetailOpen p then p\<lparr>highlightedCommentId := None\<rparr>
          else if list_ex (\<lambda>comment. row_id comment = Str commentId) (comments (page_rows p))
          then p\<lparr>highlightedCommentId := Some commentId\<rparr> else p)"

definition highlight_over :: "string \<Rightarrow> panels \<Rightarrow> panels" where
  "highlight_over target p =
     p\<lparr>highlightedCommentId := (if highlightedCommentId p = Some target then None else highlightedCommentId p)\<rparr>"

definition snapshot_started :: "panels \<Rightarrow> panels" where
  "snapshot_started p = p\<lparr>hasLoadedBoardSnapshot := False, chatError := None\<rparr>"

definition snapshot_settled :: "string option \<Rightarrow> panels \<Rightarrow> panels" where
  "snapshot_settled failure p =
     p\<lparr>hasLoadedBoardSnapshot := True, chatError := (if failure = None then chatError p else failure)\<rparr>"

section \<open>Answers\<close>

text \<open>The answer to a save: the rows and the selected task, and the dialog that asked to be closed.\<close>

definition save_answered ::
  "(client_error \<Rightarrow> string) \<Rightarrow> string option \<Rightarrow> js_record list \<Rightarrow> (js \<Rightarrow> js option) \<Rightarrow> js_record \<Rightarrow> bool
    \<Rightarrow> client_error + fetch_result \<Rightarrow> panels \<Rightarrow> panels" where
  "save_answered engine boardId known_agents titles selected closeOnSuccess result p =
     (let (b, failure) = handleTaskSave_end engine boardId known_agents titles selected result (page_rows p)
      in p\<lparr>page_rows := b,
           isEditDialogOpen := (if failure = None \<and> closeOnSuccess then False else isEditDialogOpen p)\<rparr>)"

text \<open>The answer to a deletion: the task is closed as it was when the deletion began (\<open>seen\<close>).\<close>

definition delete_answered ::
  "(client_error \<Rightarrow> string) \<Rightarrow> panels \<Rightarrow> string \<Rightarrow> js_record \<Rightarrow> caught option \<Rightarrow> panels \<Rightarrow> panels" where
  "delete_answered engine seen pathname selected failure p =
     (let (b, message) = handleDeleteTask_end engine selected failure (page_rows p);
          p' = p\<lparr>page_rows := b\<rparr>
      in if message = None then close_task_of seen pathname p' else p')"

definition comment_posted ::
  "(int \<Rightarrow> int) \<Rightarrow> (client_error \<Rightarrow> string) \<Rightarrow> caught + js_record \<Rightarrow> panels \<Rightarrow> panels" where
  "comment_posted tz engine result p =
     (case result of
        Inr created \<Rightarrow> p\<lparr>page_rows := handlePostComment_end tz created (page_rows p)\<rparr>
      | Inl err \<Rightarrow>
          (let message = formatActionError engine err ''Unable to send message.''
           in p\<lparr>postCommentError := Some message, page_rows := pushToast message ''error'' (page_rows p)\<rparr>))"

text \<open>The changes of the rows that leave the panels and the selected task alone.\<close>

inductive rows_step ::
  "(int \<Rightarrow> int) \<Rightarrow> (client_error \<Rightarrow> string) \<Rightarrow> string option \<Rightarrow> board_state \<Rightarrow> board_state \<Rightarrow> bool"
  for tz :: "int \<Rightarrow> int" and engine :: "client_error \<Rightarrow> string" and boardId :: "string option" where
  streams: "stream_step tz b b' \<Longrightarrow> rows_step tz engine boardId b b'"
| snapshot: "rows_step tz engine boardId b (loadBoard st sa sp sc b)"
| created: "rows_step tz engine boardId b (fst (handleCreateTask_end engine boardId ka created_task b))"
| move_begun: "rows_step tz engine boardId b (fst (handleTaskMove_begin i status b))"
| move_answered: "rows_step tz engine boardId b (handleTaskMove_end engine ti pm answer b)"
| decided: "rows_step tz engine boardId b (fst (handleApprovalDecision_end engine i decision b))"
| chat_posted: "rows_step tz engine boardId b (receive_chat tz message b)"
| dismissed: "rows_step tz engine boardId b (dismissToast toast b)"
| feed_reset: "rows_step tz engine boardId b (reset_feed b)"
| feed_history: "rows_step tz engine boardId b (fetchHistory_end tz bid gateway seen page b)"
| feed_polled: "rows_step tz engine boardId b (pollGenericActivity bid task_ids gateway items b)"
| feed_streamed: "rows_step tz engine boardId b (activity_frame payload b)"

section \<open>Steps\<close>

text \<open>What changes the panels, in any order: the user, the effects, the router, answers and the streams.\<close>

inductive panel_step ::
  "(int \<Rightarrow> int) \<Rightarrow> (client_error \<Rightarrow> string) \<Rightarrow> string option \<Rightarrow> string \<Rightarrow> panels \<Rightarrow> panels \<Rightarrow> bool"
  for tz :: "int \<Rightarrow> int" and engine :: "client_error \<Rightarrow> string" and boardId :: "string option" and pathname :: string where
  task_opened: "panel_step tz engine boardId pathname p (open_task pathname taskId False p)"
| task_closed: "panel_step tz engine boardId pathname p (close_task pathname p)"
| chat_opened: "panel_step tz engine boardId pathname p (openBoardChat pathname p)"
| chat_closed: "panel_step tz engine boardId pathname p (closeBoardChat pathname p)"
| feed_opened: "panel_step tz engine boardId pathname p (openLiveFeed pathname p)"
| feed_closed: "panel_step tz engine boardId pathname p (closeLiveFeed p)"
| panel_closed: "panel_step tz engine boardId pathname p (close_panel pathname p)"
| mode_chosen: "panel_step tz engine boardId pathname p (updateLiveFeedMode pathname mode p)"
| edit_toggled: "panel_step tz engine boardId pathname p (p\<lparr>isEditDialogOpen := b\<rparr>)"
| address: "panel_step tz engine boardId pathname p (navigated p)"
| task_effect: "panel_step tz engine boardId pathname p (run_task_effect pathname before p)"
| panel_effect: "panel_step tz engine boardId pathname p (panel_from_url p)"
| highlight_effect: "panel_step tz engine boardId pathname p (highlight_comment p)"
| highlight_timer: "panel_step tz engine boardId pathname p (highlight_over target p)"
| answered: "taskId \<in> set (commentRequests p) \<Longrightarrow> panel_step tz engine boardId pathname p (comments_answered tz taskId answer p)"
| snapshot_start: "panel_step tz engine boardId pathname p (snapshot_started p)"
| snapshot_end: "panel_step tz engine boardId pathname p (snapshot_settled failure p)"
| saved: "panel_step tz engine boardId pathname p (save_answered engine boardId ka ti sel close answer p)"
| deleted: "panel_step tz engine boardId pathname p (delete_answered engine seen pathname sel failure p)"
| posted: "panel_step tz engine boardId pathname p (comment_posted tz engine posted_comment p)"
| rows: "rows_step tz engine boardId (page_rows p) b \<Longrightarrow> panel_step tz engine boardId pathname p (p\<lparr>page_rows := b\<rparr>)"

definition initial_panels :: "search_params \<Rightarrow> panels" where
  "initial_panels params =
     \<lparr>page_rows = initial_board, searchParams = params, replaced = None, hasLoadedBoardSnapshot = False,
      isDetailOpen = False, isChatOpen = False, isLiveFeedOpen = False, isEditDialogOpen = False,
      openedTaskIdFromUrlRef = None, openedPanelFromUrlRef = None, highlightedCommentId = None,
      liveFeedMode = liveFeedModeFromUrl params, commentsError = None, postCommentError = None,
      chatError = None, commentRequests = []\<rparr>"

inductive reachable_panels ::
  "(int \<Rightarrow> int) \<Rightarrow> (client_error \<Rightarrow> string) \<Rightarrow> string option \<Rightarrow> string \<Rightarrow> panels \<Rightarrow> bool"
  for tz :: "int \<Rightarrow> int" and engine :: "client_error \<Rightarrow> string" and boardId :: "string option" and pathname :: string where
  initially: "reachable_panels tz engine boardId pathname (initial_panels params)"
| step: "reachable_panels tz engine boardId pathname p \<Longrightarrow> panel_step tz engine boardId pathname p p' \<Longrightarrow>
    reachable_panels tz engine boardId pathname p'"

section \<open>Lemmas\<close>

definition panels_ok :: "panels \<Rightarrow> bool" where
  "panels_ok p \<longleftrightarrow>
     \<not> (isDetailOpen p \<and> isChatOpen p) \<and> \<not> (isDetailOpen p \<and> isLiveFeedOpen p) \<and> \<not> (isChatOpen p \<and> isLiveFeedOpen p)
     \<and> (isDetailOpen p \<longrightarrow> selectedTask (page_rows p) \<noteq> None)"

lemma merge_selected_None [simp]: "merge_selected event selected = None \<longleftrightarrow> selected = None"
  by (simp add: merge_selected_def split: option.split)

lemma stream_keeps_selection:
  "stream_step tz b b' \<Longrightarrow> selectedTask b' = None \<longleftrightarrow> selectedTask b = None"
  by (induction rule: stream_step.induct)
    (simp_all add: task_frame_def put_incoming_def agent_frame_def approval_frame_def memory_frame_def
      receive_chat_def push_feed_def rendered_def Let_def split: option.split)

lemma selection_pushToast [simp]: "selectedTask (pushToast m n b) = selectedTask b"
  by (simp add: pushToast_def Let_def)

lemma selection_foldl_push [simp]:
  "selectedTask (foldl (\<lambda>b mapped. push_feed (Some mapped) b) b its) = selectedTask b"
  by (induction its arbitrary: b) simp_all

lemma rows_keep_selection:
  "rows_step tz engine boardId b b' \<Longrightarrow> selectedTask b' = None \<longleftrightarrow> selectedTask b = None"
proof (induction rule: rows_step.induct)
  case (streams b b')
  then show ?case by (rule stream_keeps_selection)
next
  case (feed_polled b bid task_ids gateway items)
  show ?case by (simp add: pollGenericActivity_def)
next
  case (feed_streamed b payload)
  show ?case by (simp add: activity_frame_def split: option.split)
qed (simp_all add: loadBoard_def handleCreateTask_end_def handleTaskMove_begin_def handleTaskMove_end_def
    handleApprovalDecision_end_def receive_chat_def dismissToast_def reset_feed_def fetchHistory_end_def Let_def
    split: sum.split option.split)

lemma answers_ok:
  "panels_ok p \<Longrightarrow> panels_ok (save_answered engine boardId ka ti sel close answer p)"
  "panels_ok p \<Longrightarrow> panels_ok (delete_answered engine seen pathname sel failure p)"
  "panels_ok p \<Longrightarrow> panels_ok (comment_posted tz engine posted p)"
  by (auto simp: panels_ok_def save_answered_def handleTaskSave_end_def delete_answered_def handleDeleteTask_end_def
      close_task_of_def comment_posted_def handlePostComment_end_def Let_def split: sum.splits caught.splits option.splits)

lemma open_task_ok:
  "panels_ok p \<Longrightarrow> panels_ok (open_task pathname taskId preserve p)"
  by (auto simp: panels_ok_def open_task_def loadComments_begin_def openComments_def Let_def split: option.split)

lemma close_task_ok:
  "panels_ok p \<Longrightarrow> panels_ok (close_task pathname p)"
  by (auto simp: panels_ok_def close_task_def close_task_of_def closeComments_def)

lemma chat_ok:
  "panels_ok p \<Longrightarrow> panels_ok (openBoardChat pathname p)" "panels_ok p \<Longrightarrow> panels_ok (closeBoardChat pathname p)"
  by (auto simp: panels_ok_def openBoardChat_def closeBoardChat_def close_task_def close_task_of_def closeComments_def Let_def)

lemma feed_panel_ok:
  "panels_ok p \<Longrightarrow> panels_ok (openLiveFeed pathname p)" "panels_ok p \<Longrightarrow> panels_ok (closeLiveFeed p)"
  by (auto simp: panels_ok_def openLiveFeed_def closeLiveFeed_def closeBoardChat_def close_task_def close_task_of_def closeComments_def Let_def)

lemma effects_ok:
  "panels_ok p \<Longrightarrow> panels_ok (navigated p)"
  "panels_ok p \<Longrightarrow> panels_ok (run_task_effect pathname before p)"
  "panels_ok p \<Longrightarrow> panels_ok (panel_from_url p)"
  "panels_ok p \<Longrightarrow> panels_ok (highlight_comment p)"
proof -
  assume ok: "panels_ok p"
  then have "panels_ok (p\<lparr>openedTaskIdFromUrlRef := r\<rparr>)" "panels_ok (p\<lparr>replaced := u\<rparr>)" for r u
    by (simp_all add: panels_ok_def)
  with ok show "panels_ok (run_task_effect pathname before p)"
    by (simp add: run_task_effect_def task_from_url_def open_task_ok split: option.split)
  from ok show "panels_ok (navigated p)" "panels_ok (panel_from_url p)" "panels_ok (highlight_comment p)"
    by (auto simp: panels_ok_def navigated_def panel_from_url_def highlight_comment_def split: option.split)
qed

lemma panel_step_ok: "panel_step tz engine boardId pathname p p' \<Longrightarrow> panels_ok p \<Longrightarrow> panels_ok p'"
proof (induction rule: panel_step.induct)
  case (rows p b)
  then show ?case using rows_keep_selection [OF rows(1)] by (auto simp: panels_ok_def)
next
  case (answered taskId p answer)
  then show ?case by (cases answer) (auto simp: comments_answered_def loadComments_end_def panels_ok_def Let_def)
qed (simp_all add: open_task_ok close_task_ok chat_ok feed_panel_ok effects_ok answers_ok close_panel_def,
  simp_all add: panels_ok_def updateLiveFeedMode_def highlight_over_def snapshot_started_def
    snapshot_settled_def)

lemma reachable_panels_ok: "reachable_panels tz engine boardId pathname p \<Longrightarrow> panels_ok p"
  by (induction rule: reachable_panels.induct)
    (simp_all add: panel_step_ok, simp add: panels_ok_def initial_panels_def initial_board_def)

lemma set_or_delete_get:
  "params_get k (set_or_delete k' v ps) = (if k = k' then truthy_option v else params_get k ps)"
  by (simp add: set_or_delete_def params_get_set params_get_delete split: option.split)

lemma other_params_set_or_delete [simp]:
  "k \<in> K \<Longrightarrow> other_params K (set_or_delete k v ps) = other_params K ps"
  by (simp add: set_or_delete_def split: option.split)

lemma panel_params_get:
  "params_get ''taskId'' (panel_params ps t c panel feed) = truthy_option t"
  "params_get ''commentId'' (panel_params ps t c panel feed) = truthy_option c"
  "params_get ''panel'' (panel_params ps t c panel feed) = truthy_option panel"
  by (simp_all add: panel_params_def Let_def set_or_delete_get params_get_set params_get_delete split: option.split)

lemma panel_params_other:
  "other_params {''taskId'', ''commentId'', ''panel''} (panel_params ps t c panel None)
    = other_params {''taskId'', ''commentId'', ''panel''} ps"
  by (simp add: panel_params_def Let_def truthy_option_def parse_params_to_string)

lemma url_read:
  "CHR ''?'' \<notin> set pathname \<Longrightarrow>
   link_query (buildUrlWithTaskAndComment pathname ps t c panel feed) = panel_params ps t c panel feed"
  by (simp add: buildUrlWithTaskAndComment_def link_with_query(2))

lemma find_row_id: "find_row i rows = Some r \<Longrightarrow> row_id r = i \<and> r \<in> set rows"
  by (auto simp: find_row_def find_Some_iff)

lemma find_row_ex: "row_id r = i \<Longrightarrow> r \<in> set rows \<Longrightarrow> \<exists>r'. find_row i rows = Some r'"
  by (cases "find_row i rows") (auto simp: find_row_def find_None_iff)

lemma prop_text_id: "row_id r = Str i \<Longrightarrow> prop_text r ''id'' = i"
  by (simp add: prop_text_def row_id_def)

lemma truthy_option_iff [simp]: "truthy_option v = Some s \<longleftrightarrow> v = Some s \<and> s \<noteq> []"
  by (auto simp: truthy_option_def split: option.split)

section \<open>Properties\<close>

text \<open>C5: whatever the user, the router, the server and the streams do, at most one of the three
  panels is open, and while the task panel is open a task is selected. (The converse fails: the
  answer to a save selects its task also when the panel was closed meanwhile.)\<close>

theorem panels_exclusive:
  assumes "reachable_panels tz engine boardId pathname p"
  shows "\<not> (isDetailOpen p \<and> isChatOpen p) \<and> \<not> (isDetailOpen p \<and> isLiveFeedOpen p)
    \<and> \<not> (isChatOpen p \<and> isLiveFeedOpen p)
    \<and> (isDetailOpen p \<longrightarrow> selectedTask (page_rows p) \<noteq> None)"
  using reachable_panels_ok [OF assms] by (auto simp: panels_ok_def)

theorem panels_exclusive_witness:
  "\<not> isChatOpen (openLiveFeed ''/b'' (openBoardChat ''/b'' (initial_panels [])))"
proof -
  let ?p = "openLiveFeed ''/b'' (openBoardChat ''/b'' (initial_panels []))"
  note opened = reachable_panels.step [OF reachable_panels.initially panel_step.chat_opened]
  have "reachable_panels id (\<lambda>_. []) None ''/b'' ?p" by (rule reachable_panels.step [OF opened panel_step.feed_opened])
  from panels_exclusive [OF this] have "\<not> (isChatOpen ?p \<and> isLiveFeedOpen ?p)" by blast
  moreover have "isLiveFeedOpen ?p" by (simp add: openLiveFeed_def Let_def)
  ultimately show ?thesis by blast
qed

text \<open>once the router has followed, the address names the task that was opened, without comment
  and chat and with the other parameters as they were; closing the task takes it out of the
  address again.\<close>

theorem address_follows_task:
  assumes "CHR ''?'' \<notin> set pathname" and "find_row (Str i) (tasksRef (page_rows p)) = Some task" and "i \<noteq> []"
    and "replaced p = None" and "p' = navigated (open_task pathname (Str i) False p)"
  shows "taskIdFromUrl p' = Some i \<and> commentIdFromUrl p' = None \<and> selectedTask (page_rows p') = Some task
    \<and> other_params {''taskId'', ''commentId'', ''panel''} (searchParams p')
      = other_params {''taskId'', ''commentId'', ''panel''} (searchParams p)
    \<and> taskIdFromUrl (navigated (close_task pathname p')) = None"
proof -
  have id: "prop_text task ''id'' = i" using find_row_id [OF assms(2)] by (simp add: prop_text_id)
  let ?ps = "if taskIdFromUrl p \<noteq> Some i \<or> commentIdFromUrl p \<noteq> None
    then panel_params (searchParams p) (Some i) None None None else searchParams p"
  have params: "searchParams p' = ?ps"
    using assms(1,2,4) id
    by (simp add: assms(5) open_task_def Let_def loadComments_begin_def navigated_def url_read)
  have "taskIdFromUrl p' = Some i" "commentIdFromUrl p' = None"
    unfolding taskIdFromUrl_def commentIdFromUrl_def params using assms(3)
    by (auto simp: panel_params_get taskIdFromUrl_def commentIdFromUrl_def truthy_option_def truthy_str_def)
  moreover have "selectedTask (page_rows p') = Some task"
    using assms(2) by (simp add: assms(5) open_task_def Let_def loadComments_begin_def navigated_def
        openComments_def split: option.split)
  moreover have "other_params {''taskId'', ''commentId'', ''panel''} (searchParams p')
      = other_params {''taskId'', ''commentId'', ''panel''} (searchParams p)"
    unfolding params by (simp add: panel_params_other)
  moreover have "taskIdFromUrl (navigated (close_task pathname p')) = None"
    using \<open>taskIdFromUrl p' = Some i\<close> assms(1,3)
    by (simp add: close_task_def close_task_of_def navigated_def taskIdFromUrl_def url_read panel_params_get
        truthy_option_def truthy_str_def)
  ultimately show ?thesis by blast
qed

definition shown_board :: board_state where
  "shown_board = initial_board\<lparr>tasks := [sample_task ''a''], tasksRef := [sample_task ''a'']\<rparr>"

lemma sample_row [simp]: "row_id (sample_task i) = Str i"
  by (simp add: row_id_def sample_task_def get_prop_def)

definition shown_panels :: "search_params \<Rightarrow> panels" where
  "shown_panels params = (initial_panels params)\<lparr>page_rows := shown_board, hasLoadedBoardSnapshot := True\<rparr>"

theorem address_follows_task_witness:
  "taskIdFromUrl (navigated (open_task ''/b'' (Str ''a'') False (shown_panels [(''feed'', ''runs''), (''panel'', ''chat'')]))) = Some ''a''"
proof -
  let ?p = "shown_panels [(''feed'', ''runs''), (''panel'', ''chat'')]"
  have "find_row (Str ''a'') (tasksRef (page_rows ?p)) = Some (sample_task ''a'')"
    by (simp add: shown_panels_def shown_board_def find_row_def)
  moreover have "replaced ?p = None" by (simp add: shown_panels_def initial_panels_def)
  ultimately show ?thesis using address_follows_task [of "''/b''" "''a''" ?p _ "navigated (open_task ''/b'' (Str ''a'') False ?p)"]
    by simp
qed

text \<open>C2: the link that the activity page gives a comment that it got from the log (not from a
  stream), opened on a loaded board that has
  its task, opens that task, keeps the address, and marks the comment as soon as the server
  has answered with it.\<close>

theorem activity_link_opens_comment:
  assumes "ae_event_type event = ''task.comment''" and "ae_task_id event = Some t" and "t \<noteq> []" and "b \<noteq> []"
    and "ae_id event \<noteq> []" and "fi_context_href (mapActivity s user (served (Some b) event)) = Some href"
    and "hasLoadedBoardSnapshot p" and "searchParams p = link_query href" and "openedTaskIdFromUrlRef p = None"
    and "find_row (Str t) (tasks (page_rows p)) = Some task" and "tasksRef (page_rows p) = tasks (page_rows p)"
    and "Str (ae_id event) \<in> (\<lambda>c. get_prop c ''id'') ` set items" and "\<forall>c \<in> set items. comment_ok c"
    and "opened = task_from_url pathname p"
    and "shown = highlight_comment (comments_answered tz (Str t) (Inr items) opened)"
  shows "selectedTask (page_rows opened) = Some task \<and> isDetailOpen opened \<and> replaced opened = replaced p
    \<and> highlightedCommentId shown = Some (ae_id event)"
proof -
  have query: "link_query href = [(''taskId'', t), (''commentId'', ae_id event)]"
    using loaded_comment_link [OF assms(1-5), of s user] assms(6) by auto
  then have url: "taskIdFromUrl p = Some t" "commentIdFromUrl p = Some (ae_id event)"
    by (simp_all add: taskIdFromUrl_def commentIdFromUrl_def assms(8) params_get_def)
  have row: "row_id task = Str t" "task \<in> set (tasks (page_rows p))" using find_row_id [OF assms(10)] by simp_all
  then have ex: "list_ex (\<lambda>task. row_id task = Str t) (tasks (page_rows p))" by (auto simp: list_ex_iff)
  have opened: "opened = open_task pathname (Str t) True (p\<lparr>openedTaskIdFromUrlRef := Some t\<rparr>)"
    using assms(3,7,9) ex url by (simp add: assms(14) task_from_url_def truthy_option_def truthy_str_def)
  have url': "taskIdFromUrl (p\<lparr>openedTaskIdFromUrlRef := Some t\<rparr>) = Some t"
    "commentIdFromUrl (p\<lparr>openedTaskIdFromUrlRef := Some t\<rparr>) = Some (ae_id event)"
    using url by (simp_all add: taskIdFromUrl_def commentIdFromUrl_def)
  note open_def = open_task_def Let_def loadComments_begin_def openComments_def
  have "selectedTask (page_rows opened) = Some task" "isDetailOpen opened" "replaced opened = replaced p"
    "searchParams opened = searchParams p"
    using assms(10,11) url' prop_text_id [OF row(1)] by (simp_all add: opened open_def)
  moreover have "Str (ae_id event) \<in> row_id ` set (mergeCommentsById tz [items])"
    using comments_ids [of "[items]" tz] assms(12,13) unfolding row_id_def by simp
  then have "list_ex (\<lambda>c. row_id c = Str (ae_id event)) (mergeCommentsById tz [items])"
    by (auto simp: list_ex_iff)
  ultimately show ?thesis
    using url assms(5)
    by (simp add: assms(15) comments_answered_def loadComments_end_def highlight_comment_def Let_def
        commentIdFromUrl_def truthy_option_def truthy_str_def)
qed

lemma sample_task_found [simp]:
  "find_row (Str ''a'') (tasks shown_board) = Some (sample_task ''a'')" "tasksRef shown_board = tasks shown_board"
  by (simp_all add: shown_board_def find_row_def)

theorem activity_link_opens_comment_witness:
  "\<exists>params. selectedTask (page_rows (task_from_url ''/b'' (shown_panels params))) = Some (sample_task ''a'')
    \<and> highlightedCommentId (highlight_comment (comments_answered id (Str ''a'')
        (Inr [[(''id'', Str ''e''), (''created_at'', Str ''2026-03-01'')]]) (task_from_url ''/b'' (shown_panels params)))) = Some ''e''"
proof -
  let ?event = "(sample_event ''e'')\<lparr>ae_task_id := Some ''a''\<rparr>"
  have event: "ae_event_type ?event = ''task.comment''" "ae_task_id ?event = Some ''a''" "ae_id ?event = ''e''"
    by (simp_all add: sample_event_def)
  obtain href where href: "fi_context_href (mapActivity initial_activity ''User'' (served (Some ''b'') ?event)) = Some href"
    using mapActivity_href by blast
  have id: "Str (ae_id ?event) \<in> (\<lambda>c. get_prop c ''id'') ` set [[(''id'', Str ''e''), (''created_at'', Str ''2026-03-01'')]]"
    by (simp add: event get_prop_def)
  have ok: "\<forall>c \<in> set [[(''id'', Str ''e''), (''created_at'', Str ''2026-03-01'')]]. comment_ok c"
    by (simp add: comment_ok_def get_prop_def)
  have state: "hasLoadedBoardSnapshot (shown_panels ps)" "searchParams (shown_panels ps) = ps"
    "openedTaskIdFromUrlRef (shown_panels ps) = None" "page_rows (shown_panels ps) = shown_board" for ps
    by (simp_all add: shown_panels_def initial_panels_def)
  from activity_link_opens_comment [OF event(1,2) _ _ _ href state(1,2,3) _ _ id ok refl refl, of "sample_task ''a''" "''/b''" id]
  show ?thesis by (auto simp: state(4) event(3))
qed

text \<open>C8: closing a task does not run the effect that opens the task of the address; but when a frame of
  the task stream that changes the tasks is rendered before the router has taken the task out
  of the address, the effect runs, the task opens again, and the address then names no task
  while the task is shown. A frame without a task leaves it closed.\<close>

theorem closed_task_reopens:
  assumes "hasLoadedBoardSnapshot p" and "taskIdFromUrl p = Some i" and "i \<noteq> []" and "CHR ''?'' \<notin> set pathname"
    and "left = close_task pathname p"
    and "framed = left\<lparr>page_rows := rendered (task_frame tz payload (page_rows left))\<rparr>"
    and "again = run_task_effect pathname left framed"
  shows "run_task_effect pathname p left = left \<and> \<not> isDetailOpen left
    \<and> (tp_task payload = None \<longrightarrow> \<not> isDetailOpen again)
    \<and> (tasks (page_rows framed) \<noteq> tasks (page_rows left)
        \<and> find_row (Str i) (tasks (page_rows framed)) = Some task \<longrightarrow>
        isDetailOpen again \<and> selectedTask (page_rows again) = Some task
        \<and> isDetailOpen (navigated again) \<and> taskIdFromUrl (navigated again) = None)"
proof -
  have url: "taskIdFromUrl framed = Some i" "commentIdFromUrl framed = commentIdFromUrl p" "openedTaskIdFromUrlRef framed = None"
    "hasLoadedBoardSnapshot framed"
    "replaced framed = Some (buildUrlWithTaskAndComment pathname (searchParams p) None None None None)"
    using assms(1-3) by (simp_all add: assms(5,6) close_task_def close_task_of_def taskIdFromUrl_def commentIdFromUrl_def truthy_option_def truthy_str_def)
  have refs: "tasksRef (page_rows framed) = tasks (page_rows framed)" by (simp add: assms(6) rendered_def)
  have left: "run_task_effect pathname p left = left" "\<not> isDetailOpen left" "\<not> isDetailOpen framed"
    by (simp_all add: assms(5,6) run_task_effect_def effect_dependencies_def close_task_def close_task_of_def closeComments_def)
  have same: "effect_dependencies left = effect_dependencies framed \<longleftrightarrow> tasks (page_rows framed) = tasks (page_rows left)"
    by (auto simp: assms(6) effect_dependencies_def)
  have quiet: "tasks (page_rows framed) = tasks (page_rows left)" if "tp_task payload = None"
    using that by (simp add: assms(6) rendered_def task_frame_def put_incoming_def Let_def split: option.split)
  have "isDetailOpen again \<and> selectedTask (page_rows again) = Some task
      \<and> isDetailOpen (navigated again) \<and> taskIdFromUrl (navigated again) = None"
    if "tasks (page_rows framed) \<noteq> tasks (page_rows left)" and task: "find_row (Str i) (tasks (page_rows framed)) = Some task"
  proof -
    have row: "row_id task = Str i" "task \<in> set (tasks (page_rows framed))" using find_row_id [OF task] by simp_all
    then have ex: "list_ex (\<lambda>task. row_id task = Str i) (tasks (page_rows framed))" by (auto simp: list_ex_iff)
    have "again = task_from_url pathname framed" using that(1) same by (simp add: assms(7) run_task_effect_def)
    then have "again = open_task pathname (Str i) True (framed\<lparr>openedTaskIdFromUrlRef := Some i\<rparr>)"
      using assms(3) ex url by (simp add: task_from_url_def truthy_option_def truthy_str_def)
    then have again: "isDetailOpen again" "selectedTask (page_rows again) = Some task" "replaced again = replaced framed"
      using task refs url(1) prop_text_id [OF row(1)]
      by (simp_all add: open_task_def Let_def loadComments_begin_def openComments_def taskIdFromUrl_def commentIdFromUrl_def)
    then have "isDetailOpen (navigated again)" "taskIdFromUrl (navigated again) = None"
      using url(5) assms(4)
      by (simp_all add: navigated_def taskIdFromUrl_def url_read panel_params_get truthy_option_def)
    with again show ?thesis by blast
  qed
  moreover have "\<not> isDetailOpen again" if "tp_task payload = None"
    using quiet [OF that] same left(3) by (simp add: assms(7) run_task_effect_def)
  ultimately show ?thesis using left by blast
qed

theorem closed_task_reopens_witness:
  "let left = close_task ''/b'' (shown_panels [(''taskId'', ''a'')]);
       event = task_event [(''id'', Str ''a''), (''title'', Str ''New'')]
   in isDetailOpen (run_task_effect ''/b'' left (left\<lparr>page_rows := rendered (task_frame id event (page_rows left))\<rparr>))"
proof -
  define p where "p = shown_panels [(''taskId'', ''a'')]"
  define x where "x = [(''id'', Str ''a''), (''title'', Str ''New'')]"
  define left where "left = close_task ''/b'' p"
  define framed where "framed = left\<lparr>page_rows := rendered (task_frame id (task_event x) (page_rows left))\<rparr>"
  have p: "hasLoadedBoardSnapshot p" "taskIdFromUrl p = Some ''a''" "tasks (page_rows left) = [sample_task ''a'']"
    by (simp_all add: p_def left_def shown_panels_def shown_board_def initial_panels_def taskIdFromUrl_def params_get_def
        close_task_def close_task_of_def closeComments_def)
  have x: "row_id x = Str ''a''" "get_prop x ''title'' = Str ''New''" by (simp_all add: x_def row_id_def get_prop_def)
  define t where "t = merged_task (agentsRef (page_rows left)) (sample_task ''a'') x"
  have "tasks (page_rows framed) = [t]"
    by (simp add: framed_def rendered_def tasks_task_event p(3) put_task_Cons x(1) t_def)
  moreover have "get_prop t ''title'' = Str ''New''" unfolding t_def by (subst merged_task_field) (simp_all add: x)
  then have "t \<noteq> sample_task ''a''" by (auto simp: sample_task_def get_prop_def)
  moreover have "row_id t = Str ''a''" using x(1) by (simp add: t_def)
  ultimately have "tasks (page_rows framed) \<noteq> tasks (page_rows left)" "find_row (Str ''a'') (tasks (page_rows framed)) = Some t"
    by (simp_all add: p(3) find_row_def)
  with closed_task_reopens [of p "''a''" "''/b''" left framed id "task_event x" "run_task_effect ''/b'' left framed" t,
      OF p(1,2) _ _ left_def framed_def refl]
  show ?thesis by (simp add: Let_def left_def [symmetric] p_def [symmetric] x_def [symmetric] framed_def [symmetric])
qed

definition two_tasks :: panels where
  "two_tasks = (shown_panels [])\<lparr>page_rows := initial_board\<lparr>tasksRef := [sample_task ''a'', sample_task ''b'']\<rparr>\<rparr>"

definition saved_a :: fetch_result where
  "saved_a = \<lparr>fr_data = JsonData (Obj (sample_task ''a'')), fr_status = 200, fr_headers = []\<rparr>"

text \<open>C20: the answer to a save selects the saved task again, whatever was done meanwhile: when
  another task was opened while the request ran, the panel shows the saved task, while the
  address names the other one and the comments asked for are the other one's.\<close>

theorem late_save_switches_task:
  assumes "find_row (Str b) (tasksRef (page_rows p)) = Some task_b" and "b \<noteq> []" and "CHR ''?'' \<notin> set pathname"
    and "replaced p = None" and "update_outcome titles ''Validation error while saving task.'' answer = Inr data"
    and "row_id data = Str a" and "row_id selected = Str a" and "a \<noteq> b"
    and "p2 = open_task pathname (Str b) False p"
    and "p3 = save_answered engine boardId known_agents titles selected close answer p2"
  shows "selectedTask (page_rows p2) = Some task_b \<and> isDetailOpen p3
    \<and> map_option row_id (selectedTask (page_rows p3)) = Some (Str a)
    \<and> selectedTask (page_rows p3) \<noteq> Some task_b \<and> last (commentRequests p3) = Str b \<and> taskIdFromUrl (navigated p3) = Some b"
proof -
  have id: "prop_text task_b ''id'' = b" using find_row_id [OF assms(1)] by (simp add: prop_text_id)
  note open_def = open_task_def Let_def loadComments_begin_def openComments_def
  have p2: "selectedTask (page_rows p2) = Some task_b" "isDetailOpen p2" "last (commentRequests p2) = Str b"
    "searchParams p2 = searchParams p"
    "replaced p2 = (if taskIdFromUrl p \<noteq> Some b \<or> commentIdFromUrl p \<noteq> None
       then Some (buildUrlWithTaskAndComment pathname (searchParams p) (Some b) None None None) else None)"
    using assms(1,4) id by (simp_all add: assms(9) open_def)
  have saved: "row_id (spread r data) = Str a" for r
    using assms(6) by (simp add: row_id_def get_prop_spread_defined)
  have p3: "isDetailOpen p3" "commentRequests p3 = commentRequests p2" "searchParams p3 = searchParams p2" "replaced p3 = replaced p2"
    "map_option row_id (selectedTask (page_rows p3)) = Some (Str a)"
    using p2(2) by (simp_all add: assms(5,10) save_answered_def handleTaskSave_end_def Let_def saved)
  have "taskIdFromUrl (navigated p3) = Some b"
    using p2(4,5) p3(3,4) assms(2,3)
    by (auto simp: navigated_def taskIdFromUrl_def url_read panel_params_get truthy_option_def truthy_str_def split: if_splits)
  moreover have "selectedTask (page_rows p3) \<noteq> Some task_b"
    using p3(5) find_row_id [OF assms(1)] assms(8) by auto
  ultimately show ?thesis using p2 p3 by simp
qed

theorem late_save_switches_task_witness:
  "let p2 = open_task ''/x'' (Str ''b'') False two_tasks;
       p3 = save_answered (\<lambda>_. []) None [] (\<lambda>_. None) (sample_task ''a'') True (Inr saved_a) p2
   in selectedTask (page_rows p2) = Some (sample_task ''b'') \<and> selectedTask (page_rows p3) \<noteq> Some (sample_task ''b'')"
proof -
  have found: "find_row (Str ''b'') (tasksRef (page_rows two_tasks)) = Some (sample_task ''b'')" "replaced two_tasks = None"
    by (simp_all add: two_tasks_def find_row_def shown_panels_def initial_panels_def)
  have outcome: "update_outcome (\<lambda>_. None) ''Validation error while saving task.'' (Inr saved_a) = Inr (sample_task ''a'')"
    by (simp add: update_outcome_def saved_a_def json_object_def)
  from late_save_switches_task [OF found(1) _ _ found(2) outcome, of "''/x''" "''a''" "sample_task ''a''"
      "open_task ''/x'' (Str ''b'') False two_tasks" _ "\<lambda>_. []" None "[]" True]
  show ?thesis by (simp add: Let_def)
qed

text \<open>comments of a task that was left are shown under the next one when their answer comes last: the
  answer is taken whatever task is open.\<close>

theorem late_comments_replace:
  assumes "find_row (Str a) (tasksRef (page_rows p)) = Some task_a" and "find_row (Str b) (tasksRef (page_rows p)) = Some task_b"
    and "p2 = open_task pathname (Str b) False (open_task pathname (Str a) False p)"
    and "p3 = comments_answered tz (Str a) (Inr comments_a) (comments_answered tz (Str b) (Inr comments_b) p2)"
  shows "{Str a, Str b} \<subseteq> set (commentRequests p2) \<and> selectedTask (page_rows p3) = Some task_b
    \<and> comments (page_rows p3) = mergeCommentsById tz [comments_a]"
  using assms(1,2)
  by (simp add: assms(3,4) open_task_def Let_def loadComments_begin_def openComments_def comments_answered_def loadComments_end_def)

theorem late_comments_replace_witness:
  "let p2 = open_task ''/x'' (Str ''b'') False (open_task ''/x'' (Str ''a'') False two_tasks);
       p3 = comments_answered id (Str ''a'') (Inr [[(''id'', Str ''c'')]]) (comments_answered id (Str ''b'') (Inr []) p2)
   in selectedTask (page_rows p3) = Some (sample_task ''b'') \<and> comments (page_rows p3) = mergeCommentsById id [[[(''id'', Str ''c'')]]]"
proof -
  have "find_row (Str ''a'') (tasksRef (page_rows two_tasks)) = Some (sample_task ''a'')"
    "find_row (Str ''b'') (tasksRef (page_rows two_tasks)) = Some (sample_task ''b'')"
    by (simp_all add: two_tasks_def find_row_def)
  from late_comments_replace [OF this refl refl, of "''/x''" id] show ?thesis by (simp add: Let_def)
qed

text \<open>the filter of the live feed survives a reload of its address, which keeps the open task and chat.\<close>

theorem feed_mode_round_trip:
  assumes "isBoardLiveFeedCategory (Some mode)" and "CHR ''?'' \<notin> set pathname"
    and "p' = navigated (updateLiveFeedMode pathname mode p)"
  shows "liveFeedMode p' = mode \<and> liveFeedMode (initial_panels (searchParams p')) = mode
    \<and> taskIdFromUrl p' = truthy_option (taskIdFromUrl p) \<and> commentIdFromUrl p' = truthy_option (commentIdFromUrl p)
    \<and> (panelFromUrl p' = Some ''chat'' \<longleftrightarrow> panelFromUrl p = Some ''chat'')"
proof -
  have mode: "mode \<noteq> []" using assms(1) by (auto simp: isBoardLiveFeedCategory_def BOARD_LIVE_FEED_FILTERS_def)
  let ?panel = "if panelFromUrl p = Some ''chat'' then Some ''chat'' else None"
  let ?ps = "panel_params (searchParams p) (taskIdFromUrl p) (commentIdFromUrl p) ?panel (Some mode)"
  have params: "searchParams p' = ?ps" "liveFeedMode p' = (if liveFeedModeFromUrl ?ps = liveFeedModeFromUrl (searchParams p) then mode else liveFeedModeFromUrl ?ps)"
    using assms(2) by (simp_all add: assms(3) updateLiveFeedMode_def navigated_def url_read)
  have feed: "params_get ''feed'' ?ps = (if mode = ''all'' then None else Some mode)"
    using mode by (simp add: panel_params_def Let_def truthy_option_def truthy_str_def params_get_set params_get_delete)
  have "liveFeedModeFromUrl ?ps = mode"
    using assms(1) unfolding liveFeedModeFromUrl_def feed
    by (auto simp: isBoardLiveFeedCategory_def BOARD_LIVE_FEED_FILTERS_def)
  then have "liveFeedMode p' = mode" "liveFeedMode (initial_panels (searchParams p')) = mode"
    by (simp_all add: params initial_panels_def)
  moreover have "taskIdFromUrl p' = truthy_option (taskIdFromUrl p)" "commentIdFromUrl p' = truthy_option (commentIdFromUrl p)"
    "panelFromUrl p' = Some ''chat'' \<longleftrightarrow> panelFromUrl p = Some ''chat''"
    unfolding taskIdFromUrl_def [of p'] commentIdFromUrl_def [of p'] panelFromUrl_def [of p'] params panel_params_get
    by (simp_all add: truthy_option_def truthy_str_def)
  ultimately show ?thesis by blast
qed

theorem feed_mode_round_trip_witness:
  "liveFeedMode (navigated (updateLiveFeedMode ''/b'' ''agents'' (shown_panels [(''taskId'', ''a'')]))) = ''agents''"
proof -
  have "isBoardLiveFeedCategory (Some ''agents'')" by (simp add: isBoardLiveFeedCategory_def BOARD_LIVE_FEED_FILTERS_def)
  from feed_mode_round_trip [OF this _ refl, of "''/b''" "shown_panels [(''taskId'', ''a'')]"] show ?thesis by simp
qed

end
