(* ===== verification/TaskBoard.thy ===== *)
theory TaskBoard
  imports BoardState JsJson
begin

text \<open>
  The kanban board (\<open>components/organisms/TaskBoard.tsx\<close>) and its cards
  (\<open>components/molecules/TaskCard.tsx\<close>): columns, the tabs of the review column, due dates,
  dragging a card to another column, and the animation that moves cards to their new places.
  The date format of the user's locale, the clock and the places of the cards are arguments.
\<close>

section \<open>Columns\<close>

definition columns :: "(string \<times> string) list" where
  "columns = [(''Inbox'', ''inbox''), (''In Progress'', ''in_progress''), (''Review'', ''review''), (''Done'', ''done'')]"

text \<open>
  \<open>buckets[task.status] ?? buckets.inbox\<close>. A status comes from the backend's enumeration, so
  the names that a JavaScript object inherits do not occur.
\<close>

definition bucket_key :: "js_record \<Rightarrow> string" where
  "bucket_key task =
     (case get_prop task ''status'' of
        Str status \<Rightarrow> if status \<in> snd ` set columns then status else ''inbox''
      | _ \<Rightarrow> ''inbox'')"

definition grouped :: "js_record list \<Rightarrow> (string \<times> js_record list) list" where
  "grouped task_rows =
     foldl (\<lambda>buckets task. map_set (bucket_key task) (coalesce (map_of buckets (bucket_key task)) [] @ [task]) buckets)
       (map (\<lambda>column. (snd column, [])) columns) task_rows"

text \<open>\<open>(task.approvals_pending_count ?? 0) > 0\<close> and \<open>=== 0\<close>\<close>

definition pending_count :: "js_record \<Rightarrow> rat option" where
  "pending_count task = as_finite (js_coalesce (get_prop task ''approvals_pending_count'') (Num (Fin 0)))"

definition has_pending :: "js_record \<Rightarrow> bool" where
  "has_pending task \<longleftrightarrow> (case pending_count task of None \<Rightarrow> False | Some n \<Rightarrow> n > 0)"

definition is_blocked :: "js_record \<Rightarrow> bool" where
  "is_blocked task \<longleftrightarrow> truthy (get_prop task ''is_blocked'')"

record review_counts =
  rc_all :: nat
  rc_approval_needed :: nat
  rc_waiting_lead :: nat
  rc_blocked :: nat

definition count_review :: "review_counts \<Rightarrow> js_record \<Rightarrow> review_counts" where
  "count_review acc task =
     (if is_blocked task then acc\<lparr>rc_blocked := rc_blocked acc + 1\<rparr>
      else if has_pending task then acc\<lparr>rc_approval_needed := rc_approval_needed acc + 1\<rparr>
      else acc\<lparr>rc_waiting_lead := rc_waiting_lead acc + 1\<rparr>)"

definition reviewCounts :: "js_record list \<Rightarrow> review_counts" where
  "reviewCounts columnTasks =
     foldl count_review
       \<lparr>rc_all = length columnTasks, rc_approval_needed = 0, rc_waiting_lead = 0, rc_blocked = 0\<rparr> columnTasks"

definition review_filter :: "string \<Rightarrow> js_record \<Rightarrow> bool" where
  "review_filter reviewBucket task =
     (if reviewBucket = ''blocked'' then is_blocked task
      else if reviewBucket = ''approval_needed'' then has_pending task \<and> \<not> is_blocked task
      else if reviewBucket = ''waiting_lead'' then \<not> is_blocked task \<and> pending_count task = Some 0
      else True)"

definition filteredTasks :: "string \<Rightarrow> string \<Rightarrow> js_record list \<Rightarrow> js_record list" where
  "filteredTasks reviewBucket status columnTasks =
     (if status = ''review'' \<and> reviewBucket \<noteq> ''all'' then filter (review_filter reviewBucket) columnTasks
      else columnTasks)"

text \<open>The number beside the label of a tab.\<close>

definition tab_count :: "string \<Rightarrow> review_counts \<Rightarrow> nat" where
  "tab_count key counts =
     (if key = ''approval_needed'' then rc_approval_needed counts
      else if key = ''waiting_lead'' then rc_waiting_lead counts
      else if key = ''blocked'' then rc_blocked counts else rc_all counts)"

definition review_tabs :: "(string \<times> string) list" where
  "review_tabs = [(''all'', ''All''), (''approval_needed'', ''Approval needed''), (''waiting_lead'', ''Lead review''),
     (''blocked'', ''Blocked'')]"

section \<open>Cards\<close>

record due_state =
  due :: "string option"
  isOverdue :: bool

definition resolveDueState :: "(int \<Rightarrow> int) \<Rightarrow> (int \<Rightarrow> string) \<Rightarrow> int \<Rightarrow> js_record \<Rightarrow> due_state" where
  "resolveDueState tz show_date now task =
     (case parseApiDatetime tz (str_prop task ''due_at'') of
        None \<Rightarrow> \<lparr>due = None, isOverdue = False\<rparr>
      | Some date \<Rightarrow>
          (let dueLabel = show_date date;
               overdue = get_prop task ''status'' \<noteq> Str ''done'' \<and> date < now
           in \<lparr>due = Some (if overdue then ''Overdue '' @ MIDDOT @ '' '' @ dueLabel else dueLabel), isOverdue = overdue\<rparr>))"

definition needsLeadReview :: "js_record \<Rightarrow> bool" where
  "needsLeadReview task \<longleftrightarrow>
     get_prop task ''status'' = Str ''review'' \<and> \<not> is_blocked task \<and> \<not> has_pending task"

definition leftBarClassName :: "js_record \<Rightarrow> string option" where
  "leftBarClassName task =
     (if is_blocked task then Some ''bg-rose-400''
      else if has_pending task then Some ''bg-amber-400''
      else if needsLeadReview task then Some ''bg-indigo-400'' else None)"

definition priorityBadge :: "string option \<Rightarrow> string option" where
  "priorityBadge v =
     (case (case v of None \<Rightarrow> None | Some s \<Rightarrow> truthy_str s) of
        None \<Rightarrow> None
      | Some s \<Rightarrow>
          (let normalized = to_lower s
           in Some (if normalized = ''high'' then ''bg-rose-100 text-rose-700''
                    else if normalized = ''medium'' then ''bg-amber-100 text-amber-700''
                    else if normalized = ''low'' then ''bg-emerald-100 text-emerald-700''
                    else ''bg-slate-100 text-slate-600'')))"

definition priorityLabel :: "string option \<Rightarrow> string" where
  "priorityLabel priority =
     (case (case priority of None \<Rightarrow> None | Some s \<Rightarrow> truthy_str s) of None \<Rightarrow> ''MEDIUM'' | Some s \<Rightarrow> to_upper s)"

section \<open>Dragging\<close>

record drag_state =
  draggingId :: "js option"
  activeColumn :: "string option"
  reviewBucket :: string

definition initial_drag :: drag_state where
  "initial_drag = \<lparr>draggingId = None, activeColumn = None, reviewBucket = ''all''\<rparr>"

definition drag_payload :: "js_record \<Rightarrow> js" where
  "drag_payload task = Obj [(''taskId'', row_id task), (''status'', get_prop task ''status'')]"

text \<open>The text that the drag carries, or \<open>None\<close> when it is prevented.\<close>

definition handleDragStart :: "bool \<Rightarrow> js_record \<Rightarrow> drag_state \<Rightarrow> drag_state \<times> string option" where
  "handleDragStart readOnly task d =
     (if readOnly then (d, None)
      else if is_blocked task then (d, None)
      else (d\<lparr>draggingId := Some (row_id task)\<rparr>, json_stringify (drag_payload task)))"

definition handleDragEnd :: "drag_state \<Rightarrow> drag_state" where
  "handleDragEnd d = d\<lparr>draggingId := None, activeColumn := None\<rparr>"

text \<open>The call of \<open>onTaskMove\<close> that a drop makes: the id as it was in the text.\<close>

definition drop_move :: "string \<Rightarrow> string \<Rightarrow> js option" where
  "drop_move status raw =
     (if raw = [] then None
      else case json_parse raw of
             Some (Obj payload) \<Rightarrow>
               if \<not> truthy (get_prop payload ''taskId'') \<or> \<not> truthy (get_prop payload ''status'') then None
               else if get_prop payload ''status'' = Str status then None
               else Some (get_prop payload ''taskId'')
           | _ \<Rightarrow> None)"

definition handleDrop :: "bool \<Rightarrow> string \<Rightarrow> string \<Rightarrow> drag_state \<Rightarrow> drag_state \<times> js option" where
  "handleDrop readOnly status raw d =
     (if readOnly then (d, None) else (d\<lparr>activeColumn := None\<rparr>, drop_move status raw))"

definition handleDragOver :: "bool \<Rightarrow> string \<Rightarrow> drag_state \<Rightarrow> drag_state" where
  "handleDragOver readOnly status d =
     (if readOnly then d else if activeColumn d \<noteq> Some status then d\<lparr>activeColumn := Some status\<rparr> else d)"

definition handleDragLeave :: "bool \<Rightarrow> string \<Rightarrow> drag_state \<Rightarrow> drag_state" where
  "handleDragLeave readOnly status d =
     (if readOnly then d else if activeColumn d = Some status then d\<lparr>activeColumn := None\<rparr> else d)"

section \<open>Moving cards\<close>

record card_style =
  st_transform :: string
  st_transition :: string
  st_willChange :: string
  st_position :: string
  st_zIndex :: string

definition no_style :: card_style where
  "no_style = \<lparr>st_transform = [], st_transition = [], st_willChange = [], st_position = [], st_zIndex = []\<rparr>"

type_synonym place = "rat \<times> rat"

text \<open>
  \<open>cards\<close> are the references to the mounted cards, \<open>raf\<close> and \<open>cleanup\<close> the cards that the
  pending animation frame and the pending timeout will touch. Elements are numbers.
\<close>

record flip_state =
  cards :: "(string \<times> nat) list"
  styles :: "nat \<Rightarrow> card_style"
  prevPositions :: "(string \<times> place) list"
  animatedTaskIds :: "string list"
  raf :: "nat list option"
  cleanup :: "nat list option"

text \<open>Places relative to the container: its corner and how far it is scrolled, when there is one.\<close>

definition measurePositions ::
  "(nat \<Rightarrow> place) \<Rightarrow> (place \<times> place) option \<Rightarrow> (string \<times> nat) list \<Rightarrow> (string \<times> place) list" where
  "measurePositions rect container mounted =
     map (\<lambda>(taskId, element).
       (taskId, case container of
          None \<Rightarrow> rect element
        | Some (corner, scroll) \<Rightarrow>
            (fst (rect element) - fst corner + fst scroll, snd (rect element) - snd corner + snd scroll))) mounted"

definition clear_styles :: "string list \<Rightarrow> flip_state \<Rightarrow> nat \<Rightarrow> card_style" where
  "clear_styles taskIds s =
     foldl (\<lambda>f taskId. case map_of (cards s) taskId of None \<Rightarrow> f | Some element \<Rightarrow> f(element := no_style)) (styles s) taskIds"

text \<open>The beginning of the effect, and its cleanup, which is the same code.\<close>

definition stop_animation :: "flip_state \<Rightarrow> flip_state" where
  "stop_animation s =
     s\<lparr>raf := None, cleanup := None, styles := clear_styles (animatedTaskIds s) s, animatedTaskIds := []\<rparr>"

definition effect_cleanup :: "flip_state \<Rightarrow> flip_state" where
  "effect_cleanup s = stop_animation s"

definition translate :: "rat \<times> rat \<Rightarrow> string" where
  "translate d = ''translate('' @ show_num (Fin (fst d)) @ ''px, '' @ show_num (Fin (snd d)) @ ''px)''"

definition moved_cards ::
  "(string \<times> nat) list \<Rightarrow> (string \<times> place) list \<Rightarrow> (string \<times> place) list \<Rightarrow> (string \<times> nat \<times> place) list" where
  "moved_cards mounted prev next =
     List.map_filter (\<lambda>(taskId, now).
       case map_of prev taskId of
         None \<Rightarrow> None
       | Some before \<Rightarrow>
           (let dx = fst before - fst now; dy = snd before - snd now
            in if \<bar>dx\<bar> < 1 \<and> \<bar>dy\<bar> < 1 then None
               else map_option (\<lambda>element. (taskId, element, (dx, dy))) (map_of mounted taskId))) next"

definition invert :: "(nat \<Rightarrow> card_style) \<Rightarrow> string \<times> nat \<times> place \<Rightarrow> nat \<Rightarrow> card_style" where
  "invert f move =
     f(fst (snd move) := (f (fst (snd move)))
       \<lparr>st_transform := translate (snd (snd move)), st_transition := ''transform 0s'', st_willChange := ''transform'',
        st_position := ''relative'', st_zIndex := ''1''\<rparr>)"

definition layout_effect ::
  "(nat \<Rightarrow> place) \<Rightarrow> (place \<times> place) option \<Rightarrow> bool \<Rightarrow> bool \<Rightarrow> flip_state \<Rightarrow> flip_state" where
  "layout_effect rect container dragging prefersReducedMotion s =
     (let s0 = stop_animation s;
          nextPositions = measurePositions rect container (cards s0);
          s1 = s0\<lparr>prevPositions := nextPositions\<rparr>;
          moved = moved_cards (cards s0) (prevPositions s0) nextPositions
      in if dragging \<or> prefersReducedMotion \<or> moved = [] then s1
         else s1\<lparr>animatedTaskIds := map fst moved, styles := foldl invert (styles s1) moved,
                 raf := Some (map (\<lambda>move. fst (snd move)) moved)\<rparr>)"

definition animation_frame :: "flip_state \<Rightarrow> flip_state" where
  "animation_frame s =
     (case raf s of
        None \<Rightarrow> s
      | Some elements \<Rightarrow>
          s\<lparr>styles := foldl (\<lambda>f e. f(e := (f e)\<lparr>st_transition := ''transform 240ms cubic-bezier(0.2, 0.8, 0.2, 1)'',
                                            st_transform := []\<rparr>)) (styles s) elements,
            cleanup := Some elements, raf := None\<rparr>)"

definition cleanup_timeout :: "flip_state \<Rightarrow> flip_state" where
  "cleanup_timeout s =
     (case cleanup s of
        None \<Rightarrow> s
      | Some elements \<Rightarrow>
          s\<lparr>styles := foldl (\<lambda>f e. f(e := (f e)\<lparr>st_transition := [], st_willChange := [], st_position := [],
                                            st_zIndex := []\<rparr>)) (styles s) elements,
            animatedTaskIds := [], cleanup := None\<rparr>)"

text \<open>
  React calls the callback of a reference with the element of a card and, before it calls another
  callback, the old one with \<open>null\<close>. \<open>setCardRef(task.id)\<close> is a new function in every render, so that
  every commit takes all references back and sets them again: they are gone when the cleanup of
  the effect runs, which comes after the changes to the children, and are back for the effect.
\<close>

definition setCardRef :: "string \<Rightarrow> nat option \<Rightarrow> flip_state \<Rightarrow> flip_state" where
  "setCardRef taskId node s =
     (case node of
        Some element \<Rightarrow> s\<lparr>cards := map_set taskId element (cards s)\<rparr>
      | None \<Rightarrow> s\<lparr>cards := filter (\<lambda>card. fst card \<noteq> taskId) (cards s)\<rparr>)"

definition detach_cards :: "flip_state \<Rightarrow> flip_state" where
  "detach_cards s = foldl (\<lambda>s card. setCardRef (fst card) None s) s (cards s)"

definition attach_cards :: "(string \<times> nat) list \<Rightarrow> flip_state \<Rightarrow> flip_state" where
  "attach_cards mounted s = foldl (\<lambda>s card. setCardRef (fst card) (Some (snd card)) s) s mounted"

text \<open>
  A render of the board with the cards \<open>mounted\<close>; \<open>changed\<close> says whether the tasks or the card that is
  dragged have changed. An effect that returned early has left no cleanup, and nothing to clean.
\<close>

definition commit ::
  "(string \<times> nat) list \<Rightarrow> bool \<Rightarrow> (nat \<Rightarrow> place) \<Rightarrow> (place \<times> place) option \<Rightarrow> bool \<Rightarrow> bool \<Rightarrow> flip_state \<Rightarrow> flip_state" where
  "commit mounted changed rect container dragging prefersReducedMotion s =
     (let s0 = detach_cards s;
          s1 = (if changed then effect_cleanup s0 else s0);
          s2 = attach_cards mounted s1
      in if changed then layout_effect rect container dragging prefersReducedMotion s2 else s2)"

definition initial_flip :: flip_state where
  "initial_flip = \<lparr>cards = [], styles = (\<lambda>e. no_style), prevPositions = [], animatedTaskIds = [], raf = None, cleanup = None\<rparr>"

inductive flip_step :: "flip_state \<Rightarrow> flip_state \<Rightarrow> bool" where
  render: "distinct (map fst mounted) \<Longrightarrow> flip_step s (commit mounted changed rect container dragging reduced s)"
| frame: "flip_step s (animation_frame s)"
| timeout: "flip_step s (cleanup_timeout s)"

inductive reachable_flip :: "flip_state \<Rightarrow> bool" where
  initially: "reachable_flip initial_flip"
| step: "reachable_flip s \<Longrightarrow> flip_step s s' \<Longrightarrow> reachable_flip s'"

section \<open>Lemmas on columns\<close>

lemma column_keys [simp]: "bucket_key task \<in> snd ` set columns"
  by (auto simp: bucket_key_def columns_def split: js.split)

lemma map_of_grouped:
  "status \<in> snd ` set columns \<Longrightarrow> map_of (grouped rows) status = Some (filter (\<lambda>task. bucket_key task = status) rows)"
proof (induction rows rule: rev_induct)
  case Nil
  then show ?case by (auto simp: grouped_def columns_def)
next
  case (snoc task rows)
  have step: "grouped (rows @ [task])
      = map_set (bucket_key task) (coalesce (map_of (grouped rows) (bucket_key task)) [] @ [task]) (grouped rows)"
    by (simp add: grouped_def)
  show ?case
  proof (cases "bucket_key task = status")
    case True
    with snoc show ?thesis by (simp add: step)
  next
    case False
    with snoc show ?thesis by (simp add: step)
  qed
qed

lemma counts_from:
  "foldl count_review acc rows =
     acc\<lparr>rc_blocked := rc_blocked acc + length (filter is_blocked rows),
         rc_approval_needed := rc_approval_needed acc + length (filter (\<lambda>t. \<not> is_blocked t \<and> has_pending t) rows),
         rc_waiting_lead := rc_waiting_lead acc + length (filter (\<lambda>t. \<not> is_blocked t \<and> \<not> has_pending t) rows)\<rparr>"
  by (induction rows arbitrary: acc) (simp_all add: count_review_def)

definition count_ok :: "js_record \<Rightarrow> bool" where
  "count_ok task \<longleftrightarrow> (case pending_count task of None \<Rightarrow> False | Some n \<Rightarrow> 0 \<le> n)"

lemma count_ok_pending: "count_ok task \<Longrightarrow> pending_count task = Some 0 \<longleftrightarrow> \<not> has_pending task"
  by (auto simp: count_ok_def has_pending_def split: option.splits)

lemma review_filters:
  "review_filter ''approval_needed'' = (\<lambda>t. has_pending t \<and> \<not> is_blocked t)"
  "review_filter ''waiting_lead'' = (\<lambda>t. \<not> is_blocked t \<and> pending_count t = Some 0)"
  "review_filter ''blocked'' = is_blocked"
  by (rule ext, simp add: review_filter_def)+

lemma columns_cover:
  "length rows = (\<Sum>column \<leftarrow> columns. length (coalesce (map_of (grouped rows) (snd column)) []))"
proof -
  have "coalesce (map_of (grouped rows) (snd column)) [] = filter (\<lambda>task. bucket_key task = snd column) rows"
    if "column \<in> set columns" for column
    using map_of_grouped [of "snd column" rows] that by simp
  then have "(\<Sum>column \<leftarrow> columns. length (coalesce (map_of (grouped rows) (snd column)) []))
      = (\<Sum>column \<leftarrow> columns. length (filter (\<lambda>task. bucket_key task = snd column) rows))"
    by (intro arg_cong [where f = sum_list] map_cong refl) simp
  also have "\<dots> = length rows"
  proof (induction rows)
    case (Cons task rows)
    then show ?case using column_keys [of task] by (auto simp: columns_def)
  qed (simp add: columns_def)
  finally show ?thesis by simp
qed

section \<open>Lemmas on the animation\<close>

lemma updates_other: "x \<notin> set es \<Longrightarrow> foldl (\<lambda>f e. f(e := g (f e))) f es x = f x"
  by (induction es arbitrary: f) auto

lemma updates_keep: "P (f x) \<Longrightarrow> (\<And>y. P y \<Longrightarrow> P (g y)) \<Longrightarrow> P (foldl (\<lambda>f e. f(e := g (f e))) f es x)"
proof (induction es arbitrary: f)
  case (Cons e es)
  have "P ((f(e := g (f e))) x)"
    using Cons.prems by (cases "x = e") simp_all
  with Cons.IH [of "f(e := g (f e))"] Cons.prems(2) show ?case by simp
qed simp

lemma updates_in:
  "x \<in> set es \<Longrightarrow> (\<And>y. P (g y)) \<Longrightarrow> P (foldl (\<lambda>f e. f(e := g (f e))) f es x)"
proof (induction es arbitrary: f)
  case (Cons e es)
  show ?case
  proof (cases "x \<in> set es")
    case True
    with Cons show ?thesis by simp
  next
    case False
    with Cons.prems updates_other [OF False, of g] show ?thesis by (auto simp: fun_upd_def)
  qed
qed simp

lemma no_style_iff:
  "y = no_style \<longleftrightarrow> st_transform y = [] \<and> st_transition y = [] \<and> st_willChange y = [] \<and> st_position y = [] \<and> st_zIndex y = []"
  by (cases y) (simp add: no_style_def)

lemma clear_styles_value:
  "clear_styles ts s e = (if \<exists>t \<in> set ts. map_of (cards s) t = Some e then no_style else styles s e)"
proof -
  have "foldl (\<lambda>f t. case map_of (cards s) t of None \<Rightarrow> f | Some element \<Rightarrow> f(element := no_style)) f ts e
      = (if \<exists>t \<in> set ts. map_of (cards s) t = Some e then no_style else f e)" for f
    by (induction ts arbitrary: f) (auto split: option.splits)
  then show ?thesis by (simp add: clear_styles_def)
qed

lemma detach_cards_simps [simp]: "detach_cards s = s\<lparr>cards := []\<rparr>"
proof -
  have "foldl (\<lambda>s card. setCardRef (fst card) None s) s xs
      = s\<lparr>cards := filter (\<lambda>card. fst card \<notin> fst ` set xs) (cards s)\<rparr>" for xs
  proof (induction xs arbitrary: s)
    case (Cons x xs)
    have "filter (\<lambda>card. fst card \<notin> fst ` set xs) (filter (\<lambda>card. fst card \<noteq> fst x) (cards s))
        = filter (\<lambda>card. fst card \<notin> fst ` set (x # xs)) (cards s)"
      by (auto intro: filter_cong)
    then show ?case unfolding foldl_Cons Cons.IH by (simp add: setCardRef_def)
  qed simp
  note this [of "cards s"]
  moreover have "filter (\<lambda>card. fst card \<notin> fst ` set (cards s)) (cards s) = []" by (auto simp: filter_empty_conv)
  ultimately show ?thesis by (simp add: detach_cards_def)
qed

lemma attach_cards_simps:
  "distinct (map fst mounted) \<Longrightarrow> fst ` set mounted \<inter> fst ` set (cards s) = {}
    \<Longrightarrow> attach_cards mounted s = s\<lparr>cards := cards s @ mounted\<rparr>"
proof (induction mounted arbitrary: s)
  case (Cons card mounted)
  then have "map_set (fst card) (snd card) (cards s) = cards s @ [card]" by (subst map_set_new) auto
  with Cons show ?case by (auto simp: attach_cards_def setCardRef_def)
qed (simp add: attach_cards_def)

lemma stop_without_cards [simp]:
  "stop_animation (s\<lparr>cards := []\<rparr>) = s\<lparr>cards := [], raf := None, cleanup := None, animatedTaskIds := []\<rparr>"
  by (simp add: stop_animation_def fun_eq_iff clear_styles_value flip_state.defs)

lemma stop_idle:
  "animatedTaskIds s = [] \<Longrightarrow> raf s = None \<Longrightarrow> cleanup s = None \<Longrightarrow> stop_animation s = s"
  by (simp add: stop_animation_def clear_styles_def)

lemma commit_changed:
  assumes "distinct (map fst mounted)"
  shows "commit mounted True rect container dragging reduced s =
    (let next = measurePositions rect container mounted; moved = moved_cards mounted (prevPositions s) next;
         s1 = s\<lparr>cards := mounted, prevPositions := next, raf := None, cleanup := None, animatedTaskIds := []\<rparr>
     in if dragging \<or> reduced \<or> moved = [] then s1
        else s1\<lparr>animatedTaskIds := map fst moved, styles := foldl invert (styles s) moved,
                raf := Some (map (\<lambda>move. fst (snd move)) moved)\<rparr>)"
  using assms by (simp add: commit_def effect_cleanup_def attach_cards_simps layout_effect_def stop_idle Let_def)

lemma invert_other: "e \<notin> (\<lambda>m. fst (snd m)) ` set moved \<Longrightarrow> foldl invert f moved e = f e"
  by (induction moved arbitrary: f) (auto simp: invert_def)

lemma commit_unchanged:
  "distinct (map fst mounted) \<Longrightarrow> commit mounted False rect container dragging reduced s = s\<lparr>cards := mounted\<rparr>"
  by (simp add: commit_def attach_cards_simps)

lemma invert_moved:
  "e \<in> (\<lambda>m. fst (snd m)) ` set moved \<Longrightarrow>
     st_willChange (foldl invert f moved e) = ''transform'' \<and> st_position (foldl invert f moved e) = ''relative''
     \<and> st_zIndex (foldl invert f moved e) = ''1''"
proof (induction moved arbitrary: f)
  case (Cons m moved)
  then show ?case
  proof (cases "e \<in> (\<lambda>m. fst (snd m)) ` set moved")
    case False
    with Cons.prems have "e = fst (snd m)" by auto
    with invert_other [OF False, of "invert f m"] have "foldl invert f (m # moved) e = invert f m e" by simp
    moreover have "st_willChange (invert f m e) = ''transform'' \<and> st_position (invert f m e) = ''relative'' \<and> st_zIndex (invert f m e) = ''1''"
      by (simp add: invert_def \<open>e = fst (snd m)\<close>)
    ultimately show ?thesis by simp
  qed simp
qed simp

text \<open>The styles of a card on its way, and what can happen as long as the card is not moved again.\<close>

definition on_the_way :: card_style where
  "on_the_way = \<lparr>st_transform = [], st_transition = ''transform 240ms cubic-bezier(0.2, 0.8, 0.2, 1)'',
     st_willChange = ''transform'', st_position = ''relative'', st_zIndex = ''1''\<rparr>"

inductive not_moved :: "nat \<Rightarrow> flip_state \<Rightarrow> flip_state \<Rightarrow> bool" for element :: nat where
  nothing: "not_moved element s s"
| another: "not_moved element s t \<Longrightarrow> flip_step t u \<Longrightarrow> element \<notin> set (coalesce (raf u) []) \<Longrightarrow> not_moved element s u"

lemma not_moved_keeps_style:
  assumes "not_moved element s t" and "raf s = None" and "cleanup s = None"
  shows "styles t element = styles s element \<and> element \<notin> set (coalesce (raf t) []) \<and> element \<notin> set (coalesce (cleanup t) [])"
  using assms
proof (induction rule: not_moved.induct)
  case (another s t u)
  then have t: "styles t element = styles s element" "element \<notin> set (coalesce (raf t) [])" "element \<notin> set (coalesce (cleanup t) [])"
    by simp_all
  from another.hyps(2) show ?case
  proof cases
    case (render mounted changed rect container dragging reduced)
    let ?moved = "moved_cards mounted (prevPositions t) (measurePositions rect container mounted)"
    show ?thesis
    proof (cases changed)
      case True
      with another.hyps(3) have "element \<notin> (\<lambda>m. fst (snd m)) ` set ?moved \<or> dragging \<or> reduced \<or> ?moved = []"
        unfolding render(1) by (auto simp: commit_changed [OF render(2)] Let_def split: if_splits)
      with True t another.hyps(3) show ?thesis
        unfolding render(1) by (auto simp: commit_changed [OF render(2)] invert_other Let_def)
    next
      case False
      with t show ?thesis unfolding render(1) by (simp add: commit_unchanged [OF render(2)])
    qed
  next
    case frame
    let ?g = "\<lambda>y. y\<lparr>st_transition := ''transform 240ms cubic-bezier(0.2, 0.8, 0.2, 1)'', st_transform := []\<rparr>"
    from t frame show ?thesis
      by (cases "raf t") (simp_all add: animation_frame_def updates_other [where g = ?g])
  next
    case timeout
    let ?h = "\<lambda>y. y\<lparr>st_transition := [], st_willChange := [], st_position := [], st_zIndex := []\<rparr>"
    from t timeout show ?thesis
      by (cases "cleanup t") (simp_all add: cleanup_timeout_def updates_other [where g = ?h])
  qed
qed simp

text \<open>A frame and the timeout after it leave no style on the cards they touch.\<close>

lemma frame_and_timeout:
  assumes "raf s = Some es"
  shows "styles (cleanup_timeout (animation_frame s)) e = (if e \<in> set es then no_style else styles s e)"
proof -
  let ?g = "\<lambda>y. y\<lparr>st_transition := ''transform 240ms cubic-bezier(0.2, 0.8, 0.2, 1)'', st_transform := []\<rparr>"
  let ?h = "\<lambda>y. y\<lparr>st_transition := [], st_willChange := [], st_position := [], st_zIndex := []\<rparr>"
  let ?f = "foldl (\<lambda>f e. f(e := ?g (f e))) (styles s) es"
  have styles: "styles (cleanup_timeout (animation_frame s)) = foldl (\<lambda>f e. f(e := ?h (f e))) ?f es"
    using assms by (simp add: animation_frame_def cleanup_timeout_def)
  show ?thesis
  proof (cases "e \<in> set es")
    case True
    have "st_transform (?f e) = []" by (rule updates_in [OF True, where g = ?g and P = "\<lambda>y. st_transform y = []"]) simp
    then have "st_transform (foldl (\<lambda>f e. f(e := ?h (f e))) ?f es e) = []"
      by (rule updates_keep [where g = ?h and P = "\<lambda>y. st_transform y = []"]) simp
    moreover have "st_transition (foldl (\<lambda>f e. f(e := ?h (f e))) ?f es e) = []
        \<and> st_willChange (foldl (\<lambda>f e. f(e := ?h (f e))) ?f es e) = []
        \<and> st_position (foldl (\<lambda>f e. f(e := ?h (f e))) ?f es e) = []
        \<and> st_zIndex (foldl (\<lambda>f e. f(e := ?h (f e))) ?f es e) = []"
      by (rule updates_in [OF True, where g = ?h
          and P = "\<lambda>y. st_transition y = [] \<and> st_willChange y = [] \<and> st_position y = [] \<and> st_zIndex y = []"]) simp
    ultimately show ?thesis using True by (simp add: styles no_style_iff)
  next
    case False
    then show ?thesis using updates_other [OF False, of ?g "styles s"] updates_other [OF False, of ?h ?f]
      by (simp add: styles)
  qed
qed

section \<open>Properties\<close>

text \<open>C13: every task is in exactly one column, in the order of the tasks, and the four numbers beside the
  tabs of the review column are the lengths of the lists the tabs show.\<close>

theorem board_columns:
  assumes "list_all count_ok rows" and "status \<in> snd ` set columns" and "key \<in> fst ` set review_tabs"
  shows "map_of (grouped rows) status = Some (filter (\<lambda>task. bucket_key task = status) rows)
    \<and> tab_count key (reviewCounts rows) = length (filteredTasks key ''review'' rows)
    \<and> length rows = (\<Sum>column \<leftarrow> columns. length (coalesce (map_of (grouped rows) (snd column)) []))"
proof -
  have "tab_count key (reviewCounts rows) = length (filteredTasks key ''review'' rows)"
  proof -
    have lead: "filter (\<lambda>t. \<not> is_blocked t \<and> pending_count t = Some 0) rows = filter (\<lambda>t. \<not> is_blocked t \<and> \<not> has_pending t) rows"
      using assms(1) count_ok_pending by (intro filter_cong refl) (auto simp: list_all_iff)
    have "filter (\<lambda>t. has_pending t \<and> \<not> is_blocked t) rows = filter (\<lambda>t. \<not> is_blocked t \<and> has_pending t) rows"
      by (intro filter_cong refl) blast
    note lists = lead this
    from assms(3) consider "key = ''all''" | "key = ''approval_needed''" | "key = ''waiting_lead''" | "key = ''blocked''"
      by (auto simp: review_tabs_def)
    then show ?thesis
      by cases (simp_all add: tab_count_def reviewCounts_def counts_from filteredTasks_def review_filters lists)
  qed
  with map_of_grouped [OF assms(2), of rows] columns_cover [of rows] show ?thesis by simp
qed

definition review_task :: "string \<Rightarrow> bool \<Rightarrow> js_record" where
  "review_task i blocked = [(''id'', Str i), (''status'', Str ''review''), (''is_blocked'', Bool blocked)]"

theorem board_columns_witness:
  "tab_count ''waiting_lead'' (reviewCounts [review_task ''a'' False, review_task ''b'' True]) = 1"
proof -
  let ?rows = "[review_task ''a'' False, review_task ''b'' True]"
  have fields: "pending_count (review_task i b) = Some 0" "is_blocked (review_task i b) = b" for i b
    by (simp_all add: pending_count_def is_blocked_def review_task_def get_prop_def js_coalesce_def nullish_def)
  have "list_all count_ok ?rows" by (simp add: count_ok_def fields)
  from board_columns [OF this, of "''review''" "''waiting_lead''"]
  have "tab_count ''waiting_lead'' (reviewCounts ?rows) = length (filteredTasks ''waiting_lead'' ''review'' ?rows)"
    by (simp add: columns_def review_tabs_def)
  then show ?thesis by (simp add: filteredTasks_def review_filter_def fields)
qed

text \<open>C12: a card that is dragged and dropped on a column asks to move its task there, unless the board is
  read-only, the task is blocked or the column is the task's own.\<close>

theorem drag_and_drop:
  assumes "row_id task = Str i" and "i \<noteq> []" and "get_prop task ''status'' = Str current" and "current \<noteq> []"
    and "handleDragStart readOnly task d = (d', carried)"
  shows "(carried = None \<longleftrightarrow> readOnly \<or> is_blocked task)
    \<and> (\<forall>raw status. carried = Some raw \<longrightarrow>
        draggingId d' = Some (Str i)
        \<and> handleDrop readOnly status raw d' = (d'\<lparr>activeColumn := None\<rparr>, if status = current then None else Some (Str i)))"
proof (cases "readOnly \<or> is_blocked task")
  case True
  with assms(5) have "carried = None" by (auto simp: handleDragStart_def split: if_splits)
  with True show ?thesis by simp
next
  case False
  have ok: "json_ok (drag_payload task)" using assms(1,3) by (simp add: drag_payload_def)
  then obtain raw where raw: "json_stringify (drag_payload task) = Some raw"
    using json_ok_text [OF ok] by (auto simp: json_stringify_def)
  have parsed: "json_parse raw = Some (drag_payload task)"
    using json_parse_text [OF _ _ ok, of "[]" raw] raw by (simp add: json_stringify_def)
  have "json_parse [] = None" by (simp add: json_parse_def skip_space_def)
  with parsed have nonempty: "raw \<noteq> []" by auto
  have "drop_move status raw = (if status = current then None else Some (Str i))" for status
    using parsed nonempty assms(1-4) by (auto simp: drop_move_def drag_payload_def get_prop_def)
  moreover have "carried = Some raw" "d' = d\<lparr>draggingId := Some (Str i)\<rparr>"
    using False assms(1,5) raw by (simp_all add: handleDragStart_def)
  ultimately show ?thesis using False by (simp add: handleDrop_def)
qed

theorem drag_and_drop_witness:
  "\<exists>d' raw. handleDragStart False (review_task ''a'' False) initial_drag = (d', Some raw)
    \<and> snd (handleDrop False ''done'' raw d') = Some (Str ''a'')"
proof -
  obtain d' carried where start: "handleDragStart False (review_task ''a'' False) initial_drag = (d', carried)"
    by fastforce
  have "row_id (review_task ''a'' False) = Str ''a''" "get_prop (review_task ''a'' False) ''status'' = Str ''review''"
    by (simp_all add: row_id_def review_task_def get_prop_def)
  with drag_and_drop [OF _ _ _ _ start, of "''a''" "''review''"] start show ?thesis
    by (auto simp: is_blocked_def review_task_def get_prop_def)
qed

text \<open>C10: an animation that is left alone ends: when a render moves cards and its frame and its timeout
  run, the cards that were moved have no style left, no other card is touched, and nothing is pending.\<close>

theorem animation_ends:
  assumes "distinct (map fst mounted)"
    and "s = commit mounted True rect container dragging reduced s0"
    and "s' = cleanup_timeout (animation_frame s)"
  shows "styles s' element = (if element \<in> set (coalesce (raf s) []) then no_style else styles s0 element)
    \<and> raf s' = None \<and> cleanup s' = None \<and> animatedTaskIds s' = []"
proof (cases "raf s")
  case None
  then have "s' = s" "styles s = styles s0" "animatedTaskIds s = []" "cleanup s = None"
    using assms by (auto simp: commit_changed animation_frame_def cleanup_timeout_def Let_def split: if_splits)
  with None show ?thesis by simp
next
  case (Some es)
  have "styles s element = styles s0 element" if "element \<notin> set es"
  proof -
    let ?moved = "moved_cards mounted (prevPositions s0) (measurePositions rect container mounted)"
    have "styles s = foldl invert (styles s0) ?moved \<and> es = map (\<lambda>move. fst (snd move)) ?moved"
      using Some unfolding assms(2) commit_changed [OF assms(1)] by (simp add: Let_def split: if_splits)
    with that show ?thesis by (simp add: invert_other)
  qed
  with frame_and_timeout [OF Some, of element] Some show ?thesis
    by (simp add: assms(3) animation_frame_def cleanup_timeout_def)
qed


definition all_at :: "rat \<Rightarrow> nat \<Rightarrow> place" where
  "all_at y element = (0, y)"

definition shifted_board :: flip_state where
  "shifted_board = commit [(''a'', 0)] True (all_at 40) None False False (commit [(''a'', 0)] True (all_at 0) None False False initial_flip)"

lemma shifted_board_raf: "raf shifted_board = Some [0]"
  by (simp add: shifted_board_def commit_changed measurePositions_def moved_cards_def List.map_filter_def
    initial_flip_def all_at_def Let_def)

lemma shifted_board_reachable: "reachable_flip shifted_board"
  unfolding shifted_board_def by (rule reachable_flip.step [OF reachable_flip.step [OF initially render] render]) simp_all

theorem animation_ends_witness:
  "reachable_flip shifted_board \<and> raf shifted_board = Some [0]
    \<and> styles (cleanup_timeout (animation_frame shifted_board)) 0 = no_style"
  using animation_ends [OF _ shifted_board_def refl, of 0] shifted_board_raf shifted_board_reachable by simp


end
