(* ===== verification/DashboardSessions.thy ===== *)
theory DashboardSessions
  imports JsCalendar JsErrors JsObjects JsCollections
begin

text \<open>
  Sessions and gateways on the dashboard (\<open>src/app/dashboard/page.tsx\<close>): how it reads the
  records that gateways report, which sessions it shows, and what it says about the gateways.
  The answer of the backend's status service (\<open>backend/app/services/openclaw/session_service.py\<close>,
  \<open>get_status\<close>, and its error texts) is here, too. Numbers are rationals, without negative zero; the \<open>en-US\<close> number format is an argument \<open>fmt\<close>,
  the locale order an argument \<open>loc\<close>.
\<close>

section \<open>Numbers as text\<close>

definition js_round :: "rat \<Rightarrow> int" where
  "js_round x = \<lfloor>x + 1 / 2\<rfloor>"

text \<open>\<open>x.toFixed(digits)\<close> for numbers below \<open>10^21\<close>.\<close>

definition fixed_text :: "nat \<Rightarrow> rat \<Rightarrow> string" where
  "fixed_text digits x =
     (let n = nat (js_round (\<bar>x\<bar> * 10 ^ digits));
          s = show_nat n;
          t = replicate (Suc digits - length s) (CHR ''0'') @ s
      in (if x < 0 then ''-'' else []) @ take (length t - digits) t
         @ (if digits = 0 then [] else ''.'' @ drop (length t - digits) t))"

definition compactNumber :: "(rat \<Rightarrow> string) \<Rightarrow> rat \<Rightarrow> string" where
  "compactNumber fmt value =
     (if 1000000 \<le> \<bar>value\<bar> then fixed_text 1 (value / 1000000) @ ''m''
      else if 1000 \<le> \<bar>value\<bar> then fixed_text 1 (value / 1000) @ ''k''
      else fmt value)"

definition formatCount :: "(rat \<Rightarrow> string) \<Rightarrow> rat \<Rightarrow> string" where
  "formatCount fmt value = fmt (of_int (max 0 (js_round value)))"

definition formatPercent :: "rat \<Rightarrow> string" where
  "formatPercent value = fixed_text 1 value @ ''%''"

definition formatPerDay :: "rat \<Rightarrow> rat \<Rightarrow> string" where
  "formatPerDay amount days = (if days \<le> 0 then DASH else fixed_text 1 (amount / days) @ ''/day'')"

section \<open>Reading records\<close>

definition SESSION_ID_KEYS :: "string list" where
  "SESSION_ID_KEYS = [''key'', ''id'', ''session_key'', ''sessionKey'', ''sessionId'']"

definition session_record :: "js \<Rightarrow> js_record option" where
  "session_record value = as_record value"

text \<open>A loop that returns from its body: the first value there is.\<close>

fun first_some :: "('a \<Rightarrow> 'b option) \<Rightarrow> 'a list \<Rightarrow> 'b option" where
  "first_some f [] = None"
| "first_some f (x # xs) = or_else (f x) (first_some f xs)"

definition field_string :: "js_record option \<Rightarrow> string list \<Rightarrow> string option" where
  "field_string record keys =
     (case record of None \<Rightarrow> None | Some r \<Rightarrow> first_some (\<lambda>key. trimmed_string (get_prop r key)) keys)"

definition number_char :: "char \<Rightarrow> bool" where
  "number_char c \<longleftrightarrow> is_digit c \<or> c = CHR ''.'' \<or> c = CHR ''-''"

fun number_value :: "js \<Rightarrow> rat option" where
  "number_value (Num n) = as_finite (Num n)"
| "number_value (Str s) = as_finite (Num (parse_float (filter number_char s)))"
| "number_value _ = None"

definition field_number :: "js_record option \<Rightarrow> string list \<Rightarrow> rat option" where
  "field_number record keys =
     (case record of None \<Rightarrow> None | Some r \<Rightarrow> first_some (\<lambda>key. number_value (get_prop r key)) keys)"

definition readStringFromRecords :: "js_record option list \<Rightarrow> string list \<Rightarrow> string option" where
  "readStringFromRecords records keys = first_some (\<lambda>record. field_string record keys) records"

definition readNumberFromRecords :: "js_record option list \<Rightarrow> string list \<Rightarrow> rat option" where
  "readNumberFromRecords records keys = first_some (\<lambda>record. field_number record keys) records"

definition normalizeEpochMs :: "rat \<Rightarrow> rat" where
  "normalizeEpochMs value =
     (if 1000000000000 \<le> value then value else if 1000000000 \<le> value then value * 1000 else value)"

text \<open>\<open>new Date(ms)\<close>: cut to an integer, invalid beyond 8.64e15.\<close>

definition time_clip :: "rat \<Rightarrow> int option" where
  "time_clip ms = (if 8640000000000000 < \<bar>ms\<bar> then None else Some (rat_trunc ms))"

definition iso_date :: "int \<Rightarrow> string" where
  "iso_date ms =
     (let year = fst (civil_from_days (ms div ms_per_day))
      in if 0 \<le> year \<and> year \<le> 9999 then toISOString ms
         else (if year < 0 then ''-'' else ''+'') @ pad 6 \<bar>year\<bar> @ drop (length (pad 4 year)) (toISOString ms))"

definition epoch_text :: "rat \<Rightarrow> string option" where
  "epoch_text value = map_option iso_date (time_clip (normalizeEpochMs value))"

fun timestamp_value :: "(int \<Rightarrow> int) \<Rightarrow> js \<Rightarrow> string option" where
  "timestamp_value tz (Num n) = (case as_finite (Num n) of None \<Rightarrow> None | Some q \<Rightarrow> epoch_text q)"
| "timestamp_value tz (Str s) =
     (let trimmed = trim s
      in if trimmed = [] then None
         else or_else (case as_finite (Num (parse_float trimmed)) of None \<Rightarrow> None | Some q \<Rightarrow> epoch_text q)
                (map_option iso_date (parseTimestamp tz (Some trimmed))))"
| "timestamp_value tz _ = None"

definition readTimestamp :: "(int \<Rightarrow> int) \<Rightarrow> js_record option \<Rightarrow> string list \<Rightarrow> string option" where
  "readTimestamp tz record keys =
     (case record of None \<Rightarrow> None | Some r \<Rightarrow> first_some (\<lambda>key. timestamp_value tz (get_prop r key)) keys)"

definition readTimestampFromRecords :: "(int \<Rightarrow> int) \<Rightarrow> js_record option list \<Rightarrow> string list \<Rightarrow> string option" where
  "readTimestampFromRecords tz records keys = first_some (\<lambda>record. readTimestamp tz record keys) records"

definition sessionIdentifiers :: "js_record option \<Rightarrow> string list" where
  "sessionIdentifiers record =
     (case record of
        None \<Rightarrow> []
      | Some r \<Rightarrow> set_add_all (List.map_filter (\<lambda>key. field_string record [key]) SESSION_ID_KEYS) [])"

definition sharesSessionIdentity :: "string list \<Rightarrow> string list \<Rightarrow> bool" where
  "sharesSessionIdentity left right \<longleftrightarrow> list_ex (\<lambda>value. value \<in> set right) left"

section \<open>Sessions\<close>

record SessionSummary =
  ss_key :: string
  ss_title :: string
  ss_subtitle :: string
  ss_usage :: string
  ss_lastSeenAt :: "string option"
  ss_isMain :: bool

definition seen_keys :: "string list" where
  "seen_keys =
     [''updated_at'', ''updatedAt'', ''last_updated_at'', ''lastUpdatedAt'', ''last_seen_at'', ''lastSeen'', ''last_seen'',
      ''last_active_at'', ''lastActiveAt'', ''lastActivityAt'', ''activityAt'', ''created_at'', ''createdAt'']"

definition used_keys :: "string list" where
  "used_keys =
     [''used'', ''used_tokens'', ''tokens'', ''current'', ''token_count'', ''tokenCount'', ''totalTokens'', ''total_tokens'',
      ''inputTokens'', ''input_tokens'']"

definition max_keys :: "string list" where
  "max_keys =
     [''max'', ''limit'', ''token_limit'', ''capacity'', ''max_tokens'', ''maxTokens'', ''context_window'',
      ''contextWindow'', ''contextTokens'', ''context_tokens'', ''maxContextTokens'', ''max_context_tokens'']"

definition pct_keys :: "string list" where
  "pct_keys =
     [''pct'', ''percent'', ''ratio_pct'', ''ratioPct'', ''token_pct'', ''usage_pct'', ''percentUsed'', ''contextPercent'']"

text \<open>The main session is put in front unless a session of the list shares an identifier with it.\<close>

definition with_main :: "js_record list \<Rightarrow> js_record option \<Rightarrow> js_record list" where
  "with_main sessionRecords mainRecord =
     (case mainRecord of
        None \<Rightarrow> sessionRecords
      | Some main \<Rightarrow>
          if sessionIdentifiers mainRecord \<noteq> []
             \<and> \<not> list_ex (\<lambda>entry. sharesSessionIdentity (sessionIdentifiers (Some entry)) (sessionIdentifiers mainRecord)) sessionRecords
          then main # sessionRecords else sessionRecords)"

definition add_unique :: "js_record list \<times> string list \<Rightarrow> js_record \<Rightarrow> js_record list \<times> string list" where
  "add_unique acc entry =
     (let identifiers = sessionIdentifiers (Some entry)
      in if list_ex (\<lambda>value. value \<in> set (snd acc)) identifiers then acc
         else (fst acc @ [entry], set_add_all identifiers (snd acc)))"

definition uniqueRecords :: "js_record list \<Rightarrow> js_record list" where
  "uniqueRecords sessionRecords = fst (foldl add_unique ([], []) sessionRecords)"

definition clamp_percent :: "rat \<Rightarrow> int" where
  "clamp_percent value = max 0 (min 100 (js_round value))"

definition usage_pct :: "rat option \<Rightarrow> rat option \<Rightarrow> rat option \<Rightarrow> int" where
  "usage_pct pctFromPayload usedTokens maxTokens =
     (case pctFromPayload of
        Some pct \<Rightarrow> clamp_percent pct
      | None \<Rightarrow>
          (case (usedTokens, maxTokens) of
             (Some used, Some limit) \<Rightarrow> if 0 < limit then clamp_percent (used / limit * 100) else 0
           | _ \<Rightarrow> 0))"

definition usage_text :: "(rat \<Rightarrow> string) \<Rightarrow> rat option \<Rightarrow> rat option \<Rightarrow> rat option \<Rightarrow> string" where
  "usage_text fmt pctFromPayload usedTokens maxTokens =
     (case usedTokens of
        None \<Rightarrow> DASH
      | Some used \<Rightarrow>
          (case maxTokens of
             Some limit \<Rightarrow>
               compactNumber fmt used @ ''/'' @ compactNumber fmt limit
               @ '' ('' @ show_int (usage_pct pctFromPayload usedTokens maxTokens) @ ''%)''
           | None \<Rightarrow> compactNumber fmt used @ '' tokens''))"

definition present :: "'a option list \<Rightarrow> 'a list" where
  "present xs = List.map_filter id xs"

definition session_subtitle :: "string option \<Rightarrow> string option \<Rightarrow> string option \<Rightarrow> string" where
  "session_subtitle channel model modelProvider =
     (let dot = '' '' @ MIDDOT @ '' '';
          subtitleBits = present [channel, model];
          subtitle = (if subtitleBits \<noteq> [] then join dot subtitleBits else ''Session'');
          modelWithProvider =
            (case (modelProvider, model) of
               (Some provider, Some m) \<Rightarrow> if provider \<noteq> m then Some (m @ dot @ provider) else model
             | _ \<Rightarrow> model);
          subtitleWithProvider = join dot (present [channel, modelWithProvider])
      in if subtitleWithProvider \<noteq> [] then subtitleWithProvider else subtitle)"

definition session_summary ::
  "(rat \<Rightarrow> string) \<Rightarrow> (int \<Rightarrow> int) \<Rightarrow> string list \<Rightarrow> nat \<Rightarrow> js_record \<Rightarrow> SessionSummary" where
  "session_summary fmt tz mainIdentifiers index entry =
     (let record = Some entry;
          candidates = record # map (\<lambda>key. session_record (get_prop entry key)) [''usage'', ''stats'', ''metrics''];
          key = coalesce (field_string record [''key'', ''session_key'', ''sessionKey'', ''id'', ''sessionId''])
                  (''session-'' @ show_nat index);
          channel = readStringFromRecords [record, session_record (get_prop entry ''origin'')]
                      [''channel'', ''source'', ''kind'', ''chatType''];
          model = field_string record [''model'', ''model_name'', ''provider'', ''engine''];
          modelProvider = field_string record [''modelProvider'', ''model_provider'', ''provider'']
      in \<lparr>ss_key = key,
          ss_title = coalesce (field_string record [''label'', ''name'', ''title'']) key,
          ss_subtitle = session_subtitle channel model modelProvider,
          ss_usage = usage_text fmt (readNumberFromRecords candidates pct_keys)
                       (readNumberFromRecords candidates used_keys) (readNumberFromRecords candidates max_keys),
          ss_lastSeenAt = readTimestampFromRecords tz candidates seen_keys,
          ss_isMain = (mainIdentifiers \<noteq> [] \<and> sharesSessionIdentity (sessionIdentifiers record) mainIdentifiers)\<rparr>)"

definition toSessionSummaries ::
  "(rat \<Rightarrow> string) \<Rightarrow> (int \<Rightarrow> int) \<Rightarrow> js list \<Rightarrow> js \<Rightarrow> SessionSummary list" where
  "toSessionSummaries fmt tz sessions mainSession =
     (let mainRecord = session_record mainSession
      in map (\<lambda>(index, entry). session_summary fmt tz (sessionIdentifiers mainRecord) index entry)
           (enumerate 0 (uniqueRecords (with_main (List.map_filter session_record sessions) mainRecord))))"

section \<open>Gateways\<close>

record GatewayTarget =
  gatewayId :: string
  boardId :: string
  boardName :: string

record GatewaySnapshot =
  gs_target :: GatewayTarget
  gs_connected :: bool
  gs_gatewayUrl :: "string option"
  gs_sessionsCount :: int
  gs_sessions :: "js list"
  gs_mainSession :: js
  gs_mainSessionError :: "string option"
  gs_error :: "string option"
  gs_requestError :: "string option"

text \<open>The answer of \<open>/api/v1/gateways/status\<close>, as its generated type describes it.\<close>

record GatewaysStatus =
  gw_connected :: bool
  gw_gateway_url :: "string option"
  gw_sessions_count :: "int option"
  gw_sessions :: js
  gw_main_session :: js
  gw_main_session_error :: "string option"
  gw_error :: "string option"

datatype status_reply =
    Answer nat GatewaysStatus
  | Failure bool "string option"

definition by_name :: "(string \<Rightarrow> string \<Rightarrow> int) \<Rightarrow> js_record list \<Rightarrow> js_record list" where
  "by_name loc rows = js_sort (cmp_on loc (\<lambda>row. prop_text row ''name'')) rows"

definition onlineAgents :: "js_record list \<Rightarrow> nat" where
  "onlineAgents agents =
     length (filter (\<lambda>agent. to_lower (coalesce (str_prop agent ''status'') []) = ''online'') agents)"

definition add_gateway :: "(string \<times> GatewayTarget) list \<Rightarrow> js_record \<Rightarrow> (string \<times> GatewayTarget) list" where
  "add_gateway byGateway board =
     (case truthy_str (prop_text board ''gateway_id'') of
        None \<Rightarrow> byGateway
      | Some g \<Rightarrow>
          if map_of byGateway g \<noteq> None then byGateway
          else map_set g \<lparr>gatewayId = g, boardId = prop_text board ''id'', boardName = prop_text board ''name''\<rparr> byGateway)"

definition gatewayTargets :: "(string \<Rightarrow> string \<Rightarrow> int) \<Rightarrow> js_record list \<Rightarrow> GatewayTarget list" where
  "gatewayTargets loc boards = js_sort (cmp_on loc boardName) (map snd (foldl add_gateway [] boards))"

definition failed_snapshot :: "GatewayTarget \<Rightarrow> string \<Rightarrow> GatewaySnapshot" where
  "failed_snapshot target message =
     \<lparr>gs_target = target, gs_connected = False, gs_gatewayUrl = None, gs_sessionsCount = 0, gs_sessions = [],
      gs_mainSession = Null, gs_mainSessionError = None, gs_error = None, gs_requestError = Some message\<rparr>"

text \<open>\<open>None\<close> when the error is thrown on because the query was aborted.\<close>

definition gateway_snapshot :: "GatewayTarget \<Rightarrow> status_reply \<Rightarrow> GatewaySnapshot option" where
  "gateway_snapshot target reply =
     (case reply of
        Answer status payload \<Rightarrow>
          if status \<noteq> 200
          then Some (failed_snapshot target (''Gateway status request failed ('' @ show_nat status @ '')''))
          else Some \<lparr>gs_target = target, gs_connected = gw_connected payload, gs_gatewayUrl = gw_gateway_url payload,
                 gs_sessionsCount = coalesce (gw_sessions_count payload) 0,
                 gs_sessions = (case gw_sessions payload of Arr xs \<Rightarrow> xs | _ \<Rightarrow> []),
                 gs_mainSession = js_coalesce (gw_main_session payload) Null,
                 gs_mainSessionError = gw_main_session_error payload, gs_error = gw_error payload,
                 gs_requestError = None\<rparr>
      | Failure aborted message \<Rightarrow>
          if aborted then None
          else Some (failed_snapshot target (coalesce message ''Gateway status request failed.'')))"

definition shown_text :: "string option \<Rightarrow> string option" where
  "shown_text v = (case v of None \<Rightarrow> None | Some s \<Rightarrow> truthy_str s)"

definition unavailable :: "GatewaySnapshot \<Rightarrow> bool" where
  "unavailable snapshot \<longleftrightarrow> shown_text (gs_requestError snapshot) \<noteq> None"

definition snapshot_sessions :: "(rat \<Rightarrow> string) \<Rightarrow> (int \<Rightarrow> int) \<Rightarrow> GatewaySnapshot \<Rightarrow> SessionSummary list" where
  "snapshot_sessions fmt tz snapshot =
     (if unavailable snapshot then []
      else (let sourceLabel = coalesce (shown_text (gs_gatewayUrl snapshot)) (boardName (gs_target snapshot))
            in map (\<lambda>session. session\<lparr>ss_key := gatewayId (gs_target snapshot) @ '':'' @ ss_key session,
                      ss_subtitle := sourceLabel @ '' '' @ MIDDOT @ '' '' @ ss_subtitle session\<rparr>)
                 (toSessionSummaries fmt tz (gs_sessions snapshot) (gs_mainSession snapshot))))"

definition sessionSummaries :: "(rat \<Rightarrow> string) \<Rightarrow> (int \<Rightarrow> int) \<Rightarrow> GatewaySnapshot list \<Rightarrow> SessionSummary list" where
  "sessionSummaries fmt tz snapshots = concat (map (snapshot_sessions fmt tz) snapshots)"

definition gatewayConnectedCount :: "GatewaySnapshot list \<Rightarrow> nat" where
  "gatewayConnectedCount snapshots = length (filter (\<lambda>s. \<not> unavailable s \<and> gs_connected s) snapshots)"

definition gatewayDisconnectedCount :: "GatewaySnapshot list \<Rightarrow> nat" where
  "gatewayDisconnectedCount snapshots = length (filter (\<lambda>s. \<not> unavailable s \<and> \<not> gs_connected s) snapshots)"

definition gatewayUnavailableCount :: "GatewaySnapshot list \<Rightarrow> nat" where
  "gatewayUnavailableCount snapshots = length (filter unavailable snapshots)"

definition unhealthy :: "GatewaySnapshot \<Rightarrow> bool" where
  "unhealthy s \<longleftrightarrow> shown_text (gs_error s) \<noteq> None \<or> shown_text (gs_mainSessionError s) \<noteq> None"

definition gatewayHealthErrorCount :: "GatewaySnapshot list \<Rightarrow> nat" where
  "gatewayHealthErrorCount snapshots = length (filter unhealthy snapshots)"

definition activeSessions :: "GatewaySnapshot list \<Rightarrow> SessionSummary list \<Rightarrow> int" where
  "activeSessions snapshots summaries =
     max (foldl (\<lambda>acc s. acc + max 0 (gs_sessionsCount s)) 0 snapshots) (int (length summaries))"

text \<open>The arguments are the number of targets and whether the statuses are still loading.\<close>

definition gatewayStatusLabel :: "nat \<Rightarrow> bool \<Rightarrow> GatewaySnapshot list \<Rightarrow> string" where
  "gatewayStatusLabel targets isLoading snapshots =
     (if targets = 0 then ''Not configured''
      else if isLoading then ''Checking''
      else if gatewayConnectedCount snapshots = targets then ''All connected''
      else if 0 < gatewayConnectedCount snapshots then ''Partially connected''
      else if gatewayUnavailableCount snapshots = targets then ''Unavailable'' else ''Disconnected'')"

definition gatewayBadgeTone :: "string \<Rightarrow> string" where
  "gatewayBadgeTone label =
     (if label = ''All connected'' then ''online''
      else if label = ''Partially connected'' \<or> label = ''Disconnected'' \<or> label = ''Unavailable'' then ''offline''
      else ''neutral'')"

definition gatewayStatusTone :: "string \<Rightarrow> string" where
  "gatewayStatusTone label =
     (if label = ''All connected'' then ''success''
      else if label = ''Checking'' \<or> label = ''Not configured'' then ''default''
      else if label = ''Partially connected'' \<or> label = ''Disconnected'' then ''warning''
      else ''danger'')"

record SummaryRow =
  row_label :: string
  row_value :: string
  row_tone :: "string option"

definition toned :: "bool \<Rightarrow> string \<Rightarrow> string \<Rightarrow> string option" where
  "toned test yes no = Some (if test then yes else no)"

definition gatewayRows :: "(rat \<Rightarrow> string) \<Rightarrow> nat \<Rightarrow> bool \<Rightarrow> GatewaySnapshot list \<Rightarrow> SummaryRow list" where
  "gatewayRows fmt targets isLoading snapshots =
     (let label = gatewayStatusLabel targets isLoading snapshots;
          issues = gatewayHealthErrorCount snapshots + gatewayDisconnectedCount snapshots
      in [\<lparr>row_label = ''Gateway status'', row_value = label, row_tone = Some (gatewayStatusTone label)\<rparr>,
          \<lparr>row_label = ''Configured gateways'', row_value = formatCount fmt (of_nat targets), row_tone = None\<rparr>,
          \<lparr>row_label = ''Connected gateways'', row_value = formatCount fmt (of_nat (gatewayConnectedCount snapshots)),
           row_tone = toned (0 < gatewayConnectedCount snapshots) ''success'' ''default''\<rparr>,
          \<lparr>row_label = ''Unavailable gateways'', row_value = formatCount fmt (of_nat (gatewayUnavailableCount snapshots)),
           row_tone = toned (0 < gatewayUnavailableCount snapshots) ''danger'' ''default''\<rparr>,
          \<lparr>row_label = ''Gateways with issues'', row_value = formatCount fmt (of_nat issues),
           row_tone = toned (0 < issues) ''warning'' ''success''\<rparr>])"

section \<open>The status of a gateway in the backend\<close>

text \<open>
  \<open>backend/app/services/openclaw/session_service.py\<close>: the payload of \<open>/gateways/status\<close>. What the
  gateway answers is an argument: the version check (an error text, nothing, or the message of
  an incompatible version), the list of sessions and, when the gateway has one, its main
  session. Texts are those of \<open>str(exc)\<close>.
\<close>

text \<open>The regular expression \<open>missing\s+scope\s*:\s*(?P<scope>[A-Za-z0-9._:-]+)\<close>, ignoring case, at a place and anywhere.\<close>

definition scope_char :: "char \<Rightarrow> bool" where
  "scope_char c \<longleftrightarrow> is_digit c \<or> (let n = char_code c in 65 \<le> n \<and> n \<le> 90 \<or> 97 \<le> n \<and> n \<le> 122) \<or> c \<in> set ''._:-''"

definition scope_at :: "string \<Rightarrow> string option" where
  "scope_at s =
     (if \<not> starts_with (to_lower s) ''missing'' then None
      else (let s1 = drop 7 s; s2 = strip py_whitespace s1
            in if length s2 = length s1 \<or> \<not> starts_with (to_lower s2) ''scope'' then None
               else (case strip py_whitespace (drop 5 s2) of
                       c # s3 \<Rightarrow>
                         (let scope = takeWhile scope_char (strip py_whitespace s3)
                          in if c = CHR '':'' \<and> scope \<noteq> [] then Some scope else None)
                     | [] \<Rightarrow> None)))"

fun missing_scope :: "string \<Rightarrow> string option" where
  "missing_scope [] = None"
| "missing_scope (c # s) = or_else (scope_at (c # s)) (missing_scope s)"

definition auth_failed :: string where
  "auth_failed = ''Gateway authentication failed. Verify gateway token and operator scopes.''"

definition normalize_gateway_error_message :: "string \<Rightarrow> string" where
  "normalize_gateway_error_message message =
     (let raw_message = py_strip message
      in if raw_message = [] then auth_failed
         else (case missing_scope raw_message of
                 Some scope \<Rightarrow> ''Gateway token is missing required scope `'' @ scope
                   @ ''`. Update the gateway token scopes and retry.''
               | None \<Rightarrow>
                   (let lowered = to_lower raw_message
                    in if str_includes lowered ''unauthorized'' \<or> str_includes lowered ''forbidden'' then auth_failed
                       else raw_message)))"

fun as_object_list :: "js \<Rightarrow> js list" where
  "as_object_list (Arr xs) = xs"
| "as_object_list _ = []"

text \<open>Truth in Python: an empty list or object is false.\<close>

fun py_true :: "js \<Rightarrow> bool" where
  "py_true (Arr xs) = (xs \<noteq> [])"
| "py_true (Obj p) = (p \<noteq> [])"
| "py_true (Num NaN) = True"
| "py_true v = truthy v"

definition failed_status :: "string \<Rightarrow> string \<Rightarrow> GatewaysStatus" where
  "failed_status url message =
     \<lparr>gw_connected = False, gw_gateway_url = Some url, gw_sessions_count = None, gw_sessions = Null,
      gw_main_session = Null, gw_main_session_error = None, gw_error = Some message\<rparr>"

definition get_status ::
  "string \<Rightarrow> string + string option \<Rightarrow> string + js \<Rightarrow> (string + js) option \<Rightarrow> GatewaysStatus" where
  "get_status url compatibility sessions main =
     (case compatibility of
        Inl exc \<Rightarrow> failed_status url (normalize_gateway_error_message exc)
      | Inr (Some message) \<Rightarrow> failed_status url message
      | Inr None \<Rightarrow>
          (case sessions of
             Inl exc \<Rightarrow> failed_status url (normalize_gateway_error_message exc)
           | Inr listed \<Rightarrow>
               (let sessions_list = as_object_list (case listed of Obj p \<Rightarrow> js_coalesce (get_prop p ''sessions'') Null | v \<Rightarrow> v)
                in \<lparr>gw_connected = True, gw_gateway_url = Some url, gw_sessions_count = Some (int (length sessions_list)),
                    gw_sessions = Arr sessions_list,
                    gw_main_session = (case main of
                        Some (Inr (Obj p)) \<Rightarrow> if py_true (get_prop p ''entry'') then get_prop p ''entry'' else Obj p
                      | _ \<Rightarrow> Null),
                    gw_main_session_error = (case main of Some (Inl exc) \<Rightarrow> Some exc | _ \<Rightarrow> None),
                    gw_error = None\<rparr>)))"

section \<open>Lemmas on sessions\<close>

lemma shares_iff: "sharesSessionIdentity left right \<longleftrightarrow> set left \<inter> set right \<noteq> {}"
  by (auto simp: sharesSessionIdentity_def list_ex_iff)

abbreviation ids :: "js_record \<Rightarrow> string list" where
  "ids entry \<equiv> sessionIdentifiers (Some entry)"

lemma add_unique_cases:
  "set (ids entry) \<inter> set (snd acc) = {} \<Longrightarrow> add_unique acc entry = (fst acc @ [entry], set_add_all (ids entry) (snd acc))"
  "set (ids entry) \<inter> set (snd acc) \<noteq> {} \<Longrightarrow> add_unique acc entry = acc"
  by (auto simp: add_unique_def Let_def list_ex_iff)

lemma unique_fold:
  assumes "foldl add_unique ([], []) entries = (shown, seen)"
  shows "set seen = (\<Union>u \<in> set shown. set (ids u))
    \<and> sorted_wrt (\<lambda>l r. set (ids l) \<inter> set (ids r) = {}) shown
    \<and> set shown \<subseteq> set entries
    \<and> (\<forall>r \<in> set entries. r \<in> set shown \<or> (\<exists>u \<in> set shown. set (ids u) \<inter> set (ids r) \<noteq> {}))"
  using assms
proof (induction entries arbitrary: shown seen rule: rev_induct)
  case (snoc entry entries)
  obtain shown0 seen0 where fold: "foldl add_unique ([], []) entries = (shown0, seen0)" by fastforce
  note inv = snoc.IH [OF fold]
  show ?case
  proof (cases "set (ids entry) \<inter> set seen0 = {}")
    case True
    then have "shown = shown0 @ [entry]" "set seen = set seen0 \<union> set (ids entry)"
      using snoc.prems fold add_unique_cases(1) [of entry "(shown0, seen0)"] by auto
    with inv True show ?thesis by (auto simp: sorted_wrt_append)
  next
    case False
    then have "shown = shown0" "seen = seen0"
      using snoc.prems fold add_unique_cases(2) [of entry "(shown0, seen0)"] by auto
    moreover from False inv have "\<exists>u \<in> set shown0. set (ids u) \<inter> set (ids entry) \<noteq> {}" by auto
    ultimately show ?thesis using inv by auto
  qed
qed simp

lemma uniqueRecords_facts:
  "sorted_wrt (\<lambda>l r. \<not> sharesSessionIdentity (ids l) (ids r)) (uniqueRecords entries)"
  "set (uniqueRecords entries) \<subseteq> set entries"
  "r \<in> set entries \<Longrightarrow> r \<in> set (uniqueRecords entries)
    \<or> (\<exists>u \<in> set (uniqueRecords entries). sharesSessionIdentity (ids u) (ids r))"
proof -
  obtain shown seen where fold: "foldl add_unique ([], []) entries = (shown, seen)" by fastforce
  have u: "uniqueRecords entries = shown" by (simp add: uniqueRecords_def fold)
  note facts = unique_fold [OF fold]
  then show "sorted_wrt (\<lambda>l r. \<not> sharesSessionIdentity (ids l) (ids r)) (uniqueRecords entries)"
    by (simp add: u shares_iff)
  from facts show "set (uniqueRecords entries) \<subseteq> set entries" by (simp add: u)
  show "r \<in> set entries \<Longrightarrow> r \<in> set (uniqueRecords entries)
      \<or> (\<exists>u \<in> set (uniqueRecords entries). sharesSessionIdentity (ids u) (ids r))"
    using facts by (simp add: u shares_iff)
qed

lemma add_unique_extends: "\<exists>ys. fst (foldl add_unique acc entries) = fst acc @ ys"
proof (induction entries arbitrary: acc)
  case (Cons entry entries)
  obtain ys where "fst (foldl add_unique (add_unique acc entry) entries) = fst (add_unique acc entry) @ ys"
    using Cons.IH by blast
  moreover have "\<exists>zs. fst (add_unique acc entry) = fst acc @ zs"
    using add_unique_cases [of entry acc] by (cases "set (ids entry) \<inter> set (snd acc) = {}") auto
  ultimately show ?case by auto
qed simp

lemma uniqueRecords_first: "\<exists>rest. uniqueRecords (entry # entries) = entry # rest"
  using add_unique_extends [of "add_unique ([], []) entry" entries]
    add_unique_cases(1) [of entry "([], [])"]
  by (auto simp: uniqueRecords_def)

lemma length_toSessionSummaries:
  "length (toSessionSummaries fmt tz sessions main)
    = length (uniqueRecords (with_main (List.map_filter session_record sessions) (session_record main)))"
  by (simp add: toSessionSummaries_def Let_def)

section \<open>Properties\<close>

text \<open>C17: two sessions of a gateway that share an identifier are shown once: no two of the shown records share
  one, and every record of the gateway's list is shown or shares one with a shown record; when
  no record of the list shares an identifier with the main session, the main session is shown
  first and marked as such.\<close>

theorem sessions_shown_once:
  assumes "session_record mainSession = Some main" and "ids main \<noteq> []"
    and "listed = List.map_filter session_record sessions"
    and "shown = uniqueRecords (with_main listed (Some main))"
  shows "sorted_wrt (\<lambda>l r. \<not> sharesSessionIdentity (ids l) (ids r)) shown
    \<and> length (toSessionSummaries fmt tz sessions mainSession) = length shown
    \<and> (\<forall>r \<in> set listed. r \<in> set shown \<or> (\<exists>u \<in> set shown. sharesSessionIdentity (ids u) (ids r)))
    \<and> (list_all (\<lambda>r. \<not> sharesSessionIdentity (ids r) (ids main)) listed \<longrightarrow>
        js_first shown = Some main \<and> ss_isMain (hd (toSessionSummaries fmt tz sessions mainSession)))"
proof -
  have "js_first shown = Some main \<and> ss_isMain (hd (toSessionSummaries fmt tz sessions mainSession))"
    if "list_all (\<lambda>r. \<not> sharesSessionIdentity (ids r) (ids main)) listed"
  proof -
    have "with_main listed (Some main) = main # listed"
      using that assms(2) by (simp add: with_main_def list_ex_iff list_all_iff)
    moreover obtain rest where "uniqueRecords (main # listed) = main # rest" using uniqueRecords_first by blast
    moreover have "set (ids main) \<noteq> {}" using assms(2) by simp
    ultimately show ?thesis using assms(1,2)
      by (simp add: assms(4) assms(3) [symmetric] toSessionSummaries_def session_summary_def shares_iff Let_def)
  qed
  moreover have "set listed \<subseteq> set (with_main listed (Some main))" by (auto simp: with_main_def)
  then have "\<forall>r \<in> set listed. r \<in> set shown \<or> (\<exists>u \<in> set shown. sharesSessionIdentity (ids u) (ids r))"
    using uniqueRecords_facts(3) unfolding assms(4) by blast
  moreover have "length (toSessionSummaries fmt tz sessions mainSession) = length shown"
    using assms(1) by (simp add: length_toSessionSummaries assms(3,4))
  moreover have "sorted_wrt (\<lambda>l r. \<not> sharesSessionIdentity (ids l) (ids r)) shown"
    unfolding assms(4) by (rule uniqueRecords_facts(1))
  ultimately show ?thesis by blast
qed

theorem sessions_shown_once_witness:
  "length (toSessionSummaries show_rat (\<lambda>t. t) [Obj [(''key'', Str ''b'')], Obj [(''id'', Str ''b'')]] (Obj [(''key'', Str ''a'')])) = 2
    \<and> ss_isMain (hd (toSessionSummaries show_rat (\<lambda>t. t) [Obj [(''key'', Str ''b'')], Obj [(''id'', Str ''b'')]] (Obj [(''key'', Str ''a'')])))"
proof -
  let ?main = "[(''key'', Str ''a'')]" and ?sessions = "[Obj [(''key'', Str ''b'')], Obj [(''id'', Str ''b'')]]"
  have ids: "ids ?main = [''a'']" by code_simp
  have apart: "list_all (\<lambda>r. \<not> sharesSessionIdentity (ids r) (ids ?main)) (List.map_filter session_record ?sessions)"
    by code_simp
  have "length (uniqueRecords (with_main (List.map_filter session_record ?sessions) (Some ?main))) = 2" by code_simp
  with sessions_shown_once [of "Obj ?main" ?main, OF _ _ refl refl, of ?sessions show_rat "\<lambda>t. t"] ids apart show ?thesis
    by (simp add: session_record_def del: map_filter_simps)
qed

text \<open>
  A record that is left out takes the main session with it when only that record names it: the
  list holds it, so the main session is not added, and no shown session is marked.
\<close>

lemma main_session_hidden:
  "let sessions = [Obj [(''key'', Str ''b'')], Obj [(''id'', Str ''b''), (''sessionId'', Str ''a'')]]
   in \<not> list_ex ss_isMain (toSessionSummaries show_rat (\<lambda>t. t) sessions (Obj [(''key'', Str ''a'')]))"
  by code_simp

section \<open>Properties of timestamps\<close>

lemma parse_float_year:
  assumes "0 \<le> year" and "year \<le> 9999"
  shows "parse_float (pad 4 year @ CHR ''-'' # rest) = Fin (of_int year)"
proof -
  let ?s = "pad 4 year @ CHR ''-'' # rest"
  note p = pad_digits [of year 4]
  have digits: "list_all is_digit (pad 4 year)" and number: "read_nat (pad 4 year) = nat year" and ne: "pad 4 year \<noteq> []"
    using p assms by auto
  then obtain c cs where c: "pad 4 year = c # cs" "is_digit c" by (cases "pad 4 year") auto
  have minus: "\<not> is_digit (CHR ''-'')" by code_simp
  have "takeWhile is_digit ?s = pad 4 year" "dropWhile is_digit ?s = CHR ''-'' # rest"
    using digits minus by (simp_all add: takeWhile_append2 dropWhile_append2 list_all_iff)
  then have unsigned: "parse_unsigned ?s = Some (of_int year)"
    using number ne assms(1) by (simp add: parse_unsigned_def exponent_part_def Let_def)
  have start: "trim_start ?s = ?s" using c digit_plain [of c] by (simp add: trim_start_plain)
  have "c \<noteq> CHR ''-''" "c \<noteq> CHR ''+''" "c \<noteq> CHR ''I''" using c(2) by (auto simp: is_digit_def char_code_def)
  then have "\<not> starts_with ?s ''-''" "\<not> starts_with ?s ''+''" "\<not> starts_with ?s ''Infinity''" using c(1) by simp_all
  moreover have "to_number (of_int year) = Fin (of_int year)" using assms by (simp add: to_number_def)
  ultimately show ?thesis using unsigned by (simp add: parse_float_def start)
qed

text \<open>C18: an ISO timestamp in a session is not read as a date but as the number at its front: the year, as
  milliseconds since 1970, so that every such session was seen last in the first ten seconds of 1970.\<close>

theorem iso_timestamp_read_as_year:
  assumes "year = fst (civil_from_days (ms div ms_per_day))" and "0 \<le> year" and "year \<le> 9999"
  shows "readTimestamp tz (Some [(key, Str (toISOString ms))]) [key] = Some (toISOString year)
    \<and> year div 1000 < 10"
proof -
  obtain rest where iso: "toISOString ms = pad 4 year @ CHR ''-'' # rest"
  proof -
    obtain m d where "civil_from_days (ms div ms_per_day) = (year, m, d)"
      using assms(1) by (cases "civil_from_days (ms div ms_per_day)") auto
    then show ?thesis using that by (simp add: toISOString_def Let_def)
  qed
  have trimmed: "trim (toISOString ms) = toISOString ms"
  proof (rule trim_plain)
    have "pad 4 year \<noteq> []" "list_all is_digit (pad 4 year)" using pad_digits [of year 4] assms(2,3) by auto
    then show "plain_char (hd (toISOString ms))" using hd_digits [of "pad 4 year"] digit_plain by (simp add: iso)
    have "last (toISOString ms) = CHR ''Z''" by (simp add: toISOString_def Let_def split: prod.split)
    then show "plain_char (last (toISOString ms))" by (simp add: plain_char_def char_code_def)
  qed (simp add: iso)
  have "civil_from_days 0 = (1970, 1, 1)" by code_simp
  then have "epoch_text (of_int year) = Some (toISOString year)"
    using assms(2,3) by (simp add: epoch_text_def normalizeEpochMs_def time_clip_def rat_trunc_def iso_date_def ms_per_day_def)
  then have "timestamp_value tz (Str (toISOString ms)) = Some (toISOString year)"
    using parse_float_year [OF assms(2,3), of rest] trimmed by (simp add: iso Let_def)
  with assms(3) show ?thesis by (simp add: readTimestamp_def get_prop_def)
qed

theorem iso_timestamp_read_as_year_witness:
  "readTimestamp (\<lambda>t. t) (Some [(''updated_at'', Str ''2026-03-01T10:00:00.123Z'')]) [''updated_at''] = Some ''1970-01-01T00:00:02.026Z''"
proof -
  have "fst (civil_from_days (1772359200123 div ms_per_day)) = 2026" "toISOString 2026 = ''1970-01-01T00:00:02.026Z''"
    by code_simp+
  with iso_timestamp_read_as_year [of 2026 1772359200123 "\<lambda>t. t" "''updated_at''"] show ?thesis
    by (simp add: toISOString_example)
qed

section \<open>Properties of gateways\<close>

lemma all_counted: "length (filter p xs) = length xs \<longleftrightarrow> list_all p xs"
proof (induction xs)
  case (Cons x xs)
  from length_filter_le [of p xs] have "length (filter p xs) \<noteq> Suc (length xs)" by linarith
  with Cons show ?case by simp
qed simp

lemma snapshot_connected:
  assumes "gateway_snapshot target reply = Some s"
  shows "\<not> unavailable s \<and> gs_connected s \<longleftrightarrow> (\<exists>payload. reply = Answer 200 payload \<and> gw_connected payload)"
proof (cases reply)
  case (Answer status payload)
  have "\<not> gs_connected (failed_snapshot target m)" for m by (simp add: failed_snapshot_def)
  with assms Answer show ?thesis
    by (cases "status = 200") (auto simp: gateway_snapshot_def unavailable_def shown_text_def)
next
  case (Failure aborted message)
  with assms show ?thesis by (cases aborted) (auto simp: gateway_snapshot_def failed_snapshot_def)
qed

lemma normalized_error_shown: "normalize_gateway_error_message message \<noteq> []"
  by (simp add: normalize_gateway_error_message_def auth_failed_def Let_def split: option.split)

text \<open>
  What a request can come back with: the status of the backend (an incompatible version always
  comes with a message), another status, or an error with a text.
\<close>

definition status_served :: "status_reply \<Rightarrow> bool" where
  "status_served reply \<longleftrightarrow>
     (case reply of
        Answer status payload \<Rightarrow> status \<noteq> 200
          \<or> (\<exists>url compatibility sessions main. compatibility \<noteq> Inr (Some []) \<and> payload = get_status url compatibility sessions main)
      | Failure aborted message \<Rightarrow> message \<noteq> Some [])"

definition answered_down :: "status_reply \<Rightarrow> bool" where
  "answered_down reply \<longleftrightarrow>
     (case reply of Answer status payload \<Rightarrow> status = 200 \<and> \<not> gw_connected payload | Failure _ _ \<Rightarrow> False)"

definition main_failed :: "status_reply \<Rightarrow> bool" where
  "main_failed reply \<longleftrightarrow>
     (case reply of
        Answer status payload \<Rightarrow> status = 200 \<and> gw_connected payload \<and> shown_text (gw_main_session_error payload) \<noteq> None
      | Failure _ _ \<Rightarrow> False)"

lemma shown_text_simps [simp]: "shown_text None = None" "shown_text (Some s) = (if s = [] then None else Some s)"
  by (simp_all add: shown_text_def truthy_str_def)

lemma status_fields:
  assumes "compatibility \<noteq> Inr (Some [])" and "payload = get_status url compatibility sessions main"
  shows "shown_text (gw_error payload) \<noteq> None \<longleftrightarrow> \<not> gw_connected payload"
    and "\<not> gw_connected payload \<Longrightarrow> gw_main_session_error payload = None"
  using assms normalized_error_shown
  by (auto simp: get_status_def failed_status_def Let_def split: sum.splits option.splits)

text \<open>How a reply is counted: as not connected, and as having an issue.\<close>

lemma snapshot_counted:
  assumes "status_served reply" and "gateway_snapshot target reply = Some s"
  shows "\<not> unavailable s \<and> \<not> gs_connected s \<longleftrightarrow> answered_down reply"
    and "unhealthy s \<longleftrightarrow> answered_down reply \<or> main_failed reply"
proof -
  have failed: "unavailable (failed_snapshot target m) \<longleftrightarrow> m \<noteq> []" "\<not> unhealthy (failed_snapshot target m)" for m
    by (simp_all add: failed_snapshot_def unavailable_def unhealthy_def)
  have "(\<not> unavailable s \<and> \<not> gs_connected s \<longleftrightarrow> answered_down reply) \<and> (unhealthy s \<longleftrightarrow> answered_down reply \<or> main_failed reply)"
  proof (cases reply)
    case (Answer status payload)
    show ?thesis
    proof (cases "status = 200")
      case True
      with assms(1) Answer obtain url compatibility sessions main
        where "compatibility \<noteq> Inr (Some [])" "payload = get_status url compatibility sessions main"
        by (auto simp: status_served_def)
      note fields = status_fields [OF this]
      from assms(2) Answer True have "s = \<lparr>gs_target = target, gs_connected = gw_connected payload, gs_gatewayUrl = gw_gateway_url payload,
                 gs_sessionsCount = coalesce (gw_sessions_count payload) 0,
                 gs_sessions = (case gw_sessions payload of Arr xs \<Rightarrow> xs | _ \<Rightarrow> []),
                 gs_mainSession = js_coalesce (gw_main_session payload) Null,
                 gs_mainSessionError = gw_main_session_error payload, gs_error = gw_error payload,
                 gs_requestError = None\<rparr>"
        by (simp add: gateway_snapshot_def)
      with Answer True fields show ?thesis
        by (auto simp: answered_down_def main_failed_def unavailable_def unhealthy_def)
    next
      case False
      with assms(2) Answer failed show ?thesis
        by (auto simp: gateway_snapshot_def answered_down_def main_failed_def)
    qed
  next
    case (Failure aborted message)
    with assms failed show ?thesis
      by (cases message) (auto simp: gateway_snapshot_def answered_down_def main_failed_def status_served_def split: if_splits)
  qed
  then show "\<not> unavailable s \<and> \<not> gs_connected s \<longleftrightarrow> answered_down reply"
    and "unhealthy s \<longleftrightarrow> answered_down reply \<or> main_failed reply" by simp_all
qed

definition snapshots_of :: "(GatewayTarget \<times> status_reply) list \<Rightarrow> GatewaySnapshot list" where
  "snapshots_of answers = List.map_filter (\<lambda>(target, reply). gateway_snapshot target reply) answers"

lemma issues_counted:
  "list_all (\<lambda>(target, reply). status_served reply) answers \<Longrightarrow>
   list_all (\<lambda>(target, reply). gateway_snapshot target reply \<noteq> None) answers \<Longrightarrow>
   gatewayHealthErrorCount (snapshots_of answers) + gatewayDisconnectedCount (snapshots_of answers)
     = 2 * length (filter (\<lambda>(target, reply). answered_down reply) answers)
       + length (filter (\<lambda>(target, reply). main_failed reply) answers)"
proof (induction answers)
  case (Cons answer answers)
  obtain target reply where answer: "answer = (target, reply)" by fastforce
  with Cons.prems obtain s where s: "gateway_snapshot target reply = Some s" "status_served reply" by auto
  have "\<not> (answered_down reply \<and> main_failed reply)"
    by (auto simp: answered_down_def main_failed_def split: status_reply.splits)
  moreover have "snapshots_of (answer # answers) = s # snapshots_of answers"
    by (simp add: snapshots_of_def List.map_filter_def answer s)
  ultimately show ?case
    using Cons snapshot_counted [OF s(2,1)]
    by (auto simp: answer gatewayHealthErrorCount_def gatewayDisconnectedCount_def)
qed (simp add: snapshots_of_def List.map_filter_def gatewayHealthErrorCount_def gatewayDisconnectedCount_def)

lemma badge_online:
  "list_all (\<lambda>(target, reply). gateway_snapshot target reply \<noteq> None) answers \<Longrightarrow>
   gatewayConnectedCount (snapshots_of answers) = length answers
     \<longleftrightarrow> list_all (\<lambda>(target, reply). \<exists>payload. reply = Answer 200 payload \<and> gw_connected payload) answers"
proof -
  assume all: "list_all (\<lambda>(target, reply). gateway_snapshot target reply \<noteq> None) answers"
  then have "length (snapshots_of answers) = length answers
      \<and> (list_all (\<lambda>s. \<not> unavailable s \<and> gs_connected s) (snapshots_of answers)
         \<longleftrightarrow> list_all (\<lambda>(target, reply). \<exists>payload. reply = Answer 200 payload \<and> gw_connected payload) answers)"
  proof (induction answers)
    case (Cons answer answers)
    obtain target reply where answer: "answer = (target, reply)" by fastforce
    with Cons.prems obtain s where s: "gateway_snapshot target reply = Some s" by auto
    have "snapshots_of (answer # answers) = s # snapshots_of answers"
      by (simp add: snapshots_of_def List.map_filter_def answer s)
    with Cons snapshot_connected [OF s] show ?case by (simp add: answer)
  qed (simp add: snapshots_of_def List.map_filter_def)
  moreover have "gatewayConnectedCount (snapshots_of answers) = length (snapshots_of answers)
      \<longleftrightarrow> list_all (\<lambda>s. \<not> unavailable s \<and> gs_connected s) (snapshots_of answers)"
    unfolding gatewayConnectedCount_def by (rule all_counted)
  ultimately show ?thesis by simp
qed



end
