(* ===== verification/Dashboard.thy ===== *)
theory Dashboard
  imports ActivityPage BoardRows RuntimeFeed DashboardSessions
begin

text \<open>
  The dashboard (\<open>src/app/dashboard/page.tsx\<close>) apart from its sessions and gateways: labels,
  the summaries of workers, webhooks, work and assignments, the activity it shows and where its
  rows lead, and the actions on runs. \<open>lib/formatters.ts\<close> is here, too. Clock, locale and number
  format are arguments.
\<close>

section \<open>Formatters\<close>

definition truncateText :: "string option \<Rightarrow> nat \<Rightarrow> string \<Rightarrow> string" where
  "truncateText text_value limit fallback =
     (case shown_text text_value of
        None \<Rightarrow> fallback
      | Some v \<Rightarrow> if length v \<le> limit then v else take limit v @ ELLIPSIS)"

definition formatTimestamp :: "(int \<Rightarrow> int) \<Rightarrow> (int \<Rightarrow> string) \<Rightarrow> string option \<Rightarrow> string \<Rightarrow> string" where
  "formatTimestamp tz show_date stamp fallback =
     (case parseTimestamp tz stamp of None \<Rightarrow> fallback | Some date \<Rightarrow> show_date date)"

definition formatRelativeTimestamp :: "(int \<Rightarrow> int) \<Rightarrow> int \<Rightarrow> string option \<Rightarrow> string \<Rightarrow> string" where
  "formatRelativeTimestamp tz now stamp fallback =
     (case parseTimestamp tz stamp of
        None \<Rightarrow> fallback
      | Some date \<Rightarrow>
          (let minutes = js_round (of_int (now - date) / 60000)
           in if minutes < 1 then ''Just now''
              else if minutes < 60 then show_int minutes @ ''m ago''
              else (let hours = js_round (of_int minutes / 60)
                    in if hours < 24 then show_int hours @ ''h ago''
                       else show_int (js_round (of_int hours / 24)) @ ''d ago'')))"

section \<open>Labels\<close>

definition dashboardActivityLabel :: "string \<Rightarrow> string" where
  "dashboardActivityLabel eventType =
     (if eventType = ''task.execution_run.created'' then ''Run queued''
      else if eventType = ''task.execution_run.dispatched'' then ''Run sent''
      else if eventType = ''task.execution_run.retried'' then ''Run retried''
      else if eventType = ''task.execution_run.updated'' then ''Run update''
      else if eventType = ''task.execution_run.report'' then ''Run report''
      else if eventType = ''silo.request.created'' then ''Request created''
      else if eventType = ''silo.request.planned'' then ''Request planned''
      else if eventType = ''silo.request.cancelled'' then ''Request cancelled''
      else if eventType = ''silo.request.materialized'' then ''Request materialized''
      else if starts_with eventType ''silo.request.'' then ''Silo request''
      else if eventType = ''silo.runtime.validate'' then ''Runtime validate''
      else if eventType = ''silo.runtime.apply'' then ''Runtime apply''
      else if eventType = ''queue.worker.batch_started'' then ''Worker start''
      else if eventType = ''queue.worker.batch_complete'' then ''Worker batch''
      else if eventType = ''queue.worker.stopped'' then ''Worker stopped''
      else if eventType = ''queue.worker.success'' then ''Worker success''
      else if eventType = ''queue.worker.failed'' then ''Worker failed''
      else if starts_with eventType ''queue.worker.'' then ''Worker''
      else if eventType = ''webhook.dispatch.batch_started'' then ''Webhook batch''
      else if eventType = ''webhook.dispatch.batch_complete'' then ''Webhook batch''
      else if eventType = ''webhook.dispatch.batch_finished'' then ''Webhook finished''
      else if eventType = ''webhook.dispatch.success'' then ''Webhook sent''
      else if eventType = ''webhook.dispatch.failed'' then ''Webhook failed''
      else if eventType = ''webhook.dispatch.requeued'' then ''Webhook retried''
      else if starts_with eventType ''webhook.dispatch.'' then ''Webhook''
      else if eventType = ''task.status_changed'' then ''Status''
      else if eventType = ''task.created'' then ''Created''
      else if eventType = ''approval.created'' then ''Approval''
      else if eventType = ''approval.updated'' then ''Approval update''
      else if eventType = ''approval.approved'' then ''Approved''
      else if eventType = ''approval.rejected'' then ''Rejected''
      else if starts_with eventType ''agent.'' \<and> ends_with eventType ''.failed'' then ''Lifecycle failed''
      else if starts_with eventType ''agent.'' \<and> ends_with eventType ''.direct'' then ''Lifecycle''
      else if eventType = ''agent.heartbeat'' then ''Heartbeat''
      else if eventType = ''agent.wakeup.sent'' then ''Wakeup''
      else if eventType = ''agent.nudge.sent'' then ''Nudge''
      else if eventType = ''agent.nudge.failed'' then ''Nudge failed''
      else if eventType = ''agent.soul.updated'' then ''SOUL updated''
      else if starts_with eventType ''gateway.'' then ''Gateway''
      else if starts_with eventType ''board.'' then ''Board''
      else if starts_with eventType ''task.'' then ''Task''
      else eventType)"

definition dashboardActivityPillClass :: "string \<Rightarrow> string" where
  "dashboardActivityPillClass eventType =
     (if eventType = ''task.execution_run.created'' then ''border-amber-200 bg-amber-50 text-amber-700''
      else if eventType = ''task.execution_run.dispatched'' then ''border-indigo-200 bg-indigo-50 text-indigo-700''
      else if eventType = ''task.execution_run.retried'' then ''border-orange-200 bg-orange-50 text-orange-700''
      else if eventType = ''task.execution_run.updated'' then ''border-sky-200 bg-sky-50 text-sky-700''
      else if eventType = ''task.execution_run.report'' then ''border-cyan-200 bg-cyan-50 text-cyan-700''
      else if eventType = ''silo.request.created'' \<or> eventType = ''silo.request.planned'' then ''border-sky-200 bg-sky-50 text-sky-700''
      else if eventType = ''silo.request.materialized'' then ''border-emerald-200 bg-emerald-50 text-emerald-700''
      else if eventType = ''silo.request.cancelled'' then ''border-amber-200 bg-amber-50 text-amber-700''
      else if starts_with eventType ''silo.request.'' then ''border-slate-200 bg-slate-100 text-slate-700''
      else if eventType = ''silo.runtime.validate'' then ''border-sky-200 bg-sky-50 text-sky-700''
      else if eventType = ''silo.runtime.apply'' then ''border-indigo-200 bg-indigo-50 text-indigo-700''
      else if eventType = ''queue.worker.success'' \<or> eventType = ''queue.worker.batch_complete'' then ''border-emerald-200 bg-emerald-50 text-emerald-700''
      else if eventType = ''queue.worker.failed'' \<or> eventType = ''queue.worker.dequeue_failed'' then ''border-rose-200 bg-rose-50 text-rose-700''
      else if starts_with eventType ''queue.worker.'' then ''border-slate-200 bg-slate-100 text-slate-700''
      else if eventType = ''webhook.dispatch.success'' \<or> eventType = ''webhook.dispatch.batch_complete'' then ''border-emerald-200 bg-emerald-50 text-emerald-700''
      else if eventType = ''webhook.dispatch.failed'' then ''border-rose-200 bg-rose-50 text-rose-700''
      else if eventType = ''webhook.dispatch.requeued'' then ''border-amber-200 bg-amber-50 text-amber-700''
      else if starts_with eventType ''webhook.dispatch.'' then ''border-sky-200 bg-sky-50 text-sky-700''
      else (let category = activityCategoryForEvent eventType in
      if category = Runtime \<or> category = Runs then ''border-sky-200 bg-sky-50 text-sky-700''
      else if category = Gateway then ''border-fuchsia-200 bg-fuchsia-50 text-fuchsia-700''
      else if category = Agents then ''border-violet-200 bg-violet-50 text-violet-700''
      else if category = Approvals then ''border-cyan-200 bg-cyan-50 text-cyan-700''
      else if category = Tasks then ''border-amber-200 bg-amber-50 text-amber-700''
      else ''border-slate-200 bg-slate-100 text-slate-700''))"

section \<open>Telemetry\<close>

definition toRelativeOrDash :: "(int \<Rightarrow> int) \<Rightarrow> int \<Rightarrow> string option \<Rightarrow> string" where
  "toRelativeOrDash tz now stamp =
     (case shown_text stamp of None \<Rightarrow> DASH | Some v \<Rightarrow> formatRelativeTimestamp tz now (Some v) DASH)"

definition toCountString :: "(rat \<Rightarrow> string) \<Rightarrow> jsnum \<Rightarrow> string" where
  "toCountString fmt n = (case n of Fin q \<Rightarrow> formatCount fmt q | _ \<Rightarrow> DASH)"

fun toTextOrDash :: "js \<Rightarrow> string" where
  "toTextOrDash (Str s) = (if trim s \<noteq> [] then s else DASH)"
| "toTextOrDash (Num n) = (if is_finite n then show_num n else DASH)"
| "toTextOrDash _ = DASH"

record telemetry_badge =
  bd_text :: string
  bd_tone :: string

record TelemetrySummary =
  tl_badge :: telemetry_badge
  tl_rows :: "SummaryRow list"

record worker_snapshot =
  wk_latest_event_type :: "string option"
  wk_latest_at :: "string option"
  wk_latest_queue_name :: js
  wk_latest_task_type :: js
  wk_latest_board_id :: "string option"
  wk_latest_task_id :: "string option"
  wk_success_count_7d :: rat
  wk_failure_count_7d :: rat
  wk_dequeue_failure_count_7d :: rat

record webhook_snapshot =
  wh_latest_event_type :: "string option"
  wh_latest_at :: "string option"
  wh_latest_attempt :: js
  wh_latest_board_id :: "string option"
  wh_success_count_7d :: rat
  wh_failure_count_7d :: rat
  wh_retried_count_7d :: rat

definition worker_failure :: "string \<Rightarrow> bool" where
  "worker_failure eventType \<longleftrightarrow> eventType = ''queue.worker.failed'' \<or> eventType = ''queue.worker.dequeue_failed''"

definition event_badge :: "(string \<Rightarrow> bool) \<Rightarrow> string option \<Rightarrow> telemetry_badge" where
  "event_badge failed latest =
     (case shown_text latest of
        None \<Rightarrow> \<lparr>bd_text = ''No signal'', bd_tone = ''neutral''\<rparr>
      | Some kind \<Rightarrow> \<lparr>bd_text = dashboardActivityLabel kind, bd_tone = if failed kind then ''offline'' else ''online''\<rparr>)"

definition latest_row :: "(int \<Rightarrow> int) \<Rightarrow> int \<Rightarrow> string \<Rightarrow> string option \<Rightarrow> SummaryRow" where
  "latest_row tz now nothing latest_at =
     (case shown_text latest_at of
        None \<Rightarrow> \<lparr>row_label = ''Latest event'', row_value = nothing, row_tone = Some ''warning''\<rparr>
      | Some stamp \<Rightarrow>
          \<lparr>row_label = ''Latest event'', row_value = toRelativeOrDash tz now (Some stamp), row_tone = Some ''default''\<rparr>)"

definition count_row :: "(rat \<Rightarrow> string) \<Rightarrow> string \<Rightarrow> string \<Rightarrow> rat \<Rightarrow> SummaryRow" where
  "count_row fmt label tone n =
     \<lparr>row_label = label, row_value = toCountString fmt (Fin n), row_tone = toned (0 < n) tone ''default''\<rparr>"

definition text_row :: "string \<Rightarrow> js \<Rightarrow> SummaryRow" where
  "text_row label v = \<lparr>row_label = label, row_value = toTextOrDash v, row_tone = None\<rparr>"

text \<open>\<open>payload ?? {}\<close> of the latest event, as a record.\<close>

definition latest_payload :: "RoutedEvent list \<Rightarrow> js_record" where
  "latest_payload events =
     (case js_first events of None \<Rightarrow> [] | Some e \<Rightarrow> coalesce (as_record (ae_payload e)) [])"

definition count_events :: "(string \<Rightarrow> bool) \<Rightarrow> RoutedEvent list \<Rightarrow> rat" where
  "count_events kind events = of_nat (length (filter (\<lambda>e. kind (ae_event_type e)) events))"

text \<open>The row of the latest event when the summary is made from events: any event there is has one.\<close>

definition latest_event_row :: "(int \<Rightarrow> int) \<Rightarrow> int \<Rightarrow> string \<Rightarrow> RoutedEvent list \<Rightarrow> SummaryRow" where
  "latest_event_row tz now nothing events =
     (case js_first events of
        None \<Rightarrow> \<lparr>row_label = ''Latest event'', row_value = nothing, row_tone = Some ''warning''\<rparr>
      | Some e \<Rightarrow>
          \<lparr>row_label = ''Latest event'', row_value = toRelativeOrDash tz now (Some (ae_created_at e)),
           row_tone = Some ''default''\<rparr>)"

definition latest_event_badge :: "(string \<Rightarrow> bool) \<Rightarrow> RoutedEvent list \<Rightarrow> telemetry_badge" where
  "latest_event_badge failed events =
     (case js_first events of
        None \<Rightarrow> \<lparr>bd_text = ''No signal'', bd_tone = ''neutral''\<rparr>
      | Some e \<Rightarrow> \<lparr>bd_text = dashboardActivityLabel (ae_event_type e),
                   bd_tone = if failed (ae_event_type e) then ''offline'' else ''online''\<rparr>)"

definition buildWorkerTelemetrySummary ::
  "(rat \<Rightarrow> string) \<Rightarrow> (int \<Rightarrow> int) \<Rightarrow> int \<Rightarrow> RoutedEvent list \<Rightarrow> worker_snapshot option \<Rightarrow> TelemetrySummary" where
  "buildWorkerTelemetrySummary fmt tz now events snapshot =
     (case snapshot of
        Some w \<Rightarrow>
          \<lparr>tl_badge = event_badge worker_failure (wk_latest_event_type w),
           tl_rows =
             [latest_row tz now ''No worker activity'' (wk_latest_at w),
              count_row fmt ''Successful jobs'' ''success'' (wk_success_count_7d w),
              count_row fmt ''Worker failures'' ''danger'' (wk_failure_count_7d w + wk_dequeue_failure_count_7d w),
              text_row ''Queue'' (wk_latest_queue_name w), text_row ''Task type'' (wk_latest_task_type w)]\<rparr>
      | None \<Rightarrow>
          (let workerEvents = filter (\<lambda>e. starts_with (ae_event_type e) ''queue.worker.'') events;
               payload = latest_payload workerEvents
           in \<lparr>tl_badge = latest_event_badge worker_failure workerEvents,
               tl_rows =
                 [latest_event_row tz now ''No worker activity'' workerEvents,
                  count_row fmt ''Successful jobs'' ''success'' (count_events (\<lambda>k. k = ''queue.worker.success'') workerEvents),
                  count_row fmt ''Worker failures'' ''danger'' (count_events worker_failure workerEvents),
                  text_row ''Queue'' (get_prop payload ''queue_name''),
                  text_row ''Task type'' (get_prop payload ''task_type'')]\<rparr>))"

definition buildWebhookTelemetrySummary ::
  "(rat \<Rightarrow> string) \<Rightarrow> (int \<Rightarrow> int) \<Rightarrow> int \<Rightarrow> RoutedEvent list \<Rightarrow> webhook_snapshot option \<Rightarrow> TelemetrySummary" where
  "buildWebhookTelemetrySummary fmt tz now events snapshot =
     (case snapshot of
        Some w \<Rightarrow>
          \<lparr>tl_badge = event_badge (\<lambda>k. k = ''webhook.dispatch.failed'') (wh_latest_event_type w),
           tl_rows =
             [latest_row tz now ''No webhook activity'' (wh_latest_at w),
              count_row fmt ''Delivered'' ''success'' (wh_success_count_7d w),
              count_row fmt ''Failed'' ''danger'' (wh_failure_count_7d w),
              count_row fmt ''Retried'' ''warning'' (wh_retried_count_7d w),
              text_row ''Attempts'' (wh_latest_attempt w)]\<rparr>
      | None \<Rightarrow>
          (let webhookEvents = filter (\<lambda>e. starts_with (ae_event_type e) ''webhook.dispatch.'') events;
               payload = latest_payload webhookEvents
           in \<lparr>tl_badge = latest_event_badge (\<lambda>k. k = ''webhook.dispatch.failed'') webhookEvents,
               tl_rows =
                 [latest_event_row tz now ''No webhook activity'' webhookEvents,
                  count_row fmt ''Delivered'' ''success'' (count_events (\<lambda>k. k = ''webhook.dispatch.success'') webhookEvents),
                  count_row fmt ''Failed'' ''danger'' (count_events (\<lambda>k. k = ''webhook.dispatch.failed'') webhookEvents),
                  count_row fmt ''Retried'' ''warning'' (count_events (\<lambda>k. k = ''webhook.dispatch.requeued'') webhookEvents),
                  text_row ''Attempts'' (js_coalesce (get_prop payload ''attempt'')
                    (js_coalesce (get_prop payload ''delivery_attempt'') (get_prop payload ''attempts'')))]\<rparr>))"

section \<open>Assignments and requests\<close>

record DashboardRun = RuntimeRunSnapshot +
  dr_board_name :: string
  dr_task_title :: string
  dr_silo_slug :: string
  dr_silo_name :: string
  dr_total_tokens :: rat

record DashboardAssignmentSummary =
  as_siloSlug :: string
  as_siloName :: string
  as_activeCount :: nat
  as_blockedCount :: nat
  as_latestTaskTitle :: string
  as_latestBoardName :: string

definition DASHBOARD_ASSIGNMENT_STATUSES :: "string list" where
  "DASHBOARD_ASSIGNMENT_STATUSES = [''queued'', ''dispatching'', ''running'', ''blocked'']"

definition add_assignment ::
  "(string \<times> DashboardAssignmentSummary) list \<Rightarrow> DashboardRun \<Rightarrow> (string \<times> DashboardAssignmentSummary) list" where
  "add_assignment grouped run =
     (if rr_status run \<notin> set DASHBOARD_ASSIGNMENT_STATUSES then grouped
      else case map_of grouped (dr_silo_slug run) of
             Some existing \<Rightarrow>
               map_set (dr_silo_slug run)
                 (existing\<lparr>as_activeCount := as_activeCount existing + 1,
                           as_blockedCount := as_blockedCount existing + (if rr_status run = ''blocked'' then 1 else 0)\<rparr>) grouped
           | None \<Rightarrow>
               map_set (dr_silo_slug run)
                 \<lparr>as_siloSlug = dr_silo_slug run, as_siloName = dr_silo_name run, as_activeCount = 1,
                  as_blockedCount = (if rr_status run = ''blocked'' then 1 else 0),
                  as_latestTaskTitle = dr_task_title run, as_latestBoardName = dr_board_name run\<rparr> grouped)"

definition blocked_then_active :: "DashboardAssignmentSummary \<Rightarrow> DashboardAssignmentSummary \<Rightarrow> int" where
  "blocked_then_active = cmp_then (descending (\<lambda>s. int (as_blockedCount s))) (descending (\<lambda>s. int (as_activeCount s)))"

definition buildDashboardAssignmentSummaries :: "DashboardRun list option \<Rightarrow> DashboardAssignmentSummary list" where
  "buildDashboardAssignmentSummaries recent_runs =
     (case recent_runs of
        None \<Rightarrow> []
      | Some runs \<Rightarrow> take 3 (js_sort blocked_then_active (map snd (foldl add_assignment [] runs))))"

record SiloRequestsSummary =
  sr_openCount :: nat
  sr_urgentCount :: nat
  sr_highCount :: nat
  sr_materializedRecentCount :: nat
  sr_demandLinkedCount :: nat
  sr_activeWorkloadCount :: nat

definition add_open_request :: "js_record \<Rightarrow> SiloRequestsSummary \<Rightarrow> SiloRequestsSummary" where
  "add_open_request request acc =
     (let linked = truthy (get_prop request ''source_task_title'');
          active = describeSiloRequestPressure (get_prop request ''source_task_title'') (get_prop request ''source_task_status'')
                     (get_prop request ''source_task_priority'') (prop_text request ''priority'') = Some ''Active workload pressure''
      in acc\<lparr>sr_openCount := sr_openCount acc + 1,
             sr_urgentCount := sr_urgentCount acc + (if get_prop request ''priority'' = Str ''urgent'' then 1 else 0),
             sr_highCount := sr_highCount acc + (if get_prop request ''priority'' = Str ''high'' then 1 else 0),
             sr_demandLinkedCount := sr_demandLinkedCount acc + (if linked then 1 else 0),
             sr_activeWorkloadCount := sr_activeWorkloadCount acc + (if active then 1 else 0)\<rparr>)"

definition materialized_recently :: "(int \<Rightarrow> int) \<Rightarrow> int \<Rightarrow> js_record \<Rightarrow> bool" where
  "materialized_recently tz now request \<longleftrightarrow>
     (case str_prop request ''materialized_at'' of
        None \<Rightarrow> False
      | Some s \<Rightarrow> s \<noteq> [] \<and> (case date_parse tz s of None \<Rightarrow> False | Some stamp \<Rightarrow> now - stamp \<le> 7 * 24 * 60 * 60 * 1000))"

definition add_request :: "(int \<Rightarrow> int) \<Rightarrow> int \<Rightarrow> SiloRequestsSummary \<Rightarrow> js_record \<Rightarrow> SiloRequestsSummary" where
  "add_request tz now acc request =
     (let acc1 = (if isOpenSiloRequestStatus (prop_text request ''status'') then add_open_request request acc else acc)
      in if materialized_recently tz now request
         then acc1\<lparr>sr_materializedRecentCount := sr_materializedRecentCount acc1 + 1\<rparr> else acc1)"

definition siloRequestsSummary :: "(int \<Rightarrow> int) \<Rightarrow> int \<Rightarrow> js_record list \<Rightarrow> SiloRequestsSummary" where
  "siloRequestsSummary tz now requests =
     foldl (add_request tz now)
       \<lparr>sr_openCount = 0, sr_urgentCount = 0, sr_highCount = 0, sr_materializedRecentCount = 0,
        sr_demandLinkedCount = 0, sr_activeWorkloadCount = 0\<rparr> requests"

section \<open>Activity\<close>

definition DASHBOARD_ACTIVITY_FILTERS :: "(string \<times> string) list" where
  "DASHBOARD_ACTIVITY_FILTERS =
     [(''all'', ''All''), (''runtime'', ''Runtime''), (''tasks'', ''Tasks''), (''approvals'', ''Approvals''),
      (''agents'', ''Agents''), (''boards'', ''Boards''), (''gateway'', ''Gateway'')]"

definition activityCategory :: "search_params \<Rightarrow> string" where
  "activityCategory searchParams =
     (case params_get ''activity'' searchParams of
        None \<Rightarrow> ''all''
      | Some v \<Rightarrow>
          if v = ''runtime'' \<or> list_ex (\<lambda>item. fst item = v) DASHBOARD_ACTIVITY_FILTERS then v else ''all'')"

definition updateActivityCategory :: "string \<Rightarrow> string \<Rightarrow> search_params \<Rightarrow> string" where
  "updateActivityCategory pathname category searchParams =
     (let params = parse_params (params_to_string searchParams)
      in with_query pathname (params_to_string
           (if category = ''all'' then params_delete ''activity'' params else params_set ''activity'' category params)))"

text \<open>The events of the log and those of the stream, which replace events of the log with their id.\<close>

definition merged_events :: "RoutedEvent list \<Rightarrow> (string \<times> RoutedEvent) list" where
  "merged_events events = foldl (\<lambda>merged event. map_set (ae_id event) event merged) [] events"

definition activityEvents :: "RoutedEvent list \<Rightarrow> RoutedEvent list \<Rightarrow> RoutedEvent list" where
  "activityEvents seeded streamedEvents =
     map snd (merged_events (seeded @ streamedEvents))"

definition dashboard_time :: "(int \<Rightarrow> int) \<Rightarrow> RoutedEvent \<Rightarrow> int" where
  "dashboard_time tz event = coalesce (parseTimestamp tz (Some (ae_created_at event))) 0"

definition orderedActivityEvents :: "(int \<Rightarrow> int) \<Rightarrow> RoutedEvent list \<Rightarrow> RoutedEvent list" where
  "orderedActivityEvents tz events = js_sort (descending (dashboard_time tz)) events"

definition in_category :: "string \<Rightarrow> RoutedEvent \<Rightarrow> bool" where
  "in_category chosen event \<longleftrightarrow>
     (let category = activityCategoryForEvent (ae_event_type event)
      in if chosen = ''runtime'' then category = Runs \<or> category = Runtime else category_name category = chosen)"

definition recentLogs :: "string \<Rightarrow> RoutedEvent list \<Rightarrow> RoutedEvent list" where
  "recentLogs chosen ordered =
     take 8 (if chosen = ''all'' then ordered else filter (in_category chosen) ordered)"

definition latestActivityTimestamp :: "(int \<Rightarrow> int) \<Rightarrow> RoutedEvent list \<Rightarrow> string option" where
  "latestActivityTimestamp tz items =
     (let latestTime = foldl (\<lambda>latest item. if dashboard_time tz item > latest then dashboard_time tz item else latest) 0 items
      in if latestTime \<noteq> 0 then Some (iso_date latestTime) else None)"

definition activity_stream_path :: "(int \<Rightarrow> int) \<Rightarrow> RoutedEvent list \<Rightarrow> string" where
  "activity_stream_path tz streamedEvents =
     with_query ''/api/v1/activity/stream''
       (params_to_string (case latestActivityTimestamp tz streamedEvents of None \<Rightarrow> [] | Some since \<Rightarrow> [(''since'', since)]))"

definition push_streamed :: "RoutedEvent \<Rightarrow> RoutedEvent list \<Rightarrow> RoutedEvent list" where
  "push_streamed event prev = (if list_ex (\<lambda>item. ae_id item = ae_id event) prev then prev else take 200 (event # prev))"

text \<open>
  A chunk of the stream: the loop is the one of the board page. \<open>decode\<close> reads the data of a frame:
  nothing when it is not JSON, and nothing inside when it has no activity.
\<close>

definition activity_chunk ::
  "(string \<Rightarrow> RoutedEvent option option) \<Rightarrow> string \<Rightarrow> string \<Rightarrow> RoutedEvent list \<Rightarrow> RoutedEvent list \<times> string" where
  "activity_chunk decode buffer chunk events =
     (let (frames, buffer') = read_activity_chunk (\<lambda>data. decode data \<noteq> None) buffer chunk
      in (foldl (\<lambda>prev data. case decode data of Some (Some event) \<Rightarrow> push_streamed event prev | _ \<Rightarrow> prev) events frames,
          buffer'))"

section \<open>Links\<close>

definition activityFeedHref :: "string \<Rightarrow> string" where
  "activityFeedHref category =
     (if category = ''all'' then ''/activity''
      else ''/activity?'' @ params_to_string [(''category'', if category = ''runtime'' then ''runs'' else category)])"

definition board_link_of :: "string option \<Rightarrow> string option \<Rightarrow> string option" where
  "board_link_of board task =
     (case shown_text board of
        None \<Rightarrow> None
      | Some b \<Rightarrow>
          (case shown_text task of
             Some t \<Rightarrow> Some (''/boards/'' @ encodeURIComponent b @ ''?taskId='' @ encodeURIComponent t)
           | None \<Rightarrow> Some (''/boards/'' @ encodeURIComponent b)))"

definition workerContextHref :: "worker_snapshot option \<Rightarrow> string option" where
  "workerContextHref snapshot =
     (case snapshot of None \<Rightarrow> None | Some w \<Rightarrow> board_link_of (wk_latest_board_id w) (wk_latest_task_id w))"

definition webhookContextHref :: "webhook_snapshot option \<Rightarrow> string option" where
  "webhookContextHref snapshot = (case snapshot of None \<Rightarrow> None | Some w \<Rightarrow> board_link_of (wh_latest_board_id w) None)"

definition siloHealthContextHref :: "string option \<Rightarrow> string option" where
  "siloHealthContextHref primarySiloSlug = map_option (\<lambda>slug. ''/silos/'' @ slug) (shown_text primarySiloSlug)"

text \<open>The route parameters as they come, turned to text when they are put into an address.\<close>

definition raw_params :: "js \<Rightarrow> route_params" where
  "raw_params v = map (\<lambda>(k, p). (k, coalesce (to_string_js p) [])) (object_entries v)"

definition buildActivityEventHref :: "string \<Rightarrow> RoutedEvent \<Rightarrow> string" where
  "buildActivityEventHref feedHref event =
     (let routeParams = raw_params (ae_route_params event);
          boardId = truthy_option (route_param ''boardId'' routeParams);
          feed = feedHref @ ''?'' @ params_to_string (activity_query routeParams
            \<lparr>fb_eventId = ae_id event, fb_eventType = ae_event_type event, fb_createdAt = ae_created_at event,
             fb_taskId = ae_task_id event\<rparr>)
      in case boardId of
           None \<Rightarrow> feed
         | Some b \<Rightarrow>
             if ae_route_name event = Some ''board.approvals'' then ''/boards/'' @ encodeURIComponent b @ ''/approvals''
             else if ae_route_name event = Some ''board''
             then with_query (''/boards/'' @ encodeURIComponent b) (params_to_string (board_query routeParams))
             else feed)"

definition buildRuntimeRunHref :: "DashboardRun \<Rightarrow> string" where
  "buildRuntimeRunHref run =
     ''/boards/'' @ encodeURIComponent (rr_board_id run) @ ''?'' @ params_to_string [(''taskId'', rr_task_id run)]"

section \<open>Runs\<close>

definition detail :: "string \<Rightarrow> string option \<Rightarrow> (string \<times> string) option" where
  "detail label v = map_option (\<lambda>text_value. (label, text_value)) (shown_text v)"

definition run_detail_rows :: "(rat \<Rightarrow> string) \<Rightarrow> DashboardRun \<Rightarrow> (string \<times> string) list" where
  "run_detail_rows fmt run = present
     [detail ''Issue'' (rr_issue_identifier run), detail ''Runner'' (rr_runner_kind run),
      detail ''Completion'' (rr_completion_kind run), detail ''Failure reason'' (rr_failure_reason run),
      detail ''Block reason'' (rr_block_reason run), detail ''Cancel reason'' (rr_cancel_reason run),
      detail ''Stall reason'' (rr_stall_reason run),
      map_option (\<lambda>n. (''Turns'', show_num n)) (rr_turn_count run),
      detail ''Session'' (rr_session_id run), detail ''Event'' (rr_last_event run),
      map_option (\<lambda>ms. (''Duration'', formatRuntimeDurationMs ms)) (rr_duration_ms run),
      (if 0 < dr_total_tokens run then Some (''Tokens'', compactNumber fmt (dr_total_tokens run)) else None),
      detail ''Last message'' (rr_last_message run)]"

datatype run_action = RetryRun | CancelRun | AcknowledgeRun | EscalateRun

record run_flags =
  retryingRunId :: "string option"
  cancellingRunId :: "string option"
  acknowledgingRunId :: "string option"
  escalatingRunId :: "string option"

fun action_path :: "run_action \<Rightarrow> string" where
  "action_path RetryRun = ''retry-dispatch''"
| "action_path CancelRun = ''cancel''"
| "action_path AcknowledgeRun = ''acknowledge''"
| "action_path EscalateRun = ''escalate''"

fun set_flag :: "run_action \<Rightarrow> string option \<Rightarrow> run_flags \<Rightarrow> run_flags" where
  "set_flag RetryRun v s = s\<lparr>retryingRunId := v\<rparr>"
| "set_flag CancelRun v s = s\<lparr>cancellingRunId := v\<rparr>"
| "set_flag AcknowledgeRun v s = s\<lparr>acknowledgingRunId := v\<rparr>"
| "set_flag EscalateRun v s = s\<lparr>escalatingRunId := v\<rparr>"

fun flag_of :: "run_action \<Rightarrow> run_flags \<Rightarrow> string option" where
  "flag_of RetryRun s = retryingRunId s"
| "flag_of CancelRun s = cancellingRunId s"
| "flag_of AcknowledgeRun s = acknowledgingRunId s"
| "flag_of EscalateRun s = escalatingRunId s"

text \<open>The request of an action; the button of a run is disabled while the flag holds its id.\<close>

definition run_begin :: "run_action \<Rightarrow> DashboardRun \<Rightarrow> run_flags \<Rightarrow> run_flags \<times> string" where
  "run_begin action run s =
     (set_flag action (Some (rr_id run)) s,
      ''/api/v1/boards/'' @ encodeURIComponent (rr_board_id run) @ ''/tasks/'' @ encodeURIComponent (rr_task_id run)
      @ ''/execution-runs/'' @ encodeURIComponent (rr_id run) @ ''/'' @ action_path action)"

definition invalidated_views :: "string list" where
  "invalidated_views =
     [''dashboard/execution-runtime/7d'', ''dashboard/telemetry-ops/7d'', ''/api/v1/metrics/dashboard'', ''/api/v1/activity'']"

definition run_end :: "run_action \<Rightarrow> bool \<Rightarrow> run_flags \<Rightarrow> run_flags \<times> string list" where
  "run_end action succeeded s = (set_flag action None s, if succeeded then invalidated_views else [])"

definition button_disabled :: "run_action \<Rightarrow> DashboardRun \<Rightarrow> run_flags \<Rightarrow> bool" where
  "button_disabled action run s \<longleftrightarrow> flag_of action s = Some (rr_id run)"

section \<open>Metrics\<close>

record DashboardMetrics =
  dm_inbox_tasks :: rat
  dm_in_progress_tasks :: rat
  dm_review_tasks :: rat
  dm_done_tasks :: rat
  dm_tasks_in_progress :: rat
  dm_error_rate_pct :: rat
  dm_points :: "rat list"

definition INFINITY_SIGN :: string where
  "INFINITY_SIGN = [CHR 0xE2, CHR 0x88, CHR 0x9E]"

text \<open>\<open>metrics?.kpis.inbox_tasks ?? 0\<close>\<close>

definition kpi :: "(DashboardMetrics \<Rightarrow> rat) \<Rightarrow> DashboardMetrics option \<Rightarrow> rat" where
  "kpi field metrics = coalesce (map_option field metrics) 0"

definition points_of :: "DashboardMetrics option \<Rightarrow> rat list" where
  "points_of metrics = coalesce (map_option dm_points metrics) []"

definition throughputTotal :: "DashboardMetrics option \<Rightarrow> rat" where
  "throughputTotal metrics = foldl (\<lambda>total_sum v. total_sum + v) 0 (points_of metrics)"

definition completionDaysCount :: "DashboardMetrics option \<Rightarrow> nat" where
  "completionDaysCount metrics = foldl (\<lambda>n v. n + (if 0 < v then 1 else 0)) 0 (points_of metrics)"

definition latestThroughputPoint :: "DashboardMetrics option \<Rightarrow> rat" where
  "latestThroughputPoint metrics = (if points_of metrics = [] then 0 else last (points_of metrics))"

definition tasksTotal :: "DashboardMetrics option \<Rightarrow> rat" where
  "tasksTotal metrics =
     kpi dm_inbox_tasks metrics + kpi dm_in_progress_tasks metrics + kpi dm_review_tasks metrics + kpi dm_done_tasks metrics"

definition tasksInProgressMetric :: "DashboardMetrics option \<Rightarrow> rat" where
  "tasksInProgressMetric metrics = coalesce (map_option dm_tasks_in_progress metrics) (kpi dm_in_progress_tasks metrics)"

definition reviewBacklogRatio :: "DashboardMetrics option \<Rightarrow> rat option" where
  "reviewBacklogRatio metrics =
     (if 0 < kpi dm_in_progress_tasks metrics
      then Some (kpi dm_review_tasks metrics / kpi dm_in_progress_tasks metrics) else None)"

definition plain_row :: "string \<Rightarrow> string \<Rightarrow> SummaryRow" where
  "plain_row label v = \<lparr>row_label = label, row_value = v, row_tone = None\<rparr>"

definition workloadRows :: "(rat \<Rightarrow> string) \<Rightarrow> DashboardMetrics option \<Rightarrow> SummaryRow list" where
  "workloadRows fmt metrics =
     (let in_progress = kpi dm_in_progress_tasks metrics; finished = kpi dm_done_tasks metrics
      in [plain_row ''Total work items'' (formatCount fmt (tasksTotal metrics)),
          plain_row ''Inbox'' (formatCount fmt (kpi dm_inbox_tasks metrics)),
          (plain_row ''In progress'' (formatCount fmt in_progress))\<lparr>row_tone := toned (0 < in_progress) ''warning'' ''default''\<rparr>,
          plain_row ''In review'' (formatCount fmt (kpi dm_review_tasks metrics)),
          (plain_row ''Completed'' (formatCount fmt finished))\<lparr>row_tone := toned (0 < finished) ''success'' ''default''\<rparr>])"

definition throughputRows :: "(rat \<Rightarrow> string) \<Rightarrow> DashboardMetrics option \<Rightarrow> SummaryRow list" where
  "throughputRows fmt metrics =
     (let rate = kpi dm_error_rate_pct metrics; days = completionDaysCount metrics; review = kpi dm_review_tasks metrics;
          ratio = reviewBacklogRatio metrics
      in [plain_row ''Completed tasks'' (formatCount fmt (throughputTotal metrics)),
          plain_row ''Average throughput'' (formatPerDay (throughputTotal metrics) 7),
          (plain_row ''Error rate'' (formatPercent rate))\<lparr>row_tone := toned (0 < rate) ''warning'' ''success''\<rparr>,
          (plain_row ''Completion consistency'' (formatCount fmt (of_nat days) @ '' active days''))
            \<lparr>row_tone := toned (\<lceil>7 * (3 / 4 :: rat)\<rceil> \<le> int days) ''success'' ''default''\<rparr>,
          (plain_row ''Review backlog ratio''
             (case ratio of
                Some q \<Rightarrow> fixed_text 2 q @ ''x''
              | None \<Rightarrow> if 0 < review then INFINITY_SIGN else ''0.00x''))
            \<lparr>row_tone := (case ratio of
                Some q \<Rightarrow> toned (1 < q) ''warning'' ''success''
              | None \<Rightarrow> toned (0 < review) ''warning'' ''success'')\<rparr>])"

section \<open>Lemmas on assignments\<close>

text \<open>The active runs of a silo, and what the dashboard says of them.\<close>

definition own_runs :: "string \<Rightarrow> DashboardRun list \<Rightarrow> DashboardRun list" where
  "own_runs slug runs = filter (\<lambda>run. rr_status run \<in> set DASHBOARD_ASSIGNMENT_STATUSES \<and> dr_silo_slug run = slug) runs"

definition assignment_of :: "DashboardRun list \<Rightarrow> DashboardAssignmentSummary option" where
  "assignment_of runs =
     (case runs of
        [] \<Rightarrow> None
      | run # _ \<Rightarrow> Some
          \<lparr>as_siloSlug = dr_silo_slug run, as_siloName = dr_silo_name run, as_activeCount = length runs,
           as_blockedCount = length (filter (\<lambda>r. rr_status r = ''blocked'') runs),
           as_latestTaskTitle = dr_task_title run, as_latestBoardName = dr_board_name run\<rparr>)"

lemma assignment_of_snoc:
  "assignment_of (runs @ [run]) = Some
     (case assignment_of runs of
        Some existing \<Rightarrow>
          existing\<lparr>as_activeCount := as_activeCount existing + 1,
            as_blockedCount := as_blockedCount existing + (if rr_status run = ''blocked'' then 1 else 0)\<rparr>
      | None \<Rightarrow>
          \<lparr>as_siloSlug = dr_silo_slug run, as_siloName = dr_silo_name run, as_activeCount = 1,
           as_blockedCount = (if rr_status run = ''blocked'' then 1 else 0),
           as_latestTaskTitle = dr_task_title run, as_latestBoardName = dr_board_name run\<rparr>)"
  by (cases runs) (simp_all add: assignment_of_def)

lemma assignments_grouped:
  "map_of (foldl add_assignment [] runs) slug = assignment_of (own_runs slug runs)
    \<and> distinct (map fst (foldl add_assignment [] runs))"
proof (induction runs arbitrary: slug rule: rev_induct)
  case Nil
  then show ?case by (simp add: own_runs_def assignment_of_def)
next
  case (snoc run runs)
  define g where "g = foldl add_assignment [] runs"
  have IH: "map_of g k = assignment_of (own_runs k runs)" "distinct (map fst g)" for k
    using snoc [of k] by (simp_all add: g_def)
  have "distinct (map fst (add_assignment g run))"
    using IH(2) by (simp add: add_assignment_def distinct_map_set split: option.split)
  moreover have "map_of (add_assignment g run) slug = assignment_of (own_runs slug (runs @ [run]))"
  proof (cases "rr_status run \<in> set DASHBOARD_ASSIGNMENT_STATUSES \<and> dr_silo_slug run = slug")
    case True
    then have "own_runs slug (runs @ [run]) = own_runs slug runs @ [run]" by (simp add: own_runs_def)
    with True IH(1) [of slug] show ?thesis
      by (simp add: add_assignment_def assignment_of_snoc split: option.split)
  next
    case False
    then have "own_runs slug (runs @ [run]) = own_runs slug runs" by (auto simp: own_runs_def)
    with False IH(1) [of slug] show ?thesis by (auto simp: add_assignment_def split: option.split)
  qed
  ultimately show ?case by (simp add: g_def)
qed

interpretation assignments: consistent_comparator blocked_then_active
  unfolding blocked_then_active_def by (rule two_keys.consistent_comparator_axioms)

lemma grouped_summary:
  assumes "s \<in> snd ` set (foldl add_assignment [] runs)"
  shows "assignment_of (own_runs (as_siloSlug s) runs) = Some s"
proof -
  from assms obtain slug where "(slug, s) \<in> set (foldl add_assignment [] runs)" by auto
  then have s: "assignment_of (own_runs slug runs) = Some s"
    using assignments_grouped [of runs slug] map_of_is_SomeI [of "foldl add_assignment [] runs" slug s] by simp
  then obtain run rest where own: "own_runs slug runs = run # rest"
    by (cases "own_runs slug runs") (simp_all add: assignment_of_def)
  then have "run \<in> set (own_runs slug runs)" by simp
  then have "dr_silo_slug run = slug" by (simp add: own_runs_def)
  with s own have "as_siloSlug s = slug" by (auto simp: assignment_of_def)
  with s show ?thesis by simp
qed

section \<open>Lemmas on activity\<close>

lemma merged_event:
  "map_of (merged_events events) i = find (\<lambda>e. ae_id e = i) (rev events)
    \<and> distinct (map fst (merged_events events))"
  by (induction events arbitrary: i rule: rev_induct) (simp_all add: merged_events_def distinct_map_set)

lemma merged_entry:
  assumes "(i, e) \<in> set (merged_events events)"
  shows "find (\<lambda>x. ae_id x = i) (rev events) = Some e" and "ae_id e = i"
proof -
  have "map_of (merged_events events) i = Some e" using assms merged_event [of events] by (intro map_of_is_SomeI) auto
  with merged_event [of events i] show "find (\<lambda>x. ae_id x = i) (rev events) = Some e" by simp
  then show "ae_id e = i" by (auto simp: find_Some_iff)
qed

lemma activityEvents_newest:
  "e \<in> set (activityEvents seeded streamedEvents)
     \<longleftrightarrow> find (\<lambda>x. ae_id x = ae_id e) (rev (seeded @ streamedEvents)) = Some e"
proof
  assume "e \<in> set (activityEvents seeded streamedEvents)"
  then obtain i where "(i, e) \<in> set (merged_events (seeded @ streamedEvents))" by (auto simp: activityEvents_def)
  with merged_entry [OF this] show "find (\<lambda>x. ae_id x = ae_id e) (rev (seeded @ streamedEvents)) = Some e" by simp
next
  assume "find (\<lambda>x. ae_id x = ae_id e) (rev (seeded @ streamedEvents)) = Some e"
  then have "map_of (merged_events (seeded @ streamedEvents)) (ae_id e) = Some e" by (simp only: merged_event)
  from map_of_SomeD [OF this] show "e \<in> set (activityEvents seeded streamedEvents)" by (force simp: activityEvents_def)
qed

lemma find_append: "find P (xs @ ys) = (case find P xs of None \<Rightarrow> find P ys | Some x \<Rightarrow> Some x)"
  by (induction xs) simp_all

lemma find_rev_distinct: "distinct (map f xs) \<Longrightarrow> find (\<lambda>x. f x = i) (rev xs) = find (\<lambda>x. f x = i) xs"
proof (induction xs)
  case (Cons x xs)
  moreover have "find (\<lambda>y. f y = f x) xs = None" using Cons.prems unfolding find_None_iff by (auto simp: image_iff)
  ultimately show ?case by (auto simp: find_append split: option.split)
qed simp

text \<open>What the stream holds after its deliveries: the first of every id, as long as there are at most 200.\<close>

definition streamed_from :: "RoutedEvent list \<Rightarrow> RoutedEvent list" where
  "streamed_from deliveries = foldl (\<lambda>prev event. push_streamed event prev) [] deliveries"

lemma streamed_from_snoc: "streamed_from (deliveries @ [event]) = push_streamed event (streamed_from deliveries)"
  by (simp add: streamed_from_def)

lemma streamed_distinct: "distinct (map ae_id (streamed_from deliveries))"
proof (induction deliveries rule: rev_induct)
  case (snoc event deliveries)
  let ?prev = "streamed_from deliveries"
  show ?case
  proof (cases "list_ex (\<lambda>item. ae_id item = ae_id event) ?prev")
    case False
    then have "distinct (map ae_id (event # ?prev))" using snoc by (auto simp: list_ex_iff)
    then have "distinct (map ae_id (take 200 (event # ?prev)))" by (rule distinct_map_take)
    with False show ?thesis by (simp only: streamed_from_snoc push_streamed_def if_False)
  qed (simp add: streamed_from_snoc push_streamed_def snoc)
qed (simp add: streamed_from_def)

lemma streamed_length: "length (streamed_from deliveries) \<le> length deliveries"
  by (induction deliveries rule: rev_induct)
    (auto simp: streamed_from_snoc push_streamed_def, simp add: streamed_from_def)

lemma streamed_first:
  "length deliveries \<le> 200 \<Longrightarrow>
   \<forall>i. find (\<lambda>x. ae_id x = i) (streamed_from deliveries) = find (\<lambda>x. ae_id x = i) deliveries"
proof (induction deliveries rule: rev_induct)
  case (snoc event deliveries)
  let ?prev = "streamed_from deliveries"
  have prev: "find (\<lambda>x. ae_id x = i) ?prev = find (\<lambda>x. ae_id x = i) deliveries" for i
    using snoc by simp
  have known: "list_ex (\<lambda>item. ae_id item = ae_id event) ?prev \<longleftrightarrow> find (\<lambda>x. ae_id x = ae_id event) deliveries \<noteq> None"
    unfolding prev [symmetric] by (auto simp: list_ex_iff find_None_iff)
  have "length (event # ?prev) \<le> 200" using streamed_length [of deliveries] snoc.prems by simp
  then have whole: "take 200 (event # ?prev) = event # ?prev" by (rule take_all)
  show ?case
  proof
    fix i
    show "find (\<lambda>x. ae_id x = i) (streamed_from (deliveries @ [event])) = find (\<lambda>x. ae_id x = i) (deliveries @ [event])"
    proof (cases "list_ex (\<lambda>item. ae_id item = ae_id event) ?prev")
      case True
      then show ?thesis using known prev [of i]
        by (auto simp: streamed_from_snoc push_streamed_def find_append split: option.split)
    next
      case False
      then have pushed: "streamed_from (deliveries @ [event]) = event # ?prev"
        by (simp only: streamed_from_snoc push_streamed_def if_False whole)
      from False known have "find (\<lambda>x. ae_id x = ae_id event) deliveries = None" by simp
      then show ?thesis using prev [of i] by (auto simp: pushed find_append split: option.split)
    qed
  qed
qed (simp add: streamed_from_def)

text \<open>The version of an event that the dashboard knows: the stream's, or else that of the log.\<close>

definition known_version :: "RoutedEvent list \<Rightarrow> RoutedEvent list \<Rightarrow> string \<Rightarrow> RoutedEvent option" where
  "known_version seeded streamedEvents i =
     (case find (\<lambda>x. ae_id x = i) streamedEvents of
        Some e \<Rightarrow> Some e
      | None \<Rightarrow> find (\<lambda>x. ae_id x = i) (rev seeded))"

lemma activityEvents_version:
  "distinct (map ae_id streamedEvents) \<Longrightarrow>
   e \<in> set (activityEvents seeded streamedEvents) \<longleftrightarrow> known_version seeded streamedEvents (ae_id e) = Some e"
  unfolding activityEvents_newest by (auto simp: known_version_def find_append find_rev_distinct split: option.split)

lemma activityEvents_distinct: "distinct (map ae_id (activityEvents seeded streamedEvents))"
proof -
  let ?m = "merged_events (seeded @ streamedEvents)"
  have "map ae_id (map snd ?m) = map fst ?m"
    using merged_entry(2) [of _ _ "seeded @ streamedEvents"] by (auto intro!: map_cong)
  then show ?thesis using merged_event [of "seeded @ streamedEvents"] by (simp only: activityEvents_def)
qed

section \<open>Properties\<close>


lemma more_blocked_first:
  "blocked_then_active s t \<le> 0 \<longleftrightarrow> as_blockedCount t < as_blockedCount s
     \<or> as_blockedCount t = as_blockedCount s \<and> as_activeCount t \<le> as_activeCount s"
  by (auto simp: blocked_then_active_def cmp_then_def descending_def)

text \<open>\<open>s\<close> comes before \<open>t\<close>: more blocked runs, or as many and not fewer active ones.\<close>

definition more_blocked :: "DashboardAssignmentSummary \<Rightarrow> DashboardAssignmentSummary \<Rightarrow> bool" where
  "more_blocked s t \<longleftrightarrow> as_blockedCount t < as_blockedCount s
     \<or> as_blockedCount t = as_blockedCount s \<and> as_activeCount t \<le> as_activeCount s"

lemma own_assignment:
  "assignment_of (own_runs slug runs) = Some t \<longleftrightarrow> as_siloSlug t = slug \<and> t \<in> snd ` set (foldl add_assignment [] runs)"
proof
  assume "assignment_of (own_runs slug runs) = Some t"
  moreover from this obtain run rest where own: "own_runs slug runs = run # rest"
    by (cases "own_runs slug runs") (simp_all add: assignment_of_def)
  then have "run \<in> set (own_runs slug runs)" by simp
  then have "dr_silo_slug run = slug" by (simp add: own_runs_def)
  ultimately have "as_siloSlug t = slug" "map_of (foldl add_assignment [] runs) slug = Some t"
    using own assignments_grouped [of runs slug] by (auto simp: assignment_of_def)
  then show "as_siloSlug t = slug \<and> t \<in> snd ` set (foldl add_assignment [] runs)" using map_of_SomeD by force
qed (use grouped_summary in auto)

text \<open>C21: the assignments shown are at most three silos, those with the most blocked runs first and with the most
  active runs among them; each with the number of its active and of its blocked runs, and title
  and board of its first run in the list. A silo with active runs that is not shown has not
  more blocked runs, and with as many not more active ones, than any of the three.\<close>

theorem assignments_shown:
  assumes "shown = buildDashboardAssignmentSummaries (Some runs)"
  shows "length shown \<le> 3 \<and> sorted_wrt more_blocked shown
    \<and> (\<forall>s \<in> set shown. assignment_of (own_runs (as_siloSlug s) runs) = Some s)
    \<and> (\<forall>slug t. assignment_of (own_runs slug runs) = Some t \<longrightarrow>
        t \<in> set shown \<or> length shown = 3 \<and> (\<forall>s \<in> set shown. more_blocked s t))"
proof -
  define grouped where "grouped = js_sort blocked_then_active (map snd (foldl add_assignment [] runs))"
  have shown: "shown = take 3 grouped"
    using assms by (simp add: buildDashboardAssignmentSummaries_def grouped_def)
  have order: "(\<lambda>s t. blocked_then_active s t \<le> 0) = more_blocked"
    by (intro ext) (simp add: more_blocked_first more_blocked_def)
  have sorted: "sorted_wrt more_blocked grouped"
    using assignments.sorted_js_sort unfolding grouped_def order .
  then have "sorted_wrt more_blocked shown" unfolding shown by (rule sorted_wrt_take)
  moreover have "assignment_of (own_runs (as_siloSlug s) runs) = Some s" if "s \<in> set shown" for s
    using that grouped_summary [of s runs] unfolding shown grouped_def by (auto dest: in_set_takeD)
  moreover have "t \<in> set shown \<or> length shown = 3 \<and> (\<forall>s \<in> set shown. more_blocked s t)"
    if "assignment_of (own_runs slug runs) = Some t" for slug t
  proof (cases "t \<in> set shown")
    case False
    from that have "t \<in> set grouped" by (simp add: own_assignment grouped_def)
    moreover have "set grouped = set (take 3 grouped) \<union> set (drop 3 grouped)" by (metis append_take_drop_id set_append)
    ultimately have d: "t \<in> set (drop 3 grouped)" using False unfolding shown by blast
    then have "3 < length grouped" by (cases "3 < length grouped") auto
    moreover have "\<forall>s \<in> set shown. more_blocked s t" using take_before_drop [OF sorted _ d] unfolding shown by blast
    ultimately show ?thesis by (simp add: shown)
  qed simp
  ultimately show ?thesis by (simp add: shown)
qed

definition sample_run :: "string \<Rightarrow> string \<Rightarrow> DashboardRun" where
  "sample_run slug status =
     \<lparr>rr_id = slug, rr_board_id = ''b'', rr_task_id = ''t'', rr_status = status, rr_created_at = [], rr_started_at = None,
      rr_completed_at = None, rr_updated_at = [], rr_summary = None, rr_branch_name = None, rr_pr_url = None,
      rr_issue_identifier = None, rr_runner_kind = None, rr_completion_kind = None, rr_failure_reason = None,
      rr_block_reason = None, rr_cancel_reason = None, rr_stall_reason = None, rr_last_event = None,
      rr_last_message = None, rr_session_id = None, rr_turn_count = None, rr_duration_ms = None,
      dr_board_name = ''Board'', dr_task_title = ''Task'', dr_silo_slug = slug, dr_silo_name = slug, dr_total_tokens = 0\<rparr>"

theorem assignments_shown_witness:
  "let s = hd (buildDashboardAssignmentSummaries (Some [sample_run ''a'' ''running'', sample_run ''a'' ''blocked'']))
   in as_activeCount s = 2 \<and> as_blockedCount s = 1"
proof -
  let ?runs = "[sample_run ''a'' ''running'', sample_run ''a'' ''blocked'']"
  define shown where "shown = buildDashboardAssignmentSummaries (Some ?runs)"
  note facts = assignments_shown [OF shown_def]
  have own: "own_runs ''a'' ?runs = ?runs" by (simp add: own_runs_def sample_run_def DASHBOARD_ASSIGNMENT_STATUSES_def)
  then obtain t where "assignment_of (own_runs ''a'' ?runs) = Some t" by (simp add: assignment_of_def)
  with facts have "shown \<noteq> []" by fastforce
  then have "hd shown \<in> set shown" by simp
  with facts have s: "assignment_of (own_runs (as_siloSlug (hd shown)) ?runs) = Some (hd shown)" by blast
  then have "as_siloSlug (hd shown) = ''a''"
    by (cases "as_siloSlug (hd shown) = ''a''") (simp_all add: own_runs_def sample_run_def assignment_of_def)
  with s own have "Some (hd shown) = assignment_of ?runs" by simp
  then show ?thesis by (simp add: Let_def shown_def [symmetric] assignment_of_def) (simp add: sample_run_def)
qed


section \<open>Where an event leads\<close>

lemma form_decode_plain:
  "list_all (\<lambda>c. c \<noteq> CHR ''+'' \<and> c \<noteq> CHR ''%'') s \<Longrightarrow> form_decode (s @ t) = s @ form_decode t"
  by (induction s) (simp_all add: form_decode_Cons)

lemma drop_question_params: "drop_question (params_to_string ps) = params_to_string ps"
proof -
  have "CHR ''?'' \<notin> set (join ''&'' (map pair_text ps))"
    using form_encode_no_sep(3) by (induction ps) (auto simp: pair_text_def join_rest)
  then show ?thesis by (cases "params_to_string ps") (auto simp: params_to_string_def drop_question_def)
qed

lemma parse_params_Cons:
  assumes "CHR ''&'' \<notin> set w" and "w \<noteq> []" and "hd w \<noteq> CHR ''?''"
  shows "parse_params (w @ CHR ''&'' # params_to_string rest) = read_pair w # rest"
proof -
  have "drop_question (w @ CHR ''&'' # params_to_string rest) = w @ CHR ''&'' # params_to_string rest"
    using assms(2,3) by (cases w) (auto simp: drop_question_def)
  then show ?thesis using assms(2) split_char_Cons_sep [OF assms(1), of "params_to_string rest"]
      parse_params_to_string [of rest]
    by (simp add: parse_params_def drop_question_params)
qed

text \<open>The address of a filtered feed with a second question mark: the first pair of the event is read as
  part of the category.\<close>

lemma filtered_link_query:
  assumes "list_all (\<lambda>c. c \<noteq> CHR ''+'' \<and> c \<noteq> CHR ''%'' \<and> c \<noteq> CHR ''&'' \<and> c \<noteq> CHR ''?'') category" and "form_encode category = category"
    and "rest \<noteq> []"
  shows "link_query ((''/activity?'' @ params_to_string [(''category'', category)]) @ ''?''
      @ params_to_string ((''eventId'', i) # rest))
    = (''category'', category @ ''?eventId='' @ i) # rest"
proof -
  let ?first = "''category='' @ category @ ''?eventId='' @ form_encode i"
  have plain: "form_encode ''category'' = ''category''" "form_encode ''eventId'' = ''eventId''" by code_simp+
  have link: "(''/activity?'' @ params_to_string [(''category'', category)]) @ ''?'' @ params_to_string ((''eventId'', i) # rest)
      = ''/activity'' @ CHR ''?'' # ?first @ CHR ''&'' # params_to_string rest"
    using assms(2,3) plain by (cases rest) (simp_all add: params_to_string_def pair_text_def)
  have path: "link_path (''/activity'' @ CHR ''?'' # s) = ''/activity''" for s by (simp add: link_path_def)
  have amp: "CHR ''&'' \<notin> set ?first" using assms(1) form_encode_no_sep(1) by (auto simp: list_all_iff)
  have "read_pair ?first = (''category'', category @ ''?eventId='' @ i)"
  proof -
    have "takeWhile (\<lambda>c. c \<noteq> CHR ''='') ?first = ''category''" by simp
    moreover have "form_decode ''category'' = ''category''" by code_simp
    moreover have "form_decode ((category @ ''?eventId='') @ form_encode i) = (category @ ''?eventId='') @ form_decode (form_encode i)"
      by (rule form_decode_plain) (use assms(1) in \<open>auto simp: list_all_iff\<close>)
    ultimately show ?thesis by (simp add: read_pair_def form_decode_encode)
  qed
  moreover have "parse_params (?first @ CHR ''&'' # params_to_string rest) = read_pair ?first # rest"
    by (rule parse_params_Cons [OF amp]) simp_all
  ultimately have parsed: "parse_params (?first @ CHR ''&'' # params_to_string rest) = (''category'', category @ ''?eventId='' @ i) # rest"
    by (simp only:)
  have "drop (Suc (length ''/activity'')) (''/activity'' @ CHR ''?'' # t) = t" for t :: string by simp
  then show ?thesis unfolding link link_query_def path by (simp only: parsed)
qed

text \<open>C16: from the dashboard's list an event without a board leads to its place in the activity feed, but when
  the list is filtered, the address has two question marks, and the feed finds neither the event nor the filter in it.\<close>

theorem filtered_link_loses_event:
  assumes "category \<in> fst ` set DASHBOARD_ACTIVITY_FILTERS"
    and "query = link_query (buildActivityEventHref (activityFeedHref category) (served None event))"
  shows "params_get ''eventId'' query = (if category = ''all'' then Some (ae_id event) else None)
    \<and> resolveActivityFilter query = ''all''"
proof -
  let ?rest = "[(''eventType'', ae_event_type event), (''createdAt'', ae_created_at event)]
    @ (case ae_task_id event of None \<Rightarrow> [] | Some t \<Rightarrow> [(''taskId'', t)])"
  have route: "raw_params (ae_route_params (served None event)) = (''eventId'', ae_id event) # ?rest"
    by (simp add: served_def build_activity_route_def raw_params_def split: option.split)
  have "activity_query ((''eventId'', ae_id event) # ?rest) fb = (''eventId'', ae_id event) # ?rest"
    if "fb_taskId fb = ae_task_id event" for fb
    using that by (cases "ae_task_id event")
      (auto simp: activity_query_def truthy_option_def params_get_def Let_def split: option.split)
  then have href: "buildActivityEventHref feed (served None event)
      = feed @ ''?'' @ params_to_string ((''eventId'', ae_id event) # ?rest)" for feed
    unfolding buildActivityEventHref_def route
    by (simp add: route_param_def truthy_option_def served_def Let_def split: option.split)
  show ?thesis
  proof (cases "category = ''all''")
    case True
    then have "query = (''eventId'', ae_id event) # ?rest"
      unfolding assms(2) href using feed_link_query by (simp add: activityFeedHref_def ACTIVITY_FEED_PATH_def)
    with True show ?thesis
      by (simp add: params_get_def resolveActivityFilter_def isActivityCategory_def list_ex_iff split: option.split)
  next
    case False
    define shown where "shown = (if category = ''runtime'' then ''runs'' else category)"
    have shown: "shown \<in> {''runs'', ''tasks'', ''approvals'', ''agents'', ''boards'', ''gateway''}"
      using assms(1) False by (auto simp: shown_def DASHBOARD_ACTIVITY_FILTERS_def)
    have "list_all (\<lambda>s. list_all (\<lambda>c. c \<noteq> CHR ''+'' \<and> c \<noteq> CHR ''%'' \<and> c \<noteq> CHR ''&'' \<and> c \<noteq> CHR ''?'') s \<and> form_encode s = s)
        [''runs'', ''tasks'', ''approvals'', ''agents'', ''boards'', ''gateway'']" by code_simp
    with shown have ok: "list_all (\<lambda>c. c \<noteq> CHR ''+'' \<and> c \<noteq> CHR ''%'' \<and> c \<noteq> CHR ''&'' \<and> c \<noteq> CHR ''?'') shown" "form_encode shown = shown"
      by auto
    have "query = (''category'', shown @ ''?eventId='' @ ae_id event) # ?rest"
      unfolding assms(2) href using filtered_link_query [OF ok, of ?rest] False
      by (simp add: activityFeedHref_def shown_def)
    moreover have "\<not> isActivityCategory (Some (shown @ ''?eventId='' @ ae_id event))"
    proof
      assume "isActivityCategory (Some (shown @ ''?eventId='' @ ae_id event))"
      then obtain item where item: "item \<in> set ACTIVITY_FILTERS" "shown @ ''?eventId='' @ ae_id event = fst item"
        by (auto simp: isActivityCategory_def list_ex_iff)
      have "list_all (\<lambda>item. CHR ''?'' \<notin> set (fst item)) ACTIVITY_FILTERS" by code_simp
      with item(1) have "CHR ''?'' \<notin> set (shown @ ''?eventId='' @ ae_id event)" unfolding item(2) list_all_iff by blast
      then show False by simp
    qed
    ultimately show ?thesis using False
      by (simp add: params_get_def resolveActivityFilter_def split: option.split)
  qed
qed

theorem filtered_link_loses_event_witness:
  "params_get ''eventId'' (link_query (buildActivityEventHref (activityFeedHref ''gateway'') (served None (sample_event ''x'')))) = None"
  using filtered_link_loses_event [OF _ refl, of "''gateway''" "sample_event ''x''"] by (simp add: DASHBOARD_ACTIVITY_FILTERS_def)

section \<open>The buttons of a run\<close>

text \<open>The button of a run is disabled from its request to the answer when nothing comes in between, but the
  same action on another run enables it at once, and either answer enables both.\<close>

theorem run_buttons:
  assumes "rr_id run \<noteq> rr_id other"
  shows "button_disabled action run (fst (run_begin action run s))
    \<and> (\<forall>ok. \<not> button_disabled action run (fst (run_end action ok s)))
    \<and> (\<forall>different. different \<noteq> action \<longrightarrow>
        button_disabled action run (fst (run_begin different other s)) = button_disabled action run s
        \<and> (\<forall>ok. button_disabled action run (fst (run_end different ok s)) = button_disabled action run s))
    \<and> \<not> button_disabled action run (fst (run_begin action other (fst (run_begin action run s))))"
proof -
  have flags: "flag_of a (set_flag b v s) = (if a = b then v else flag_of a s)" for a b v and s :: run_flags
    by (cases a; cases b) simp_all
  show ?thesis using assms by (auto simp: button_disabled_def run_begin_def run_end_def flags)
qed

theorem run_buttons_witness:
  "\<not> button_disabled RetryRun (sample_run ''a'' ''failed'')
     (fst (run_begin RetryRun (sample_run ''b'' ''failed'') (fst (run_begin RetryRun (sample_run ''a'' ''failed'') s0))))"
proof -
  have "rr_id (sample_run ''a'' ''failed'') \<noteq> rr_id (sample_run ''b'' ''failed'')" by (simp add: sample_run_def)
  from run_buttons [OF this] show ?thesis by blast
qed

end
