(* ===== verification/Spec2Isabelle.thy ===== *)
theory Spec2Isabelle
  imports SiloViews ActivityEvents Backoff UrlSorting ListDelete GatewayForm WebClient EventStream
    LiveFeed BoardAccess BoardRows BoardState CustomFields TaskForm ActivityPage BoardPanels
    TaskBoard Dashboard
begin

text \<open>
  Verification library of the Silo Forge web frontend (\<open>src/frontend/src\<close>, TypeScript).

  The program. Silo Forge is a control plane for groups of agents ("silos"): a FastAPI backend
  and a Next.js frontend. The frontend's logic is in \<open>lib/\<close> (view models, date and text
  helpers, URL and list helpers), \<open>auth/\<close>, \<open>proxy.ts\<close> and \<open>api/mutator.ts\<close> (sign-in and
  the HTTP client), and in the board page \<open>app/boards/[boardId]/page.tsx\<close>, which keeps a live
  copy of the board: it loads a snapshot, listens to five server-sent event streams, merges
  their frames into its rows, and changes the rows optimistically when the user acts.

  JavaScript. \<open>JsPrelude\<close> (strings), \<open>JsCollections\<close> (stable sort, maps and sets in insertion
  order, the keyed row update), \<open>JsValue\<close> (parsed JSON; finite numbers are rationals),
  \<open>JsErrors\<close> (a TypeError is \<open>None\<close>), \<open>JsNumbers\<close>, \<open>JsDate\<close> (ISO dates; \<open>tz\<close> turns local into
  UTC milliseconds), \<open>JsUrl\<close> (form encoding and search parameters), \<open>JsObjects\<close> (spread,
  \<open>??\<close>), \<open>JsJson\<close> (\<open>JSON.stringify\<close> and \<open>JSON.parse\<close>, with their round trip), \<open>JsDecimals\<close>
  (decimal fractions as text), \<open>JsCalendar\<close> (the date of a time value, \<open>toISOString\<close>, date inputs;
  \<open>lt\<close> turns UTC into local milliseconds). Three interfaces are locales: \<open>consistent_comparator\<close>
  (what \<open>sort\<close> needs of a comparator, interpreted on the comparators of the code), \<open>collation\<close> (one
  that tells all strings apart, interpreted on the default order of strings) and \<open>keyed_rows\<close> (what
  the row update needs of the functions that build rows, interpreted on the board's tasks and on
  its agents and approvals in \<open>BoardState\<close>).

  Components.
  \<^item> \<open>Silos\<close>, \<open>SiloOps\<close>, \<open>SiloViews\<close>: \<open>lib/silos.ts\<close>, \<open>lib/silo-detail.ts\<close>, \<open>lib/silo-ops/*\<close>.
    Health classes, demand profiles, dispatch candidates and their order, dashboard, overview.
  \<^item> \<open>RuntimeRuns\<close>, \<open>RuntimeFeed\<close>: \<open>lib/runtime-runs.ts\<close>, \<open>lib/runtime-run-feed.ts\<close>.
  \<^item> \<open>ActivityEvents\<close>: \<open>lib/activity-events.ts\<close>, with the payloads on which it throws.
  \<^item> \<open>Backoff\<close>, \<open>UrlSorting\<close>, \<open>ListDelete\<close>, \<open>GatewayForm\<close>: the helpers of \<open>lib/\<close> of these names.
  \<^item> \<open>WebClient\<close>: \<open>lib/api-base.ts\<close>, \<open>auth/*\<close>, \<open>proxy.ts\<close>, \<open>api/mutator.ts\<close>. The network, Clerk
    and the browser's URL parser are arguments.
  \<^item> \<open>EventStream\<close>: the read loop of the streams of the board page, chunk by chunk.
  \<^item> \<open>LiveFeed\<close>: the feed of the board page and its history, which keeps the newest version of an item.
  \<^item> \<open>BoardAccess\<close>: rights to a board as the pages and as the backend
    (\<open>backend/app/services/organizations.py\<close>) decide them.
  \<^item> \<open>BoardRows\<close>: what the board page computes from its rows.
  \<^item> \<open>BoardState\<close>: the rows and the live feed themselves, the frames (\<open>stream_step\<close>) and everything
    that changes them (\<open>board_step\<close>), the history, the poll and the reset of the feed included. An operation that awaits the server is two steps, what it keeps in
    between is in the list of pending moves, and any step can come in between.
  \<^item> \<open>CustomFields\<close>: custom field values of tasks (\<open>custom-field-utils.tsx\<close>, their editor) and the
    form that defines a field (\<open>components/custom-fields\<close>), with the backend's check of a value
    (\<open>backend/app/schemas/task_custom_fields.py\<close>).
  \<^item> \<open>TaskForm\<close>: the forms of the board page that edit and create a task, from the effect that fills
    them to the request that is sent, and what a task event does to an open form. The text in which
    the backend returns a date-time is a parameter with the hypothesis \<open>datetime_server\<close>.
  \<^item> \<open>BoardPanels\<close>: the panels of the board page (open task, chat, live feed) and its address. The
    router is a step of its own that comes after the request for a new address; the effect that opens
    the task of the address runs when its dependencies changed (\<open>run_task_effect\<close>), and the answers
    to saves, deletions and comments come at any time.
  \<^item> \<open>ActivityPage\<close>: \<open>app/activity/page.tsx\<close> with the routes of \<open>backend/app/api/activity.py\<close>. A
    load is cut at its requests (\<open>load_phase\<close>), frames of the streams come in between.
  \<^item> \<open>TaskBoard\<close>: the kanban board (\<open>TaskBoard.tsx\<close>, \<open>TaskCard.tsx\<close>): columns, review tabs, dragging,
    and the animation of moved cards, whose steps are commits, animation frames and timeouts.
  \<^item> \<open>DashboardSessions\<close> and \<open>Dashboard\<close>: \<open>app/dashboard/page.tsx\<close>: sessions and gateways (with
    the answers of the backend's status service), activity, telemetry, assignments, runs and metrics; \<open>lib/formatters.ts\<close>.

  Lemmas. Each theory proves the behaviour of its operations and closes with its properties,
  numbered as in the manifest, each followed by an instance of it when it has hypotheses.
  \<open>BoardState\<close> proves one preservation lemma per step, the invariant of the reachable states by
  rule induction, and that the task list refines a map from ids to rows. \<open>EventStream\<close> proves
  that cutting a stream into chunks does not matter and that the events of a server's stream, with
  its line ends and pings, are handled completely.

  Bounds. The history of the feed reads at most five pages of 200 events, as the code does
  (\<open>collect_pages\<close> recurses on the number of pages left); a load of the activity page ends after
  eleven answers (\<open>load_terminates\<close>). \<open>show_frac\<close> prints at most 17
  decimals, enough for the numbers that JSON carries and JavaScript prints positionally. All
  other loops are structural or have a termination proof (\<open>drain\<close>, \<open>activity_loop\<close>).

  Not modelled. Markup, styling and hook wiring; dialogs, timers and focus; the generated API
  client (\<open>api/generated\<close>) and the generated contracts; number and date formatting in the
  user's locale; the backend other than board access, the routes of the activity log, the gateway
  status and the check of custom field values; rounding of numbers to doubles. Ids are
  strings, as the types of the code say: identity of objects is not modelled.
\<close>

end
